(* ===== verification/Prelude.thy ===== *)
theory Prelude
  imports Main "HOL-Library.Sublist" "HOL-Library.AList"
begin

text \<open>
  What every component shares: Go strings as byte lists, the functions of the packages
  \<open>strings\<close> and \<open>strconv\<close> the program calls, error values, and the lemma
  collections the component theories extend.

  A Go \<open>string\<close> is a sequence of bytes, and so is an Isabelle \<open>string\<close>
  (a list of 8-bit characters): lengths, slices and comparisons count the same units.
  Where a library function consults the Unicode tables beyond ASCII, the table is an
  argument of the model (\<open>to_lower\<close>), and the lemmas hold for every table.
\<close>

named_theorems go_simps "unfolding rules of small program operations"
named_theorems effect_simps "what a step of a run adds to its trace and keeps of its state"

section \<open>Errors\<close>

text \<open>
  An error value of the program: \<open>ErrMsg f as\<close> is \<open>errors.New\<close> or
  \<open>fmt.Errorf\<close> with its format string and string arguments, kept unrendered;
  \<open>ErrWrap f e as\<close> is a format with \<open>%w\<close>; \<open>ErrOs op p n\<close> is the
  \<open>*PathError\<close> of a system call; \<open>ErrNotExist\<close> is the sentinel
  \<open>os.ErrNotExist\<close> itself.
\<close>

datatype errno = ENOENT | ENOTDIR | EISDIR | EEXIST | EIO

datatype gerr =
    ErrMsg string "string list"
  | ErrWrap string gerr "string list"
  | ErrOs string string errno
  | ErrNotExist

text \<open>\<open>os.IsNotExist\<close>: it looks at the error itself and does not unwrap \<open>%w\<close>.\<close>

fun is_not_exist :: "gerr \<Rightarrow> bool" where
  "is_not_exist (ErrOs _ _ n) = (n = ENOENT)"
| "is_not_exist ErrNotExist = True"
| "is_not_exist _ = False"

type_synonym 'a res = "gerr + 'a"

definition is_ok :: "'e + 'a \<Rightarrow> bool" where
  "is_ok r = (case r of Inl _ \<Rightarrow> False | Inr _ \<Rightarrow> True)"

lemma is_ok_simps [simp]: "is_ok (Inr x)" "\<not> is_ok (Inl e)"
  by (simp_all add: is_ok_def)

text \<open>
  The text of an error (its method \<open>Error\<close>): the format rendered with its arguments.
  \<open>q\<close> is \<open>strconv.Quote\<close>, which consults the Unicode tables; \<open>w\<close> is
  the text of the wrapped error.
\<close>

fun render :: "(string \<Rightarrow> string) \<Rightarrow> string \<Rightarrow> string \<Rightarrow> string list \<Rightarrow> string" where
  "render q w [] as = []"
| "render q w [c] as = [c]"
| "render q w (c # d # f) as =
     (if c \<noteq> CHR 0x25 then c # render q w (d # f) as
      else if d = CHR ''w'' then w @ render q w f as
      else if d = CHR 0x25 then d # render q w f as
      else (case as of
         [] \<Rightarrow> render q w f []
       | a # as' \<Rightarrow> (if d = CHR ''q'' then q a else a) @ render q w f as'))"

fun errno_text :: "errno \<Rightarrow> string" where
  "errno_text ENOENT = ''no such file or directory''"
| "errno_text ENOTDIR = ''not a directory''"
| "errno_text EISDIR = ''is a directory''"
| "errno_text EEXIST = ''file exists''"
| "errno_text EIO = ''input/output error''"

fun err_text :: "(string \<Rightarrow> string) \<Rightarrow> gerr \<Rightarrow> string" where
  "err_text q (ErrMsg f as) = render q [] f as"
| "err_text q (ErrWrap f e as) = render q (err_text q e) f as"
| "err_text q (ErrOs op p n) = op @ '' '' @ p @ '': '' @ errno_text n"
| "err_text q ErrNotExist = ''file does not exist''"

section \<open>Bytes and ASCII\<close>

abbreviation byte_of :: "char \<Rightarrow> nat" where
  "byte_of c \<equiv> of_char c"

definition is_ascii :: "char \<Rightarrow> bool" where
  "is_ascii c = (byte_of c < 128)"

definition is_upper :: "char \<Rightarrow> bool" where
  "is_upper c = (65 \<le> byte_of c \<and> byte_of c \<le> 90)"

definition is_lower :: "char \<Rightarrow> bool" where
  "is_lower c = (97 \<le> byte_of c \<and> byte_of c \<le> 122)"

definition is_digit :: "char \<Rightarrow> bool" where
  "is_digit c = (48 \<le> byte_of c \<and> byte_of c \<le> 57)"

definition is_alnum :: "char \<Rightarrow> bool" where
  "is_alnum c = (is_upper c \<or> is_lower c \<or> is_digit c)"

definition ascii_lower :: "char \<Rightarrow> char" where
  "ascii_lower c = (if is_upper c then char_of (byte_of c + 32) else c)"

lemma byte_of_ascii_lower:
  "byte_of (ascii_lower c) = (if is_upper c then byte_of c + 32 else byte_of c)"
  by (auto simp: ascii_lower_def is_upper_def)

lemma ascii_lower_not_upper [simp]: "\<not> is_upper (ascii_lower c)"
  by (auto simp: is_upper_def byte_of_ascii_lower)

lemma ascii_lower_ascii [simp]: "is_ascii (ascii_lower c) = is_ascii c"
  by (auto simp: is_ascii_def byte_of_ascii_lower is_upper_def)

section \<open>Package \<open>strings\<close>\<close>

text \<open>
  \<open>strings.ToLower\<close>: byte by byte on an ASCII string; any other string goes through
  the Unicode case table, the argument \<open>ul\<close>.
\<close>

definition to_lower :: "(string \<Rightarrow> string) \<Rightarrow> string \<Rightarrow> string" where
  "to_lower ul s = (if list_all is_ascii s then map ascii_lower s else ul s)"

text \<open>
  The UTF-8 encodings of the code points with the property White\_Space: what
  \<open>unicode.IsSpace\<close> accepts. Their first bytes never occur inside another encoding,
  so a scan that tests for one of them at every byte position sees the same spaces as
  Go's rune by rune scan, also in a string that is not valid UTF-8.
\<close>

definition space_encs :: "string list" where
  "space_encs =
     [[CHR 0x20], [CHR 0x09], [CHR 0x0A], [CHR 0x0B], [CHR 0x0C], [CHR 0x0D],
      [CHR 0xC2, CHR 0x85], [CHR 0xC2, CHR 0xA0], [CHR 0xE1, CHR 0x9A, CHR 0x80],
      [CHR 0xE2, CHR 0x80, CHR 0x80], [CHR 0xE2, CHR 0x80, CHR 0x81],
      [CHR 0xE2, CHR 0x80, CHR 0x82], [CHR 0xE2, CHR 0x80, CHR 0x83],
      [CHR 0xE2, CHR 0x80, CHR 0x84], [CHR 0xE2, CHR 0x80, CHR 0x85],
      [CHR 0xE2, CHR 0x80, CHR 0x86], [CHR 0xE2, CHR 0x80, CHR 0x87],
      [CHR 0xE2, CHR 0x80, CHR 0x88], [CHR 0xE2, CHR 0x80, CHR 0x89],
      [CHR 0xE2, CHR 0x80, CHR 0x8A], [CHR 0xE2, CHR 0x80, CHR 0xA8],
      [CHR 0xE2, CHR 0x80, CHR 0xA9], [CHR 0xE2, CHR 0x80, CHR 0xAF],
      [CHR 0xE2, CHR 0x81, CHR 0x9F], [CHR 0xE3, CHR 0x80, CHR 0x80]]"

text \<open>Strips leading occurrences of the given nonempty byte sequences.\<close>

fun strip_encs :: "string list \<Rightarrow> string \<Rightarrow> string" where
  "strip_encs encs [] = []"
| "strip_encs encs (c # cs) =
     (case find (\<lambda>e. prefix e (c # cs)) encs of
        None \<Rightarrow> c # cs
      | Some e \<Rightarrow> strip_encs encs (drop (length e - 1) cs))"

definition trim_space :: "string \<Rightarrow> string" where
  "trim_space s =
     rev (strip_encs (map rev space_encs) (rev (strip_encs space_encs s)))"

definition trim_char :: "char \<Rightarrow> string \<Rightarrow> string" where
  "trim_char c s = rev (dropWhile (\<lambda>x. x = c) (rev (dropWhile (\<lambda>x. x = c) s)))"

text \<open>\<open>strings.Fields\<close>: the maximal runs of bytes outside white space.\<close>

fun fields_aux :: "string \<Rightarrow> string \<Rightarrow> string list" where
  "fields_aux w [] = (if w = [] then [] else [rev w])"
| "fields_aux w (c # cs) =
     (case find (\<lambda>e. prefix e (c # cs)) space_encs of
        None \<Rightarrow> fields_aux (c # w) cs
      | Some e \<Rightarrow> (if w = [] then [] else [rev w]) @ fields_aux [] (drop (length e - 1) cs))"

definition fields :: "string \<Rightarrow> string list" where
  "fields s = fields_aux [] s"

fun contains :: "string \<Rightarrow> string \<Rightarrow> bool" where
  "contains sub [] = (sub = [])"
| "contains sub (c # cs) = (prefix sub (c # cs) \<or> contains sub cs)"

definition contains_any :: "string \<Rightarrow> string \<Rightarrow> bool" where
  "contains_any chars s = list_ex (\<lambda>c. c \<in> set chars) s"

definition has_suffix :: "string \<Rightarrow> string \<Rightarrow> bool" where
  "has_suffix suf s = suffix suf s"

definition trim_suffix :: "string \<Rightarrow> string \<Rightarrow> string" where
  "trim_suffix suf s = (if suffix suf s then take (length s - length suf) s else s)"

fun split_on :: "char \<Rightarrow> string \<Rightarrow> string list" where
  "split_on d [] = [[]]"
| "split_on d (c # cs) =
     (if c = d then [] # split_on d cs
      else (case split_on d cs of [] \<Rightarrow> [[c]] | w # ws \<Rightarrow> (c # w) # ws))"

fun join :: "string \<Rightarrow> string list \<Rightarrow> string" where
  "join sep [] = []"
| "join sep [s] = s"
| "join sep (s # t # ss) = s @ sep @ join sep (t # ss)"

text \<open>\<open>strconv.Itoa\<close> on a non-negative number.\<close>

fun itoa :: "nat \<Rightarrow> string" where
  "itoa n = (if n < 10 then [char_of (48 + n)] else itoa (n div 10) @ [char_of (48 + n mod 10)])"

declare itoa.simps [simp del]

definition itoa_int :: "int \<Rightarrow> string" where
  "itoa_int i = (if i < 0 then CHR ''-'' # itoa (nat (- i)) else itoa (nat i))"

section \<open>Lemmas on strings\<close>

lemma split_on_nonempty [simp]: "split_on d s \<noteq> []"
  by (induction s) (auto split: list.splits)

lemma split_on_append:
  "split_on d (a @ d # b) = split_on d a @ split_on d b"
proof (induction a)
  case Nil
  then show ?case by simp
next
  case (Cons c a)
  then show ?case by (cases "split_on d a") auto
qed

lemma split_on_no_sep: "d \<notin> set s \<Longrightarrow> split_on d s = [s]"
  by (induction s) auto

lemma split_on_elem_no_sep: "w \<in> set (split_on d s) \<Longrightarrow> d \<notin> set w"
proof (induction s arbitrary: w)
  case Nil
  then show ?case by simp
next
  case (Cons c s)
  show ?case
  proof (cases "c = d")
    case True
    with Cons show ?thesis by auto
  next
    case False
    obtain v vs where v: "split_on d s = v # vs" by (cases "split_on d s") auto
    with Cons.IH have "d \<notin> set v" "\<And>x. x \<in> set vs \<Longrightarrow> d \<notin> set x" by simp_all
    with Cons.prems False v show ?thesis by auto
  qed
qed

lemma split_on_join:
  assumes "cs \<noteq> []" "\<forall>c \<in> set cs. d \<notin> set c"
  shows "split_on d (join [d] cs) = cs"
  using assms
proof (induction "[d]" cs rule: join.induct)
  case (3 s t ss)
  then show ?case by (simp add: split_on_append split_on_no_sep)
qed (auto simp: split_on_no_sep)

lemma set_join: "set (join sep ss) \<subseteq> set sep \<union> (\<Union>s \<in> set ss. set s)"
  by (induction sep ss rule: join.induct) auto

lemma contains_iff: "contains sub s \<longleftrightarrow> (\<exists>a b. s = a @ sub @ b)"
proof (induction sub s rule: contains.induct)
  case (1 sub)
  then show ?case by simp
next
  case (2 sub c cs)
  show ?case
  proof
    assume "contains sub (c # cs)"
    then consider "prefix sub (c # cs)" | "contains sub cs" by auto
    then show "\<exists>a b. c # cs = a @ sub @ b"
    proof cases
      case 1
      then obtain b where "c # cs = [] @ sub @ b" by (auto elim: prefixE)
      then show ?thesis by blast
    next
      case 2
      with "2.IH" obtain a b where "cs = a @ sub @ b" by blast
      then have "c # cs = (c # a) @ sub @ b" by simp
      then show ?thesis by blast
    qed
  next
    assume "\<exists>a b. c # cs = a @ sub @ b"
    then obtain a b where ab: "c # cs = a @ sub @ b" by blast
    show "contains sub (c # cs)"
    proof (cases a)
      case Nil
      with ab show ?thesis by (metis append_Nil contains.simps(2) prefixI)
    next
      case (Cons x a')
      with ab have "cs = a' @ sub @ b" by simp
      with "2.IH" show ?thesis by auto
    qed
  qed
qed

lemma contains_set: "contains sub s \<Longrightarrow> set sub \<subseteq> set s"
  by (auto simp: contains_iff)

lemma contains_any_iff [simp]: "contains_any chars s \<longleftrightarrow> set chars \<inter> set s \<noteq> {}"
  by (auto simp: contains_any_def list_ex_iff)

fun atoi_aux :: "nat \<Rightarrow> string \<Rightarrow> nat" where
  "atoi_aux acc [] = acc"
| "atoi_aux acc (c # cs) = atoi_aux (10 * acc + (byte_of c - 48)) cs"

lemma atoi_aux_append: "atoi_aux acc (s @ [c]) = 10 * atoi_aux acc s + (byte_of c - 48)"
  by (induction s arbitrary: acc) auto

lemma digit_byte [simp]: "n < 10 \<Longrightarrow> byte_of (char_of (48 + n)) = 48 + n"
  by (simp add: of_char_of)

lemma atoi_itoa [simp]: "atoi_aux 0 (itoa n) = n"
proof (induction n rule: itoa.induct)
  case (1 n)
  show ?case
  proof (cases "n < 10")
    case True
    then show ?thesis by (subst itoa.simps) simp
  next
    case False
    with 1 have "atoi_aux 0 (itoa (n div 10)) = n div 10" by simp
    with False show ?thesis by (subst itoa.simps) (simp add: atoi_aux_append)
  qed
qed

lemma itoa_inj: "itoa m = itoa n \<longleftrightarrow> m = n"
  by (metis atoi_itoa)

lemma itoa_digits: "c \<in> set (itoa n) \<Longrightarrow> is_digit c"
proof (induction n arbitrary: c rule: itoa.induct)
  case (1 n)
  have d: "is_digit (char_of (48 + k))" if "k < 10" for k :: nat
    using that by (simp add: is_digit_def)
  show ?case
  proof (cases "n < 10")
    case True
    with "1.prems" d show ?thesis by (subst (asm) itoa.simps) simp
  next
    case False
    have "c \<in> set (itoa (n div 10)) \<or> c = char_of (48 + n mod 10)"
      using "1.prems" False by (subst (asm) itoa.simps) auto
    then show ?thesis using "1.IH" [OF False] d by auto
  qed
qed

lemma itoa_nonempty [simp]: "itoa n \<noteq> []"
  by (subst itoa.simps) simp

lemma length_itoa_le: "n < 10 ^ k \<Longrightarrow> 0 < k \<Longrightarrow> length (itoa n) \<le> k"
proof (induction k arbitrary: n)
  case 0
  then show ?case by simp
next
  case (Suc k)
  show ?case
  proof (cases "n < 10")
    case True
    then show ?thesis by (subst itoa.simps) simp
  next
    case False
    with Suc.prems have "n div 10 < 10 ^ k" "0 < k"
      by (auto simp: less_mult_imp_div_less mult.commute intro!: gr0I)
    with Suc.IH have "length (itoa (n div 10)) \<le> k" by blast
    with False show ?thesis by (subst itoa.simps) simp
  qed
qed

text \<open>\<open>strconv.Atoi\<close>: an optional sign, decimal digits, 64 bits.\<close>

definition atoi :: "string \<Rightarrow> int option" where
  "atoi s =
     (let neg = (s \<noteq> [] \<and> hd s = CHR ''-'');
          ds = (if s \<noteq> [] \<and> hd s \<in> {CHR ''-'', CHR ''+''} then tl s else s);
          n = int (atoi_aux 0 ds); v = (if neg then - n else n)
      in if ds \<noteq> [] \<and> list_all is_digit ds \<and> - (2 ^ 63) \<le> v \<and> v < 2 ^ 63 then Some v else None)"

lemma atoi_itoa_int:
  assumes "- (2 ^ 63) \<le> i" "i < 2 ^ 63" shows "atoi (itoa_int i) = Some i"
proof -
  have dig: "list_all is_digit (itoa n)" for n using itoa_digits by (simp add: list_all_iff)
  have h: "hd (itoa n) \<notin> {CHR ''-'', CHR ''+''}" for n
    using itoa_digits [of "hd (itoa n)" n] by (auto simp: is_digit_def)
  show ?thesis
  proof (cases "i < 0")
    case True
    then show ?thesis using assms dig by (simp add: atoi_def itoa_int_def Let_def)
  next
    case False
    then show ?thesis using assms dig h [of "nat i"] by (simp add: atoi_def itoa_int_def Let_def)
  qed
qed

section \<open>Association lists with distinct keys, for Go maps\<close>

lemma map_of_update [simp]: "map_of (AList.update k v m) = (map_of m)(k \<mapsto> v)"
  by (rule update_conv')

end
