(* ===== verification/Utf8.thy ===== *)
theory Utf8
  imports Prelude
begin

text \<open>
  Package \<open>unicode/utf8\<close>: decoding the first rune of a string
  (\<open>DecodeRuneInString\<close>), encoding a rune (\<open>AppendRune\<close>), validity. A byte
  sequence that is no encoding yields the replacement character with width 1.
\<close>

definition rune_error :: nat where
  "rune_error = 65533"

definition cont :: "nat \<Rightarrow> bool" where
  "cont b = (128 \<le> b \<and> b \<le> 191)"

text \<open>The bytes a second byte may be, after a first byte of a 3 or 4 byte encoding.\<close>

definition second_lo :: "nat \<Rightarrow> nat" where
  "second_lo b = (if b = 224 then 160 else if b = 240 then 144 else 128)"

definition second_hi :: "nat \<Rightarrow> nat" where
  "second_hi b = (if b = 237 then 159 else if b = 244 then 143 else 191)"

fun decode_bytes :: "nat list \<Rightarrow> nat \<times> nat" where
  "decode_bytes [] = (rune_error, 0)"
| "decode_bytes (b # bs) =
     (if b < 128 then (b, 1)
      else if 194 \<le> b \<and> b \<le> 223 then
        (case bs of
           b1 # _ \<Rightarrow> if cont b1 then ((b - 192) * 64 + (b1 - 128), 2) else (rune_error, 1)
         | [] \<Rightarrow> (rune_error, 1))
      else if 224 \<le> b \<and> b \<le> 239 then
        (case bs of
           b1 # b2 # _ \<Rightarrow>
             if second_lo b \<le> b1 \<and> b1 \<le> second_hi b \<and> cont b2
             then ((b - 224) * 4096 + (b1 - 128) * 64 + (b2 - 128), 3) else (rune_error, 1)
         | _ \<Rightarrow> (rune_error, 1))
      else if 240 \<le> b \<and> b \<le> 244 then
        (case bs of
           b1 # b2 # b3 # _ \<Rightarrow>
             if second_lo b \<le> b1 \<and> b1 \<le> second_hi b \<and> cont b2 \<and> cont b3
             then ((b - 240) * 262144 + (b1 - 128) * 4096 + (b2 - 128) * 64 + (b3 - 128), 4)
             else (rune_error, 1)
         | _ \<Rightarrow> (rune_error, 1))
      else (rune_error, 1))"

definition decode_rune :: "string \<Rightarrow> nat \<times> nat" where
  "decode_rune s = decode_bytes (map byte_of (take 4 s))"

definition encode_bytes :: "nat \<Rightarrow> nat list" where
  "encode_bytes r =
     (if r < 128 then [r]
      else if r < 2048 then [192 + r div 64, 128 + r mod 64]
      else if 1114111 < r \<or> (55296 \<le> r \<and> r \<le> 57343) then [239, 191, 189]
      else if r < 65536 then [224 + r div 4096, 128 + r div 64 mod 64, 128 + r mod 64]
      else [240 + r div 262144, 128 + r div 4096 mod 64, 128 + r div 64 mod 64, 128 + r mod 64])"

definition encode_rune :: "nat \<Rightarrow> string" where
  "encode_rune r = map char_of (encode_bytes r)"

text \<open>The runes of a string, as \<open>for _, r := range s\<close> visits them.\<close>

function runes_of :: "string \<Rightarrow> nat list" where
  "runes_of [] = []"
| "runes_of (c # cs) =
     fst (decode_rune (c # cs)) # runes_of (drop (snd (decode_rune (c # cs)) - 1) cs)"
  by pat_completeness auto
termination
  by (relation "measure length") auto

text \<open>A string all of whose bytes belong to encodings (\<open>utf8.ValidString\<close>).\<close>

function valid_utf8 :: "string \<Rightarrow> bool" where
  "valid_utf8 [] = True"
| "valid_utf8 (c # cs) =
     (let (r, w) = decode_rune (c # cs)
      in \<not> (r = rune_error \<and> w = 1) \<and> valid_utf8 (drop (w - 1) cs))"
  by pat_completeness auto
termination
  by (relation "measure length") auto

declare runes_of.simps(2) [simp del] valid_utf8.simps(2) [simp del]

lemma decode_rune_ascii [simp]: "is_ascii c \<Longrightarrow> decode_rune (c # cs) = (byte_of c, 1)"
  by (simp add: decode_rune_def is_ascii_def)

lemma decode_bytes_width:
  "bs \<noteq> [] \<Longrightarrow> 1 \<le> snd (decode_bytes bs) \<and> snd (decode_bytes bs) \<le> length bs"
  by (cases bs) (auto split: list.splits)

lemma decode_rune_width:
  "1 \<le> snd (decode_rune (c # cs)) \<and> snd (decode_rune (c # cs)) \<le> Suc (length cs)"
  using decode_bytes_width [of "map byte_of (take 4 (c # cs))"] by (auto simp: decode_rune_def)

end
