(* ===== verification/Go_Values.thy ===== *)
theory Go_Values
  imports Utf8 "HOL-Library.Word"
begin

text \<open>
  Dynamic values of the type \<open>any\<close>, as the program builds, inspects and serialises
  them. A \<open>float64\<close> is its bit pattern; a map is an association list.
\<close>

datatype gval =
    GNil
  | GBool bool
  | GFloat "64 word"
  | GInt int
  | GStr string
  | GArr "gval list"                      \<comment> \<open>\<open>[]any\<close>\<close>
  | GObj "(string \<times> gval) list"           \<comment> \<open>\<open>map[string]any\<close>\<close>
  | GSlice string "gval list"             \<comment> \<open>a slice of another element type\<close>
  | GStruct string "(string \<times> gval) list"  \<comment> \<open>a struct: its type, its JSON fields in order\<close>
  | GOther string                         \<comment> \<open>any other type, not serialisable\<close>

type_synonym args = "(string \<times> gval) list"

text \<open>Type assertions \<open>v.(T)\<close>.\<close>

fun as_string :: "gval \<Rightarrow> string option" where
  "as_string (GStr s) = Some s"
| "as_string _ = None"

fun as_bool :: "gval \<Rightarrow> bool option" where
  "as_bool (GBool b) = Some b"
| "as_bool _ = None"

fun as_array :: "gval \<Rightarrow> gval list option" where
  "as_array (GArr xs) = Some xs"
| "as_array _ = None"

fun as_object :: "gval \<Rightarrow> args option" where
  "as_object (GObj kvs) = Some kvs"
| "as_object _ = None"

text \<open>The type switch \<open>case float64, int, int32, int64, float32\<close>.\<close>

fun is_number :: "gval \<Rightarrow> bool" where
  "is_number (GFloat _) = True"
| "is_number (GInt _) = True"
| "is_number (GOther t) = (t \<in> {''int32'', ''int64'', ''float32''})"
| "is_number _ = False"

text \<open>\<open>args["k"].(string)\<close>: a missing key reads as nil, which is no string.\<close>

definition arg_string :: "args \<Rightarrow> string \<Rightarrow> string option" where
  "arg_string as k = Option.bind (map_of as k) as_string"

definition strings :: "string list \<Rightarrow> gval" where
  "strings ss = GSlice ''[]string'' (map GStr ss)"

text \<open>The dynamic type name \<open>%T\<close> prints.\<close>

fun type_name :: "gval \<Rightarrow> string" where
  "type_name GNil = ''<nil>''"
| "type_name (GBool _) = ''bool''"
| "type_name (GFloat _) = ''float64''"
| "type_name (GInt _) = ''int''"
| "type_name (GStr _) = ''string''"
| "type_name (GArr _) = ''[]interface {}''"
| "type_name (GObj _) = ''map[string]interface {}''"
| "type_name (GSlice t _) = t"
| "type_name (GStruct t _) = t"
| "type_name (GOther t) = t"

lemma as_string_iff: "as_string v = Some s \<longleftrightarrow> v = GStr s"
  by (cases v) auto

lemma arg_string_iff: "arg_string as k = Some s \<longleftrightarrow> map_of as k = Some (GStr s)"
  by (auto simp: arg_string_def as_string_iff bind_eq_Some_conv)

end
