(* ===== verification/Json.thy ===== *)
theory Json
  imports Go_Values "HOL-Library.List_Lexorder" "HOL-Library.Char_ord"
begin

text \<open>
  Package \<open>encoding/json\<close> as the program uses it: \<open>Marshal\<close> and
  \<open>MarshalIndent\<close> (HTML-safe escapes, map keys sorted, struct fields in order) and
  \<open>Unmarshal\<close> into \<open>any\<close> (numbers to \<open>float64\<close>, the last of duplicate
  keys, invalid UTF-8 replaced). Text and values meet in the syntax tree \<open>json\<close>.
  The conversion of a \<open>float64\<close> to and from decimal digits (\<open>strconv\<close>) is the
  pair of arguments \<open>ff\<close> (format; none for NaN and the infinities) and \<open>pf\<close>
  (parse; none out of range). The nesting limit of 10000 of the decoder is left out.
\<close>

datatype json =
    JNull
  | JBool bool
  | JNum string
  | JStr string
  | JArr "json list"
  | JObj "(string \<times> json) list"

section \<open>Printing\<close>

definition hex_digit :: "nat \<Rightarrow> char" where
  "hex_digit n = (if n < 10 then char_of (48 + n) else char_of (87 + n))"

definition html_safe :: "char \<Rightarrow> bool" where
  "html_safe c = (32 \<le> byte_of c \<and> byte_of c < 128 \<and> c \<notin> {CHR 0x22, CHR 0x5C, CHR ''<'', CHR ''>'', CHR ''&''})"

text \<open>One ASCII byte inside a JSON string.\<close>

definition esc_byte :: "char \<Rightarrow> string" where
  "esc_byte c =
     (if html_safe c then [c]
      else if c = CHR 0x22 \<or> c = CHR 0x5C then [CHR 0x5C, c]
      else if c = CHR 0x08 then [CHR 0x5C, CHR ''b'']
      else if c = CHR 0x0C then [CHR 0x5C, CHR ''f'']
      else if c = CHR 0x0A then [CHR 0x5C, CHR ''n'']
      else if c = CHR 0x0D then [CHR 0x5C, CHR ''r'']
      else if c = CHR 0x09 then [CHR 0x5C, CHR ''t'']
      else CHR 0x5C # ''u00'' @ [hex_digit (byte_of c div 16), hex_digit (byte_of c mod 16)])"

function quote_body :: "string \<Rightarrow> string" where
  "quote_body [] = []"
| "quote_body (c # cs) =
     (if is_ascii c then esc_byte c @ quote_body cs
      else let (r, w) = decode_rune (c # cs) in
        (if r = rune_error \<and> w = 1 then CHR 0x5C # ''ufffd''
         else if r = 8232 then CHR 0x5C # ''u2028''
         else if r = 8233 then CHR 0x5C # ''u2029''
         else take w (c # cs)) @ quote_body (drop (w - 1) cs))"
  by pat_completeness auto
termination
  by (relation "measure length") auto

declare quote_body.simps(2) [simp del]

definition quote :: "string \<Rightarrow> string" where
  "quote s = CHR 0x22 # quote_body s @ [CHR 0x22]"

definition nl :: "bool \<Rightarrow> nat \<Rightarrow> string" where
  "nl ind d = (if ind then CHR 0x0A # replicate (2 * d) (CHR '' '') else [])"

fun print_json :: "bool \<Rightarrow> nat \<Rightarrow> json \<Rightarrow> string" where
  "print_json ind d JNull = ''null''"
| "print_json ind d (JBool b) = (if b then ''true'' else ''false'')"
| "print_json ind d (JNum s) = s"
| "print_json ind d (JStr s) = quote s"
| "print_json ind d (JArr xs) =
     (if xs = [] then ''[]''
      else ''['' @ nl ind (Suc d)
         @ join ('','' @ nl ind (Suc d)) (map (print_json ind (Suc d)) xs) @ nl ind d @ '']'')"
| "print_json ind d (JObj kvs) =
     (if kvs = [] then ''{}''
      else ''{'' @ nl ind (Suc d)
         @ join ('','' @ nl ind (Suc d))
             (map (\<lambda>(k, v). quote k @ (if ind then '': '' else '':'') @ print_json ind (Suc d) v) kvs)
         @ nl ind d @ ''}'')"

section \<open>Parsing\<close>

definition is_ws :: "char \<Rightarrow> bool" where
  "is_ws c = (c \<in> {CHR '' '', CHR 0x09, CHR 0x0A, CHR 0x0D})"

definition skip_ws :: "string \<Rightarrow> string" where
  "skip_ws s = dropWhile is_ws s"

definition hex_val :: "char \<Rightarrow> nat option" where
  "hex_val c =
     (let b = byte_of c in
      if 48 \<le> b \<and> b \<le> 57 then Some (b - 48)
      else if 97 \<le> b \<and> b \<le> 102 then Some (b - 87)
      else if 65 \<le> b \<and> b \<le> 70 then Some (b - 55) else None)"

fun hex4 :: "string \<Rightarrow> (nat \<times> string) option" where
  "hex4 (a # b # c # d # s) =
     (case (hex_val a, hex_val b, hex_val c, hex_val d) of
        (Some x, Some y, Some z, Some w) \<Rightarrow> Some (((x * 16 + y) * 16 + z) * 16 + w, s)
      | _ \<Rightarrow> None)"
| "hex4 _ = None"

definition simple_esc :: "char \<Rightarrow> char option" where
  "simple_esc c =
     (if c = CHR 0x22 \<or> c = CHR 0x5C \<or> c = CHR ''/'' then Some c
      else if c = CHR ''b'' then Some (CHR 0x08)
      else if c = CHR ''f'' then Some (CHR 0x0C)
      else if c = CHR ''n'' then Some (CHR 0x0A)
      else if c = CHR ''r'' then Some (CHR 0x0D)
      else if c = CHR ''t'' then Some (CHR 0x09) else None)"

text \<open>The rest of a string literal after its opening quote: the decoded text and what follows.\<close>

function parse_str :: "string \<Rightarrow> (string \<times> string) option" where
  "parse_str [] = None"
| "parse_str (c # cs) =
     (if c = CHR 0x22 then Some ([], cs)
      else if c = CHR 0x5C then
        (case cs of
           [] \<Rightarrow> None
         | e # r \<Rightarrow>
             if e = CHR ''u'' then
               (case hex4 r of
                  None \<Rightarrow> None
                | Some (n, r1) \<Rightarrow>
                    let second = (case r1 of
                        x # y # r2 \<Rightarrow> if x = CHR 0x5C \<and> y = CHR ''u'' then hex4 r2 else None
                      | _ \<Rightarrow> None)
                    in if 55296 \<le> n \<and> n \<le> 57343 then
                         (case second of
                            Some (m, r3) \<Rightarrow>
                              if n \<le> 56319 \<and> 56320 \<le> m \<and> m \<le> 57343 \<and> length r3 < length cs
                              then map_option (apfst ((@) (encode_rune (65536 + (n - 55296) * 1024 + (m - 56320))))) (parse_str r3)
                              else if length r1 < length cs then map_option (apfst ((@) (encode_rune rune_error))) (parse_str r1) else None
                          | None \<Rightarrow> if length r1 < length cs then map_option (apfst ((@) (encode_rune rune_error))) (parse_str r1) else None)
                       else if length r1 < length cs then map_option (apfst ((@) (encode_rune n))) (parse_str r1) else None)
             else (case simple_esc e of
                     None \<Rightarrow> None
                   | Some x \<Rightarrow> map_option (apfst ((#) x)) (parse_str r)))
      else if byte_of c < 32 then None
      else let (r, w) = decode_rune (c # cs)
           in map_option (apfst ((@) (encode_rune r))) (parse_str (drop (w - 1) cs)))"
  by pat_completeness auto
termination
  by (relation "measure length") auto

declare parse_str.simps(2) [simp del]

text \<open>A number literal at the start of the text; the grammar of RFC 8259.\<close>

definition num_int :: "string \<Rightarrow> (string \<times> string) option" where
  "num_int s =
     (case s of
        [] \<Rightarrow> None
      | c # cs \<Rightarrow>
          if c = CHR ''0'' then Some ([c], cs)
          else if is_digit c then Some (takeWhile is_digit s, dropWhile is_digit s) else None)"

definition num_digits :: "string \<Rightarrow> (string \<times> string) option" where
  "num_digits s =
     (if takeWhile is_digit s = [] then None else Some (takeWhile is_digit s, dropWhile is_digit s))"

definition num_frac :: "string \<Rightarrow> (string \<times> string) option" where
  "num_frac s =
     (case s of
        c # cs \<Rightarrow> if c = CHR ''.'' then map_option (apfst ((#) c)) (num_digits cs) else Some ([], s)
      | [] \<Rightarrow> Some ([], s))"

definition num_exp :: "string \<Rightarrow> (string \<times> string) option" where
  "num_exp s =
     (case s of
        c # cs \<Rightarrow>
          if c = CHR ''e'' \<or> c = CHR ''E'' then
            (case cs of
               g # ds \<Rightarrow>
                 if g = CHR ''+'' \<or> g = CHR ''-''
                 then map_option (apfst (\<lambda>x. c # g # x)) (num_digits ds)
                 else map_option (apfst ((#) c)) (num_digits cs)
             | [] \<Rightarrow> None)
          else Some ([], s)
      | [] \<Rightarrow> Some ([], s))"

definition num_unsigned :: "string \<Rightarrow> (string \<times> string) option" where
  "num_unsigned s =
     (case num_int s of
        None \<Rightarrow> None
      | Some (a, s1) \<Rightarrow>
          (case num_frac s1 of
             None \<Rightarrow> None
           | Some (b, s2) \<Rightarrow> map_option (apfst (\<lambda>c. a @ b @ c)) (num_exp s2)))"

definition num_lit :: "string \<Rightarrow> (string \<times> string) option" where
  "num_lit s =
     (case s of
        c # cs \<Rightarrow> if c = CHR ''-'' then map_option (apfst ((#) c)) (num_unsigned cs) else num_unsigned s
      | [] \<Rightarrow> None)"

definition expect :: "string \<Rightarrow> json \<Rightarrow> string \<Rightarrow> (json \<times> string) option" where
  "expect w v s = (if prefix w s then Some (v, drop (length w) s) else None)"

text \<open>
  The parser, with fuel; \<open>parse_json\<close> gives twice the length of the text and two more,
  which bounds the calls nested in one another: every second call consumes a byte.
\<close>

fun pval :: "nat \<Rightarrow> string \<Rightarrow> (json \<times> string) option"
  and parr :: "nat \<Rightarrow> string \<Rightarrow> (json list \<times> string) option"
  and pobj :: "nat \<Rightarrow> string \<Rightarrow> ((string \<times> json) list \<times> string) option" where
  "pval 0 s = None"
| "pval (Suc n) s =
     (case skip_ws s of
        [] \<Rightarrow> None
      | c # cs \<Rightarrow>
          if c = CHR 0x22 then map_option (apfst JStr) (parse_str cs)
          else if c = CHR ''['' then
            (case skip_ws cs of
               x # r \<Rightarrow> if x = CHR '']'' then Some (JArr [], r) else map_option (apfst JArr) (parr n cs)
             | [] \<Rightarrow> None)
          else if c = CHR ''{'' then
            (case skip_ws cs of
               x # r \<Rightarrow> if x = CHR ''}'' then Some (JObj [], r) else map_option (apfst JObj) (pobj n cs)
             | [] \<Rightarrow> None)
          else if c = CHR ''n'' then expect ''null'' JNull (c # cs)
          else if c = CHR ''t'' then expect ''true'' (JBool True) (c # cs)
          else if c = CHR ''f'' then expect ''false'' (JBool False) (c # cs)
          else map_option (apfst JNum) (num_lit (c # cs)))"
| "parr 0 s = None"
| "parr (Suc n) s =
     (case pval n s of
        None \<Rightarrow> None
      | Some (v, r) \<Rightarrow>
          (case skip_ws r of
             [] \<Rightarrow> None
           | c # r1 \<Rightarrow>
               if c = CHR '']'' then Some ([v], r1)
               else if c = CHR '','' then map_option (apfst ((#) v)) (parr n r1)
               else None))"
| "pobj 0 s = None"
| "pobj (Suc n) s =
     (case skip_ws s of
        [] \<Rightarrow> None
      | q # r0 \<Rightarrow>
          if q \<noteq> CHR 0x22 then None
          else (case parse_str r0 of
             None \<Rightarrow> None
           | Some (k, r1) \<Rightarrow>
               (case skip_ws r1 of
                  [] \<Rightarrow> None
                | col # r2 \<Rightarrow>
                    if col \<noteq> CHR '':'' then None
                    else (case pval n r2 of
                       None \<Rightarrow> None
                     | Some (v, r3) \<Rightarrow>
                         (case skip_ws r3 of
                            [] \<Rightarrow> None
                          | c # r4 \<Rightarrow>
                              if c = CHR ''}'' then Some ([(k, v)], r4)
                              else if c = CHR '','' then map_option (apfst ((#) (k, v))) (pobj n r4)
                              else None)))))"

declare pval.simps [simp del] parr.simps [simp del] pobj.simps [simp del]

definition parse_json :: "string \<Rightarrow> json option" where
  "parse_json s =
     (case pval (2 * length s + 2) s of
        Some (v, r) \<Rightarrow> if skip_ws r = [] then Some v else None
      | None \<Rightarrow> None)"

section \<open>Values\<close>

type_synonym fmt_float = "64 word \<Rightarrow> string option"
type_synonym parse_float = "string \<Rightarrow> 64 word option"

fun those :: "'a option list \<Rightarrow> 'a list option" where
  "those [] = Some []"
| "those (None # xs) = None"
| "those (Some x # xs) = map_option ((#) x) (those xs)"

fun tree_of :: "fmt_float \<Rightarrow> gval \<Rightarrow> json option" where
  "tree_of ff GNil = Some JNull"
| "tree_of ff (GBool b) = Some (JBool b)"
| "tree_of ff (GFloat w) = map_option JNum (ff w)"
| "tree_of ff (GInt i) = Some (JNum (itoa_int i))"
| "tree_of ff (GStr s) = Some (JStr s)"
| "tree_of ff (GArr xs) = map_option JArr (those (map (tree_of ff) xs))"
| "tree_of ff (GSlice t xs) = map_option JArr (those (map (tree_of ff) xs))"
| "tree_of ff (GObj kvs) =
     map_option (\<lambda>ts. JObj (sort_key fst ts))
       (those (map (\<lambda>(k, v). map_option (Pair k) (tree_of ff v)) kvs))"
| "tree_of ff (GStruct t kvs) =
     map_option JObj (those (map (\<lambda>(k, v). map_option (Pair k) (tree_of ff v)) kvs))"
| "tree_of ff (GOther t) = None"

text \<open>Decoding into \<open>any\<close>: an out-of-range number leaves nil behind, and an error.\<close>

fun any_of :: "parse_float \<Rightarrow> json \<Rightarrow> gval" where
  "any_of pf JNull = GNil"
| "any_of pf (JBool b) = GBool b"
| "any_of pf (JNum s) = (case pf s of Some w \<Rightarrow> GFloat w | None \<Rightarrow> GNil)"
| "any_of pf (JStr s) = GStr s"
| "any_of pf (JArr xs) = GArr (map (any_of pf) xs)"
| "any_of pf (JObj kvs) =
     GObj (foldl (\<lambda>m (k, v). AList.update k v m) [] (map (\<lambda>(k, v). (k, any_of pf v)) kvs))"

fun in_range :: "parse_float \<Rightarrow> json \<Rightarrow> bool" where
  "in_range pf (JNum s) = (pf s \<noteq> None)"
| "in_range pf (JArr xs) = list_all (in_range pf) xs"
| "in_range pf (JObj kvs) = list_all (\<lambda>(k, v). in_range pf v) kvs"
| "in_range pf _ = True"

definition json_marshal :: "fmt_float \<Rightarrow> gval \<Rightarrow> string option" where
  "json_marshal ff v = map_option (print_json False 0) (tree_of ff v)"

definition json_marshal_indent :: "fmt_float \<Rightarrow> gval \<Rightarrow> string option" where
  "json_marshal_indent ff v = map_option (print_json True 0) (tree_of ff v)"

text \<open>\<open>Unmarshal\<close> into an empty \<open>any\<close>; none is any error.\<close>

definition json_unmarshal :: "parse_float \<Rightarrow> string \<Rightarrow> gval option" where
  "json_unmarshal pf s =
     (case parse_json s of
        Some t \<Rightarrow> if in_range pf t then Some (any_of pf t) else None
      | None \<Rightarrow> None)"

text \<open>
  \<open>Unmarshal\<close> into a nil \<open>map[string]any\<close>: what the map holds afterwards. Only a
  syntax error or a text that is no object leaves it nil; a number out of range does not.
\<close>

definition unmarshal_args :: "parse_float \<Rightarrow> string \<Rightarrow> args option" where
  "unmarshal_args pf s =
     (case parse_json s of
        Some t \<Rightarrow> as_object (any_of pf t)
      | None \<Rightarrow> None)"

end
