(* ===== verification/Hitl.thy ===== *)
theory Hitl
  imports Json
begin

text \<open>
  Human in the loop (\<open>agent/hitl.go\<close>, \<open>agent/hitl_http.go\<close>): which tools need
  an approval, the console approver, the HTTP approver, and the audit entry the run
  writes about each approval (\<open>agent/hitl_audit.go\<close>).
\<close>

section \<open>Types\<close>

type_synonym InterruptConfig = "(string \<times> bool) list"

record approvalMetadata =
  am_thread :: string
  am_request :: string
  am_call :: string
  am_iteration :: int

text \<open>What an approver returns: its decision, and the text of its error if it has one.\<close>

type_synonym approval = "string \<times> string option"

text \<open>Instants are nanoseconds since the zero time, so \<open>IsZero\<close> is 0.\<close>

record HITLAuditEntry =
  ha_timestamp :: int
  ha_event :: string
  ha_tool :: string
  ha_call_id :: string
  ha_thread :: string
  ha_request :: string
  ha_iteration :: int
  ha_arguments :: gval
  ha_args_hash :: string
  ha_decision :: string
  ha_approved :: bool
  ha_error :: string
  ha_prev_hash :: string
  ha_hash :: string

definition blank_entry :: HITLAuditEntry where
  "blank_entry = \<lparr>ha_timestamp = 0, ha_event = '''', ha_tool = '''', ha_call_id = '''',
     ha_thread = '''', ha_request = '''', ha_iteration = 0, ha_arguments = GNil,
     ha_args_hash = '''', ha_decision = '''', ha_approved = False, ha_error = '''',
     ha_prev_hash = '''', ha_hash = ''''\<rparr>"

section \<open>Which tools need approval\<close>

text \<open>A nil config becomes the empty map; a missing entry reads as false.\<close>

definition NewHumanInTheLoop_config :: "InterruptConfig option \<Rightarrow> InterruptConfig" where
  "NewHumanInTheLoop_config c = (case c of None \<Rightarrow> [] | Some m \<Rightarrow> m)"

definition ShouldInterrupt :: "InterruptConfig \<Rightarrow> string \<Rightarrow> bool" where
  "ShouldInterrupt cfg tool = (case map_of cfg tool of Some b \<Rightarrow> b | None \<Rightarrow> False)"

section \<open>The console approver\<close>

text \<open>Either the context ends first, with its error, or a response was read.\<close>

datatype console_input = CtxDone string | Response string

definition consoleApprover :: "(string \<Rightarrow> string) \<Rightarrow> console_input \<Rightarrow> approval" where
  "consoleApprover ul inp =
     (case inp of
        CtxDone err \<Rightarrow> (''cancelled'', Some err)
      | Response line \<Rightarrow>
          let response = to_lower ul (trim_space line)
          in if response = ''y'' \<or> response = ''yes'' then (''approved'', None)
             else if response = ''modify'' then (''modify'', Some ''modify is not implemented yet'')
             else (''rejected'', Some ''user rejected tool call''))"

section \<open>The HTTP approver\<close>

record HTTPApproverConfig =
  hc_url :: string
  hc_api_key :: string
  hc_timeout :: int
  hc_headers :: "(string \<times> string) list"
  hc_client :: "int option"  \<comment> \<open>the timeout of a client given by the caller\<close>

record http_request =
  rq_url :: string
  rq_body :: string
  rq_headers :: "(string \<times> string) list"
  rq_timeout :: int

datatype http_result =
    TransportError string
  | HttpResponse nat string string  \<comment> \<open>status code, status text, body\<close>

definition ten_seconds :: int where
  "ten_seconds = 10 * 1000000000"

definition approver_timeout :: "HTTPApproverConfig \<Rightarrow> int" where
  "approver_timeout cfg =
     (case hc_client cfg of
        Some t \<Rightarrow> t
      | None \<Rightarrow> if hc_timeout cfg \<le> 0 then ten_seconds else hc_timeout cfg)"

text \<open>
  The body: the struct \<open>hitlApprovalRequest\<close>. In a run the arguments are the JSON
  text the model sent, so they are a string here.
\<close>

definition opt_str :: "string \<Rightarrow> string \<Rightarrow> (string \<times> gval) list" where
  "opt_str k s = (if s = '''' then [] else [(k, GStr s)])"

definition opt_int :: "string \<Rightarrow> int \<Rightarrow> (string \<times> gval) list" where
  "opt_int k i = (if i = 0 then [] else [(k, GInt i)])"

definition approval_request :: "approvalMetadata \<Rightarrow> string \<Rightarrow> string \<Rightarrow> gval" where
  "approval_request meta tool args =
     GStruct ''agent.hitlApprovalRequest''
       ([(''tool'', GStr tool), (''args'', GStr args)] @ opt_str ''thread_id'' (am_thread meta)
        @ opt_str ''request_id'' (am_request meta) @ opt_str ''tool_call_id'' (am_call meta)
        @ opt_int ''iteration'' (am_iteration meta))"

text \<open>The calls \<open>Header.Set\<close>, in order: a later one replaces an earlier one of its name.\<close>

definition approver_headers :: "HTTPApproverConfig \<Rightarrow> (string \<times> string) list" where
  "approver_headers cfg =
     [(''Content-Type'', ''application/json'')]
     @ (if trim_space (hc_api_key cfg) \<noteq> ''''
        then [(''Authorization'', ''Bearer '' @ trim_space (hc_api_key cfg))] else [])
     @ filter (\<lambda>(k, v). trim_space k \<noteq> '''') (hc_headers cfg)"

text \<open>
  Decoding into \<open>hitlApprovalResponse\<close>: a key matches a field by its exact name or
  under case folding; null leaves a field alone; a value of another type is an error. The
  decoder reads the first value of the body only.
\<close>

definition key_matches :: "(string \<Rightarrow> string) \<Rightarrow> string \<Rightarrow> string \<Rightarrow> bool" where
  "key_matches ul name key = (key = name \<or> to_lower ul key = name)"

fun decode_response :: "(string \<Rightarrow> string) \<Rightarrow> string \<times> string \<Rightarrow> (string \<times> json) list \<Rightarrow> (string \<times> string) option" where
  "decode_response ul (d, r) [] = Some (d, r)"
| "decode_response ul (d, r) ((k, v) # kvs) =
     (if key_matches ul ''decision'' k then
        (case v of JStr s \<Rightarrow> decode_response ul (s, r) kvs | JNull \<Rightarrow> decode_response ul (d, r) kvs | _ \<Rightarrow> None)
      else if key_matches ul ''reason'' k then
        (case v of JStr s \<Rightarrow> decode_response ul (d, s) kvs | JNull \<Rightarrow> decode_response ul (d, r) kvs | _ \<Rightarrow> None)
      else decode_response ul (d, r) kvs)"

definition response_of_body :: "(string \<Rightarrow> string) \<Rightarrow> string \<Rightarrow> (string \<times> string) option" where
  "response_of_body ul body =
     (case pval (2 * length body + 2) body of
        Some (JObj kvs, _) \<Rightarrow> decode_response ul ('''', '''') kvs
      | Some (JNull, _) \<Rightarrow> Some ('''', '''')
      | _ \<Rightarrow> None)"

text \<open>
  \<open>q\<close> is \<open>strconv.Quote\<close>; \<open>dtext\<close> gives the text of the decoder's error on
  a body it refuses.
\<close>
definition decide :: "(string \<Rightarrow> string) \<Rightarrow> (string \<Rightarrow> string) \<Rightarrow> string \<times> string \<Rightarrow> approval" where
  "decide ul q out =
     (let decision = to_lower ul (trim_space (fst out)); msg = trim_space (snd out) in
      if decision \<in> {''approved'', ''approve'', ''ok'', ''yes'', ''y''} then (''approved'', None)
      else if decision = ''modify'' then
        (''modify'', Some (if msg = '''' then ''modify is not implemented yet'' else msg))
      else if decision \<in> {''rejected'', ''reject'', ''no'', ''n''} then
        (''rejected'', Some (if msg = '''' then ''tool call rejected by hitl approver'' else msg))
      else (''rejected'', Some (''unknown hitl decision: '' @ q (fst out))))"

definition handle_response ::
  "(string \<Rightarrow> string) \<Rightarrow> (string \<Rightarrow> string) \<Rightarrow> (string \<Rightarrow> string) \<Rightarrow> http_result \<Rightarrow> approval" where
  "handle_response ul q dtext res =
     (case res of
        TransportError e \<Rightarrow> (''rejected'', Some (''hitl approver request failed: '' @ e))
      | HttpResponse code status body \<Rightarrow>
          if code < 200 \<or> 300 \<le> code
          then (''rejected'', Some (''hitl approver returned non-success status: '' @ status))
          else (case response_of_body ul body of
             None \<Rightarrow> (''rejected'', Some (''invalid hitl approver response: '' @ dtext body))
           | Some out \<Rightarrow> decide ul q out))"

text \<open>
  \<open>NewHTTPApprover\<close>: an error for a blank URL, else the approver function. \<open>url_err\<close>
  is the error of \<open>http.NewRequest\<close> on the URL, if any; \<open>send\<close> is \<open>client.Do\<close>.
  The marshal error cannot happen for a request of strings and numbers.
\<close>

definition NewHTTPApprover ::
  "(string \<Rightarrow> string) \<Rightarrow> (string \<Rightarrow> string) \<Rightarrow> (string \<Rightarrow> string) \<Rightarrow>
   (string \<Rightarrow> string option) \<Rightarrow> fmt_float \<Rightarrow>
   (http_request \<Rightarrow> 'w \<Rightarrow> http_result \<times> 'w) \<Rightarrow> HTTPApproverConfig \<Rightarrow>
   (approvalMetadata \<Rightarrow> string \<Rightarrow> string \<Rightarrow> 'w \<Rightarrow> approval \<times> 'w) res" where
  "NewHTTPApprover ul q dtext url_err ff send cfg =
     (let url = trim_space (hc_url cfg) in
      if url = '''' then Inl (ErrMsg ''hitl approver url is required'' [])
      else Inr (\<lambda>meta tool args w.
        (case json_marshal ff (approval_request meta tool args) of
           None \<Rightarrow> ((''rejected'', Some ''failed to marshal hitl approval request''), w)
         | Some body \<Rightarrow>
             (case url_err url of
                Some e \<Rightarrow> ((''rejected'', Some (''failed to create hitl approval request: '' @ e)), w)
              | None \<Rightarrow>
                  (case send \<lparr>rq_url = url, rq_body = body, rq_headers = approver_headers cfg,
                              rq_timeout = approver_timeout cfg\<rparr> w of
                     (res, w1) \<Rightarrow> (handle_response ul q dtext res, w1))))))"

section \<open>Lemmas\<close>

text \<open>
  The contract of an approver: no error means approved. The run looks at the error only,
  so this is what makes a rejection effective.
\<close>

definition fail_closed :: "(approvalMetadata \<Rightarrow> string \<Rightarrow> string \<Rightarrow> 'w \<Rightarrow> approval \<times> 'w) \<Rightarrow> bool" where
  "fail_closed a \<longleftrightarrow> (\<forall>m t x w. snd (fst (a m t x w)) = None \<longrightarrow> fst (fst (a m t x w)) = ''approved'')"

lemma decide_approved:
  "snd (decide ul q out) = None \<longleftrightarrow>
     to_lower ul (trim_space (fst out)) \<in> {''approved'', ''approve'', ''ok'', ''yes'', ''y''}"
proof -
  let ?W = "{''approved'', ''approve'', ''ok'', ''yes'', ''y''}"
  have "to_lower ul (trim_space (fst out)) \<in> ?W \<Longrightarrow> ?thesis" by (simp add: decide_def Let_def)
  moreover have "to_lower ul (trim_space (fst out)) \<notin> ?W \<Longrightarrow> ?thesis" by (simp add: decide_def Let_def)
  ultimately show ?thesis by blast
qed

lemma decide_fail_closed: "snd (decide ul q out) = None \<Longrightarrow> fst (decide ul q out) = ''approved''"
  by (auto simp: decide_def Let_def split: if_splits)

lemma handle_response_approved:
  assumes "snd (handle_response ul q dtext res) = None"
  shows "\<exists>code status body out. res = HttpResponse code status body \<and> 200 \<le> code \<and> code < 300 \<and>
    response_of_body ul body = Some out \<and> handle_response ul q dtext res = decide ul q out"
proof (cases res)
  case (TransportError e)
  with assms show ?thesis by (simp add: handle_response_def)
next
  case (HttpResponse code status body)
  with assms show ?thesis
    by (cases "response_of_body ul body") (auto simp: handle_response_def split: if_splits)
qed

end
