(* ===== verification/Tool_Schema.thy ===== *)
theory Tool_Schema
  imports Go_Values
begin

text \<open>
  \<open>llms/schema.go\<close>: the JSON schema of a tool's parameters, from a schema given as a
  map or by reflection on a Go struct type; and \<open>ValidateAgainstSchema\<close> of
  \<open>tools/validation.go\<close>, the check every tool call passes before the tool runs.
\<close>

section \<open>Types seen by reflection\<close>

text \<open>A field of a struct type: its name, its \<open>json\<close> tag, its \<open>required\<close> tag, its type.\<close>

datatype go_type =
    TString
  | TNumeric
  | TBool
  | TSlice go_type
  | TStruct "(string \<times> string \<times> string \<times> go_type) list"
  | TPtr go_type
  | TOther

text \<open>The \<open>Parameters\<close> of a tool: nil, a map, a value of a Go type, a nil pointer.\<close>

datatype params = PNil | PMap args | PVal go_type | PNilPtr

section \<open>Schema generation\<close>

text \<open>
  One struct field with the schema of its type: it goes into \<open>properties\<close> under its
  \<open>json\<close> tag unless the tag is empty or \<open>-\<close>.
\<close>

definition add_field :: "args \<times> string list \<Rightarrow> string \<times> string \<times> string \<times> gval \<Rightarrow> args \<times> string list" where
  "add_field acc f =
     (case (acc, f) of ((props, req), (name, jsonTag, reqTag, sch)) \<Rightarrow>
        if jsonTag = ''-'' \<or> jsonTag = '''' then (props, req)
        else (AList.update jsonTag sch props, if reqTag = ''true'' then req @ [jsonTag] else req))"

definition object_schema :: "args \<times> string list \<Rightarrow> args" where
  "object_schema acc =
     (case acc of (props, req) \<Rightarrow>
        [(''type'', GStr ''object''), (''properties'', GObj props)]
        @ (if req = [] then [] else [(''required'', strings req)]))"

fun GeneratePropertySchema :: "go_type \<Rightarrow> gval" where
  "GeneratePropertySchema TString = GObj [(''type'', GStr ''string'')]"
| "GeneratePropertySchema TNumeric = GObj [(''type'', GStr ''number'')]"
| "GeneratePropertySchema TBool = GObj [(''type'', GStr ''boolean'')]"
| "GeneratePropertySchema (TSlice t) =
     GObj [(''type'', GStr ''array''), (''items'', GeneratePropertySchema t)]"
| "GeneratePropertySchema (TStruct fs) =
     GObj (object_schema (foldl add_field ([], [])
       (map (\<lambda>(n, j, r, t). (n, j, r, GeneratePropertySchema t)) fs)))"
| "GeneratePropertySchema (TPtr t) = GeneratePropertySchema t"
| "GeneratePropertySchema TOther = GObj [(''type'', GStr ''object'')]"

definition generateStructSchema :: "(string \<times> string \<times> string \<times> go_type) list \<Rightarrow> args" where
  "generateStructSchema fs =
     object_schema (foldl add_field ([], [])
       (map (\<lambda>(n, j, r, t). (n, j, r, GeneratePropertySchema t)) fs))"

definition empty_schema :: args where
  "empty_schema = [(''type'', GStr ''object''), (''properties'', GObj [])]"

definition GenerateParametersSchema :: "params \<Rightarrow> args" where
  "GenerateParametersSchema ps =
     (case ps of
        PNil \<Rightarrow> empty_schema
      | PMap m \<Rightarrow> m
      | PNilPtr \<Rightarrow> empty_schema
      | PVal t \<Rightarrow>
          (case (case t of TPtr u \<Rightarrow> u | _ \<Rightarrow> t) of
             TStruct fs \<Rightarrow> generateStructSchema fs
           | _ \<Rightarrow> empty_schema))"

section \<open>\<open>ValidateAgainstSchema\<close>\<close>

text \<open>
  The names of \<open>required\<close>: only a \<open>[]any\<close> is read, and in it only strings. They
  are collected in a map, so each is checked once.
\<close>

definition required_names :: "args \<Rightarrow> string list" where
  "required_names schema =
     (case Option.bind (map_of schema ''required'') as_array of
        Some rs \<Rightarrow> remdups (List.map_filter as_string rs)
      | None \<Rightarrow> [])"

definition missing :: "args option \<Rightarrow> string \<Rightarrow> gerr option" where
  "missing as r =
     (case as of
        None \<Rightarrow> Some (ErrMsg ''missing required parameter: %s'' [r])
      | Some m \<Rightarrow> if map_of m r = None then Some (ErrMsg ''missing required parameter: %s'' [r]) else None)"

definition type_ok :: "string \<Rightarrow> gval \<Rightarrow> bool" where
  "type_ok ty v =
     (if ty = ''string'' then as_string v \<noteq> None
      else if ty = ''number'' then is_number v
      else if ty = ''boolean'' then as_bool v \<noteq> None
      else if ty = ''array'' then as_array v \<noteq> None
      else if ty = ''object'' then as_object v \<noteq> None
      else True)"

definition type_error :: "string \<Rightarrow> string \<Rightarrow> gerr" where
  "type_error ty key =
     ErrMsg (if ty = ''string'' then ''parameter %s must be a string''
             else if ty = ''number'' then ''parameter %s must be a number''
             else if ty = ''boolean'' then ''parameter %s must be a boolean''
             else if ty = ''array'' then ''parameter %s must be an array''
             else ''parameter %s must be an object'') [key]"

definition ill_typed :: "args option \<Rightarrow> string \<times> gval \<Rightarrow> gerr option" where
  "ill_typed as kv =
     (case as_object (snd kv) of
        None \<Rightarrow> None
      | Some propSchema \<Rightarrow>
          (case as of
             None \<Rightarrow> None
           | Some m \<Rightarrow>
               (case map_of m (fst kv) of
                  None \<Rightarrow> None
                | Some v \<Rightarrow>
                    let ty = (case arg_string propSchema ''type'' of Some t \<Rightarrow> t | None \<Rightarrow> '''')
                    in if type_ok ty v then None else Some (type_error ty (fst kv)))))"

fun first_error :: "('a \<Rightarrow> gerr option) \<Rightarrow> 'a list \<Rightarrow> gerr option" where
  "first_error f [] = None"
| "first_error f (x # xs) = (case f x of Some e \<Rightarrow> Some e | None \<Rightarrow> first_error f xs)"

text \<open>
  The Go code ranges over two maps, in an order of the runtime's choosing; here it is the
  order of the lists. \<open>ValidateAgainstSchema_iff\<close> shows that whether a call passes does
  not depend on it.
\<close>

definition ValidateAgainstSchema :: "args option \<Rightarrow> args option \<Rightarrow> gerr option" where
  "ValidateAgainstSchema schema as =
     (case schema of
        None \<Rightarrow> None
      | Some sch \<Rightarrow>
          if arg_string sch ''type'' \<noteq> Some ''object'' then None
          else (case first_error (missing as) (required_names sch) of
             Some e \<Rightarrow> Some e
           | None \<Rightarrow>
               (case Option.bind (map_of sch ''properties'') as_object of
                  None \<Rightarrow> None
                | Some props \<Rightarrow> first_error (ill_typed as) props)))"

section \<open>Lemmas\<close>

lemma first_error_None: "first_error f xs = None \<longleftrightarrow> (\<forall>x \<in> set xs. f x = None)"
  by (induction xs) (auto split: option.splits)

lemma first_error_Some: "first_error f xs = Some e \<Longrightarrow> \<exists>x \<in> set xs. f x = Some e"
  by (induction xs) (auto split: option.splits)

definition lookup_arg :: "args option \<Rightarrow> string \<Rightarrow> gval option" where
  "lookup_arg as k = Option.bind as (\<lambda>m. map_of m k)"

lemma missing_None: "missing as r = None \<longleftrightarrow> lookup_arg as r \<noteq> None"
  by (auto simp: missing_def lookup_arg_def split: option.splits)

lemma ill_typed_None:
  "ill_typed as (k, v) = None \<longleftrightarrow>
     (\<forall>ps ty x. v = GObj ps \<longrightarrow> map_of ps ''type'' = Some (GStr ty) \<longrightarrow> lookup_arg as k = Some x \<longrightarrow> type_ok ty x)"
proof (cases v)
  case (GObj ps)
  have e: "type_ok '''' x" for x by (simp add: type_ok_def)
  show ?thesis
    by (cases "arg_string ps ''type''")
      (auto simp: GObj ill_typed_def lookup_arg_def arg_string_iff Let_def e
        simp del: not_None_eq split: option.splits dest: arg_string_iff [THEN iffD2])
qed (simp_all add: ill_typed_def)

lemma required_names_set:
  "set (required_names sch) = {r. \<exists>rs. map_of sch ''required'' = Some (GArr rs) \<and> GStr r \<in> set rs}"
proof (cases "map_of sch ''required''")
  case (Some v)
  have "set (List.map_filter as_string rs) = {r. GStr r \<in> set rs}" for rs
    by (induction rs) (auto simp: List.map_filter_def as_string_iff image_iff)
  then show ?thesis using Some by (cases v) (simp_all add: required_names_def)
qed (simp add: required_names_def)

end
