(* ===== verification/Tools.thy ===== *)
theory Tools
  imports Tool_Schema
begin

text \<open>
  Package \<open>tools\<close>: the interface \<open>Tool\<close> with its implementations
  \<open>FuncTool\<close>, \<open>TimeoutTool\<close> and \<open>WrappedTool\<close> (\<open>tools/tool.go\<close>,
  \<open>tools/validation.go\<close>), the validators, and what they share with
  \<open>ValidateAgainstSchema\<close>.

  A tool acts on a world \<open>'w\<close>; its call returns a value or the text of its error.
\<close>

section \<open>Tools\<close>

record 'w tool =
  t_name :: string
  t_description :: string
  t_parameters :: params
  t_call :: "args option \<Rightarrow> 'w \<Rightarrow> (string + gval) \<times> 'w"

definition NewToolWithParameters ::
  "string \<Rightarrow> string \<Rightarrow> params \<Rightarrow> (args option \<Rightarrow> 'w \<Rightarrow> (string + gval) \<times> 'w) \<Rightarrow> 'w tool" where
  "NewToolWithParameters name desc parameters fn =
     \<lparr>t_name = name, t_description = desc, t_parameters = parameters, t_call = fn\<rparr>"

definition NewTool :: "string \<Rightarrow> string \<Rightarrow> (args option \<Rightarrow> 'w \<Rightarrow> (string + gval) \<times> 'w) \<Rightarrow> 'w tool" where
  "NewTool name desc fn = NewToolWithParameters name desc PNil fn"

text \<open>Reading a nil map is reading an empty one.\<close>

definition args_of :: "args option \<Rightarrow> args" where
  "args_of as = (case as of None \<Rightarrow> [] | Some m \<Rightarrow> m)"

text \<open>
  \<open>TimeoutTool\<close>: the call runs in a goroutine of its own. \<open>expired w\<close> tells
  whether, on the world \<open>w\<close>, the deadline wins the \<open>select\<close>; the call then still
  runs to its end, but its result is dropped. \<open>dur\<close> prints a duration.
\<close>

definition timeout_call ::
  "(int \<Rightarrow> string) \<Rightarrow> ('w \<Rightarrow> bool) \<Rightarrow> 'w tool \<Rightarrow> int \<Rightarrow> args option \<Rightarrow> 'w \<Rightarrow> (string + gval) \<times> 'w" where
  "timeout_call dur expired t timeout as w =
     (if timeout \<le> 0 then t_call t as w
      else case t_call t as w of
        (res, w1) \<Rightarrow>
          if expired w
          then (Inl (''tool '' @ t_name t @ '' timeout after '' @ dur timeout), w1)
          else (res, w1))"

definition WithTimeout :: "(int \<Rightarrow> string) \<Rightarrow> ('w \<Rightarrow> bool) \<Rightarrow> 'w tool \<Rightarrow> int \<Rightarrow> 'w tool" where
  "WithTimeout dur expired t timeout = t\<lparr>t_call := timeout_call dur expired t timeout\<rparr>"

section \<open>Validators\<close>

text \<open>A validator returns nil, returns an error, or panics.\<close>

datatype verdict = Passes | Fails gerr | Panics string

type_synonym validator = "args option \<Rightarrow> verdict"

fun require_keys :: "string list \<Rightarrow> args \<Rightarrow> verdict" where
  "require_keys [] m = Passes"
| "require_keys (key # keys) m =
     (if map_of m key = None \<or> map_of m key = Some (GStr '''')
      then Fails (ErrMsg ''missing required parameter: %s'' [key])
      else require_keys keys m)"

definition ValidateRequired :: "string list \<Rightarrow> validator" where
  "ValidateRequired keys as = require_keys keys (args_of as)"

text \<open>
  The \<open>array\<close> case calls \<open>reflect.TypeOf(val).Kind()\<close> before it reports its error;
  on nil, \<open>TypeOf\<close> is a nil interface and the call panics.
\<close>

definition ValidateType :: "string \<Rightarrow> string \<Rightarrow> validator" where
  "ValidateType key expectedType as =
     (case map_of (args_of as) key of
        None \<Rightarrow> Passes
      | Some val \<Rightarrow>
          if expectedType = ''string'' then
            (if as_string val \<noteq> None then Passes
             else Fails (ErrMsg ''parameter %s must be a string, got %T'' [key, type_name val]))
          else if expectedType = ''number'' then
            (if is_number val then Passes
             else Fails (ErrMsg ''parameter %s must be a number, got %T'' [key, type_name val]))
          else if expectedType = ''boolean'' then
            (if as_bool val \<noteq> None then Passes
             else Fails (ErrMsg ''parameter %s must be a boolean, got %T'' [key, type_name val]))
          else if expectedType = ''array'' then
            (if as_array val \<noteq> None then Passes
             else if val = GNil then Panics ''invalid memory address or nil pointer dereference''
             else Fails (ErrMsg ''parameter %s must be an array, got %T'' [key, type_name val]))
          else if expectedType = ''object'' then
            (if as_object val \<noteq> None then Passes
             else Fails (ErrMsg ''parameter %s must be an object, got %T'' [key, type_name val]))
          else Fails (ErrMsg ''unknown type: %s'' [expectedType]))"

definition ValidateLength :: "string \<Rightarrow> int \<Rightarrow> int \<Rightarrow> validator" where
  "ValidateLength key minLen maxLen as =
     (case map_of (args_of as) key of
        None \<Rightarrow> Passes
      | Some val \<Rightarrow>
          (case as_string val of
             None \<Rightarrow> Fails (ErrMsg ''parameter %s must be a string'' [key])
           | Some s \<Rightarrow>
               let n = int (length s) in
               if n < minLen
               then Fails (ErrMsg ''parameter %s is too short (min %d, got %d)'' [key, itoa_int minLen, itoa_int n])
               else if maxLen > 0 \<and> n > maxLen
               then Fails (ErrMsg ''parameter %s is too long (max %d, got %d)'' [key, itoa_int maxLen, itoa_int n])
               else Passes))"

text \<open>\<open>sprint\<close> is \<open>fmt.Sprintf("%v", _)\<close>; values are compared as printed.\<close>

definition ValidateEnum :: "(gval \<Rightarrow> string) \<Rightarrow> string \<Rightarrow> gval list \<Rightarrow> validator" where
  "ValidateEnum sprint key allowed as =
     (case map_of (args_of as) key of
        None \<Rightarrow> Passes
      | Some val \<Rightarrow>
          if sprint val \<in> set (map sprint allowed) then Passes
          else Fails (ErrMsg ''parameter %s has invalid value %v (allowed: %v)''
                 [key, sprint val, sprint (GArr allowed)]))"

fun ChainValidators :: "validator list \<Rightarrow> validator" where
  "ChainValidators [] as = Passes"
| "ChainValidators (v # vs) as = (case v as of Passes \<Rightarrow> ChainValidators vs as | r \<Rightarrow> r)"

text \<open>\<open>WrappedTool.Call\<close>: \<open>None\<close> is a panic, which the tool does not recover.\<close>

definition wrapped_call ::
  "(string \<Rightarrow> string) \<Rightarrow> validator option \<Rightarrow> 'w tool \<Rightarrow> args option \<Rightarrow> 'w \<Rightarrow> ((string + gval) \<times> 'w) option" where
  "wrapped_call q validators t as w =
     (case validators of
        None \<Rightarrow> Some (t_call t as w)
      | Some v \<Rightarrow>
          (case v as of
             Passes \<Rightarrow> Some (t_call t as w)
           | Fails e \<Rightarrow> Some (Inl (err_text q e), w)
           | Panics _ \<Rightarrow> None))"

text \<open>\<open>ValidateAgainstJSONSchema\<close> of the default build.\<close>

definition ValidateAgainstJSONSchema :: "args option \<Rightarrow> args option \<Rightarrow> gerr option" where
  "ValidateAgainstJSONSchema schema as = ValidateAgainstSchema schema as"

section \<open>Lemmas\<close>

lemma chain_append:
  "ChainValidators (vs @ us) as =
     (case ChainValidators vs as of Passes \<Rightarrow> ChainValidators us as | r \<Rightarrow> r)"
  by (induction vs) (auto split: verdict.split)

lemma chain_passes: "ChainValidators vs as = Passes \<longleftrightarrow> (\<forall>v \<in> set vs. v as = Passes)"
  by (induction vs) (auto split: verdict.split)

lemma required_passes:
  "ValidateRequired keys as = Passes \<longleftrightarrow>
     (\<forall>k \<in> set keys. map_of (args_of as) k \<noteq> None \<and> map_of (args_of as) k \<noteq> Some (GStr ''''))"
  unfolding ValidateRequired_def by (induction keys) auto

definition known_type :: "string \<Rightarrow> bool" where
  "known_type ty = (ty \<in> {''string'', ''number'', ''boolean'', ''array'', ''object''})"

lemma type_passes:
  "known_type ty \<Longrightarrow>
   ValidateType key ty as = Passes \<longleftrightarrow>
     (case map_of (args_of as) key of None \<Rightarrow> True | Some v \<Rightarrow> type_ok ty v)"
  by (auto simp: known_type_def ValidateType_def type_ok_def split: option.split)

lemma lookup_args_of: "lookup_arg as k = map_of (args_of as) k"
  by (cases as) (simp_all add: lookup_arg_def args_of_def)

text \<open>A schema that lists the required keys and the types of some parameters.\<close>

definition flat_schema :: "string list \<Rightarrow> (string \<times> string) list \<Rightarrow> args" where
  "flat_schema req tys =
     [(''type'', GStr ''object''), (''required'', GArr (map GStr req)),
      (''properties'', GObj (map (\<lambda>(k, ty). (k, GObj [(''type'', GStr ty)])) tys))]"

lemma ValidateAgainstSchema_None:
  "ValidateAgainstSchema (Some sch) as = None \<longleftrightarrow>
     (map_of sch ''type'' = Some (GStr ''object'') \<longrightarrow>
        (\<forall>r rs. map_of sch ''required'' = Some (GArr rs) \<longrightarrow> GStr r \<in> set rs \<longrightarrow> lookup_arg as r \<noteq> None) \<and>
        (\<forall>props k ps ty v. map_of sch ''properties'' = Some (GObj props) \<longrightarrow> (k, GObj ps) \<in> set props \<longrightarrow>
           map_of ps ''type'' = Some (GStr ty) \<longrightarrow> lookup_arg as k = Some v \<longrightarrow> type_ok ty v))"
proof (cases "map_of sch ''type'' = Some (GStr ''object'')")
  case False
  then show ?thesis by (auto simp: ValidateAgainstSchema_def arg_string_iff)
next
  case True
  have obj: "as_object v = Some m \<longleftrightarrow> v = GObj m" for v m by (cases v) auto
  have req: "first_error (missing as) (required_names sch) = None \<longleftrightarrow>
      (\<forall>r rs. map_of sch ''required'' = Some (GArr rs) \<longrightarrow> GStr r \<in> set rs \<longrightarrow> lookup_arg as r \<noteq> None)"
    unfolding first_error_None missing_None required_names_set by blast
  have props: "first_error (ill_typed as) props = None \<longleftrightarrow>
      (\<forall>k ps ty v. (k, GObj ps) \<in> set props \<longrightarrow> map_of ps ''type'' = Some (GStr ty) \<longrightarrow>
         lookup_arg as k = Some v \<longrightarrow> type_ok ty v)" for props
    unfolding first_error_None by (auto simp: ill_typed_None)
  show ?thesis
  proof (cases "Option.bind (map_of sch ''properties'') as_object")
    case None
    then have "map_of sch ''properties'' \<noteq> Some (GObj ps)" for ps by auto
    with True None req show ?thesis
      by (auto simp: ValidateAgainstSchema_def arg_string_iff split: option.splits)
  next
    case (Some props')
    then have "map_of sch ''properties'' = Some (GObj props')" by (auto simp: bind_eq_Some_conv obj)
    with True Some req props [of props'] show ?thesis
      by (auto simp: ValidateAgainstSchema_def arg_string_iff split: option.splits)
  qed
qed

end
