(* ===== verification/Graph.thy ===== *)
theory Graph
  imports Hitl Tools
begin

text \<open>
  The executor of \<open>agent/graph.go\<close>: one run loads the thread's checkpoint, then
  alternates model calls and tool calls for at most 20 rounds, asking for approval where a
  tool is configured so, and saves a checkpoint after every round.

  The interfaces the graph holds (the model, the tools, the checkpointer, the memory store,
  the approver, the audit logger) are functions over a world \<open>'w\<close>, fields of the
  record \<open>graph\<close>. A run threads the world and records, in order, every call it makes
  on them in the trace; the lemmas speak of traces.
\<close>

section \<open>Types of \<open>agent/types.go\<close> and \<open>llms/llm.go\<close>\<close>

record Message =
  m_role :: string
  m_content :: string

record ToolCall =
  tc_id :: string
  tc_name :: string
  tc_arguments :: string

record llm_tool =
  lt_name :: string
  lt_description :: string
  lt_parameters :: params

record ToolResult =
  tr_tool :: string
  tr_call_id :: string
  tr_ok :: bool
  tr_data :: gval
  tr_error :: string
  tr_code :: string

record State =
  st_messages :: "Message list"
  st_tool_calls :: "gval list"
  st_thread :: string
  st_iteration :: int
  st_final :: string

record Input =
  in_messages :: "Message list"
  in_thread :: string

record Output =
  out_messages :: "Message list"
  out_final :: string
  out_thread :: string
  out_request :: string

text \<open>The cause of an error is kept as its text.\<close>

record AgentError =
  ae_code :: string
  ae_message :: string
  ae_thread :: string
  ae_request :: string
  ae_cause :: string

definition ErrCodeCheckpointLoad :: string where "ErrCodeCheckpointLoad = ''checkpoint_load_error''"
definition ErrCodeLLMInvoke :: string where "ErrCodeLLMInvoke = ''llm_invoke_error''"
definition ErrCodeMaxIterations :: string where "ErrCodeMaxIterations = ''max_iterations_reached''"
definition ToolCodeHITLRejected :: string where "ToolCodeHITLRejected = ''hitl_rejected''"
definition ToolCodeExecutionError :: string where "ToolCodeExecutionError = ''tool_execution_error''"
definition ToolCodeSerialization :: string where "ToolCodeSerialization = ''serialization_error''"

definition AgentError_Error :: "AgentError \<Rightarrow> string" where
  "AgentError_Error e =
     (if ae_request e \<noteq> ''''
      then ae_message e @ '' (code='' @ ae_code e @ '' thread='' @ ae_thread e
             @ '' request='' @ ae_request e @ '')''
      else ae_message e @ '' (code='' @ ae_code e @ '')'')"

definition AgentError_Payload :: "AgentError \<Rightarrow> args" where
  "AgentError_Payload e =
     [(''code'', GStr (ae_code e)), (''message'', GStr (ae_message e)),
      (''thread_id'', GStr (ae_thread e)), (''request_id'', GStr (ae_request e))]"

definition wrapRunError :: "string \<Rightarrow> string \<Rightarrow> string \<Rightarrow> string \<Rightarrow> string \<Rightarrow> AgentError" where
  "wrapRunError code message threadID requestID cause =
     \<lparr>ae_code = code, ae_message = message, ae_thread = threadID, ae_request = requestID,
      ae_cause = cause\<rparr>"

definition newRequestID :: "string \<Rightarrow> nat \<Rightarrow> string" where
  "newRequestID threadID nano =
     (if threadID \<noteq> '''' then threadID else ''run'') @ ''-'' @ itoa nano"

section \<open>Effects\<close>

text \<open>The events \<open>emit\<close> hands to the sink; durations and the model's type name are left out.\<close>

datatype event =
    EvModelCall int bool
  | EvMessage string int
  | EvToolCall string string int
  | EvHitlRequest string string int
  | EvHitlDecision string string string bool "string option" int
  | EvToolResult ToolResult
  | EvFinal Output
  | EvError args

record RunSummary =
  rs_thread :: string
  rs_request :: string
  rs_iterations :: int
  rs_model_calls :: nat
  rs_model_errors :: nat
  rs_tool_calls :: nat
  rs_tool_errors :: nat
  rs_error_rate :: "nat \<times> nat"  \<comment> \<open>the quotient \<open>toolErrors / toolCallCount\<close>, (0, 1) for 0.0\<close>
  rs_error :: string

datatype effect =
    Loaded string
  | Emitted event
  | ModelCalled nat nat "string option"
  | Approval approvalMetadata string string approval
  | Audited HITLAuditEntry
  | ToolRan string "args option" "string + gval"
  | ToolLogged string "args option" "string + gval"
  | MemoryPut string string gval
  | Saved string State "string option"   \<comment> \<open>with the error \<open>Save\<close> returned\<close>
  | Summary RunSummary

section \<open>The graph and a run\<close>

record 'w graph =
  g_llm :: "Message list \<Rightarrow> llm_tool list \<Rightarrow> 'w \<Rightarrow> (string + (string \<times> ToolCall list)) \<times> 'w"
  g_tools :: "(string \<times> 'w tool) list"
  g_prompt :: string
  g_load :: "string \<Rightarrow> 'w \<Rightarrow> (string + State option) \<times> 'w"
  g_save :: "string \<Rightarrow> State \<Rightarrow> 'w \<Rightarrow> string option \<times> 'w"
  g_put :: "string \<Rightarrow> string \<Rightarrow> gval \<Rightarrow> 'w \<Rightarrow> string option \<times> 'w"
  g_hitl :: InterruptConfig
  g_approver :: "approvalMetadata \<Rightarrow> string \<Rightarrow> string \<Rightarrow> 'w \<Rightarrow> approval \<times> 'w"
  g_audit :: "(HITLAuditEntry \<Rightarrow> 'w \<Rightarrow> string option \<times> 'w) option"
  g_include_args :: bool
  g_sink :: bool
  g_hash :: "string \<Rightarrow> string"          \<comment> \<open>hex of \<open>sha256.Sum256\<close>\<close>
  g_quote :: "string \<Rightarrow> string"         \<comment> \<open>\<open>strconv.Quote\<close>\<close>
  g_fmt :: fmt_float
  g_parse :: parse_float
  g_marshal_error :: "gval \<Rightarrow> string"   \<comment> \<open>the text of the encoder's error\<close>

text \<open>The variables of \<open>Run\<close> that its loop changes.\<close>

record 'w run =
  r_state :: State
  r_world :: 'w
  r_trace :: "effect list"
  r_model_calls :: nat
  r_model_errors :: nat
  r_tool_calls :: nat
  r_tool_errors :: nat
  r_iteration :: int

definition record_effect :: "effect \<Rightarrow> 'w run \<Rightarrow> 'w run" where
  "record_effect e r = r\<lparr>r_trace := r_trace r @ [e]\<rparr>"

definition emit :: "'w graph \<Rightarrow> event \<Rightarrow> 'w run \<Rightarrow> 'w run" where
  "emit g ev r = (if g_sink g then record_effect (Emitted ev) r else r)"

definition add_message :: "string \<Rightarrow> string \<Rightarrow> 'w run \<Rightarrow> 'w run" where
  "add_message role content r =
     r\<lparr>r_state := (r_state r)\<lparr>st_messages := st_messages (r_state r) @ [\<lparr>m_role = role, m_content = content\<rparr>]\<rparr>\<rparr>"

definition logHITLAudit :: "'w graph \<Rightarrow> HITLAuditEntry \<Rightarrow> 'w run \<Rightarrow> 'w run" where
  "logHITLAudit g entry r =
     (case g_audit g of
        None \<Rightarrow> r
      | Some lg \<Rightarrow> record_effect (Audited entry) (r\<lparr>r_world := snd (lg entry (r_world r))\<rparr>))"

definition auditArgsPayload :: "'w graph \<Rightarrow> string \<Rightarrow> gval" where
  "auditArgsPayload g raw =
     (if \<not> g_include_args g then GNil
      else case json_unmarshal (g_parse g) raw of Some v \<Rightarrow> v | None \<Rightarrow> GStr raw)"

definition tool_result_value :: "ToolResult \<Rightarrow> gval" where
  "tool_result_value t =
     GStruct ''agent.ToolResult''
       ([(''tool'', GStr (tr_tool t))] @ opt_str ''tool_call_id'' (tr_call_id t)
        @ [(''ok'', GBool (tr_ok t))]
        @ (if tr_data t = GNil then [] else [(''data'', tr_data t)])
        @ opt_str ''error'' (tr_error t) @ opt_str ''code'' (tr_code t))"

text \<open>The fallback is not escaped, except that double quotes of the error become single.\<close>

definition formatToolMessage :: "'w graph \<Rightarrow> ToolResult \<Rightarrow> string" where
  "formatToolMessage g result =
     (case json_marshal (g_fmt g) (tool_result_value result) of
        Some payload \<Rightarrow> payload
      | None \<Rightarrow>
          let dq = CHR 0x22;
              err = map (\<lambda>c. if c = dq then CHR 0x27 else c) (g_marshal_error g (tool_result_value result))
          in ''{'' @ dq # ''tool'' @ dq # '':'' @ dq # tr_tool result @ dq # '','' @ dq # ''ok'' @ dq # '':false,''
             @ dq # ''error'' @ dq # '':'' @ dq # err @ dq # '','' @ dq # ''code'' @ dq # '':'' @ dq # ToolCodeSerialization
             @ dq # ''}'')"

definition convertToolsToLLMFormat :: "(string \<times> 'w tool) list \<Rightarrow> llm_tool list" where
  "convertToolsToLLMFormat tools =
     map (\<lambda>(n, t). \<lparr>lt_name = t_name t, lt_description = t_description t, lt_parameters = t_parameters t\<rparr>) tools"

text \<open>\<open>buildGraph\<close> registers the tools by name: of two with one name the later stays.\<close>

definition tool_map :: "'w tool list \<Rightarrow> (string \<times> 'w tool) list" where
  "tool_map ts = foldl (\<lambda>m t. AList.update (t_name t) t m) [] ts"

section \<open>The stages of a round\<close>

text \<open>The model call: the run after it, and the content and tool calls or the error text.\<close>

definition model_call :: "'w graph \<Rightarrow> 'w run \<Rightarrow> (string + (string \<times> ToolCall list)) \<times> 'w run" where
  "model_call g r =
     (let tools = convertToolsToLLMFormat (g_tools g) in
      case g_llm g (st_messages (r_state r)) tools (r_world r) of
        (res, w1) \<Rightarrow>
          let err = (case res of Inl e \<Rightarrow> Some e | Inr _ \<Rightarrow> None);
              r1 = r\<lparr>r_world := w1, r_model_calls := r_model_calls r + 1,
                     r_model_errors := (if err = None then r_model_errors r else r_model_errors r + 1)\<rparr>;
              r2 = record_effect (ModelCalled (length (st_messages (r_state r))) (length tools) err) r1
          in (res, emit g (EvModelCall (st_iteration (r_state r)) (err \<noteq> None)) r2))"

definition request_entry :: "'w graph \<Rightarrow> string \<Rightarrow> string \<Rightarrow> int \<Rightarrow> ToolCall \<Rightarrow> HITLAuditEntry" where
  "request_entry g tid rid it tc =
     blank_entry\<lparr>ha_event := ''hitl_request'', ha_tool := tc_name tc, ha_call_id := tc_id tc,
       ha_thread := tid, ha_request := rid, ha_iteration := it,
       ha_arguments := auditArgsPayload g (tc_arguments tc),
       ha_args_hash := g_hash g (tc_arguments tc)\<rparr>"

definition decision_entry :: "string \<Rightarrow> string \<Rightarrow> int \<Rightarrow> ToolCall \<Rightarrow> approval \<Rightarrow> HITLAuditEntry" where
  "decision_entry tid rid it tc a =
     blank_entry\<lparr>ha_event := ''hitl_decision'', ha_tool := tc_name tc, ha_call_id := tc_id tc,
       ha_thread := tid, ha_request := rid, ha_iteration := it, ha_decision := fst a,
       ha_approved := (snd a = None), ha_error := (case snd a of Some e \<Rightarrow> e | None \<Rightarrow> '''')\<rparr>"

text \<open>
  The approval of one tool call: whether the tool may run, and the run after it. A refusal
  counts as a tool error and answers the call with a tool message.
\<close>

definition ask_approval :: "'w graph \<Rightarrow> string \<Rightarrow> string \<Rightarrow> ToolCall \<Rightarrow> 'w run \<Rightarrow> bool \<times> 'w run" where
  "ask_approval g tid rid tc r =
     (let it = st_iteration (r_state r);
          r1 = emit g (EvHitlRequest (tc_name tc) (tc_id tc) it) r;
          r2 = logHITLAudit g (request_entry g tid rid it tc) r1;
          meta = \<lparr>am_thread = tid, am_request = rid, am_call = tc_id tc, am_iteration = it\<rparr>
      in case g_approver g meta (tc_name tc) (tc_arguments tc) (r_world r2) of
           (a, w1) \<Rightarrow>
             let r3 = record_effect (Approval meta (tc_name tc) (tc_arguments tc) a) (r2\<lparr>r_world := w1\<rparr>)
             in case snd a of
                  Some e \<Rightarrow>
                    let r4 = r3\<lparr>r_tool_errors := r_tool_errors r3 + 1\<rparr>;
                        r5 = emit g (EvHitlDecision (tc_name tc) (tc_id tc) (fst a) False (Some e) it) r4;
                        r6 = logHITLAudit g (decision_entry tid rid it tc a) r5;
                        rejected = \<lparr>tr_tool = tc_name tc, tr_call_id = tc_id tc, tr_ok = False,
                                    tr_data = GNil, tr_error = e, tr_code = ToolCodeHITLRejected\<rparr>
                    in (False, add_message ''tool'' (formatToolMessage g rejected) r6)
                | None \<Rightarrow>
                    (True, logHITLAudit g (decision_entry tid rid it tc a)
                       (emit g (EvHitlDecision (tc_name tc) (tc_id tc) (fst a) True None it) r3)))"

text \<open>Arguments that do not parse as an object leave the map nil.\<close>

definition call_args :: "'w graph \<Rightarrow> ToolCall \<Rightarrow> args option" where
  "call_args g tc =
     (if tc_arguments tc \<noteq> '''' then unmarshal_args (g_parse g) (tc_arguments tc) else None)"

definition validated_call :: "'w graph \<Rightarrow> 'w tool \<Rightarrow> ToolCall \<Rightarrow> 'w run \<Rightarrow> (string + gval) \<times> 'w run" where
  "validated_call g tool tc r =
     (let as = call_args g tc;
          schema = GenerateParametersSchema (t_parameters tool)
      in case ValidateAgainstSchema (Some schema) as of
           Some e \<Rightarrow> (Inl (err_text (g_quote g) e), r)
         | None \<Rightarrow>
             (case t_call tool as (r_world r) of
                (res, w1) \<Rightarrow> (res, record_effect (ToolRan (tc_name tc) as res) (r\<lparr>r_world := w1\<rparr>))))"

definition result_of_call :: "ToolCall \<Rightarrow> (string + gval) \<Rightarrow> ToolResult" where
  "result_of_call tc res =
     (case res of
        Inl e \<Rightarrow> \<lparr>tr_tool = tc_name tc, tr_call_id = tc_id tc, tr_ok = False, tr_data = GNil,
                   tr_error = e, tr_code = ToolCodeExecutionError\<rparr>
      | Inr v \<Rightarrow> \<lparr>tr_tool = tc_name tc, tr_call_id = tc_id tc, tr_ok = True, tr_data = v,
                   tr_error = '''', tr_code = ''''\<rparr>)"

text \<open>The tool result is emitted before its data, error and code are filled in.\<close>

definition run_tool :: "'w graph \<Rightarrow> string \<Rightarrow> 'w tool \<Rightarrow> ToolCall \<Rightarrow> 'w run \<Rightarrow> 'w run" where
  "run_tool g tid tool tc r =
     (case validated_call g tool tc r of
        (res, r1) \<Rightarrow>
          let r2 = r1\<lparr>r_tool_calls := r_tool_calls r1 + 1,
                      r_tool_errors := (if is_ok res then r_tool_errors r1 else r_tool_errors r1 + 1)\<rparr>;
              r3 = record_effect (ToolLogged (tc_name tc) (call_args g tc) res) r2;
              r4 = emit g (EvToolResult \<lparr>tr_tool = tc_name tc, tr_call_id = tc_id tc, tr_ok = is_ok res,
                             tr_data = GNil, tr_error = '''', tr_code = ''''\<rparr>) r3;
              toolResult = result_of_call tc res;
              r5 = add_message ''tool'' (formatToolMessage g toolResult) r4;
              v = tool_result_value toolResult
          in record_effect (MemoryPut tid ''last_tool_result'' v)
               (r5\<lparr>r_world := snd (g_put g tid ''last_tool_result'' v (r_world r5))\<rparr>))"

text \<open>One tool call of the model; a call of an unregistered tool is skipped.\<close>

definition tool_step :: "'w graph \<Rightarrow> string \<Rightarrow> string \<Rightarrow> ToolCall \<Rightarrow> 'w run \<Rightarrow> 'w run" where
  "tool_step g tid rid tc r =
     (case map_of (g_tools g) (tc_name tc) of
        None \<Rightarrow> r
      | Some tool \<Rightarrow>
          let r1 = emit g (EvToolCall (tc_name tc) (tc_arguments tc) (st_iteration (r_state r))) r
          in if ShouldInterrupt (g_hitl g) (tc_name tc)
             then (case ask_approval g tid rid tc r1 of
                     (ok, r2) \<Rightarrow> if ok then run_tool g tid tool tc r2 else r2)
             else run_tool g tid tool tc r1)"

fun tool_steps :: "'w graph \<Rightarrow> string \<Rightarrow> string \<Rightarrow> ToolCall list \<Rightarrow> 'w run \<Rightarrow> 'w run" where
  "tool_steps g tid rid [] r = r"
| "tool_steps g tid rid (tc # tcs) r = tool_steps g tid rid tcs (tool_step g tid rid tc r)"

definition save_checkpoint :: "'w graph \<Rightarrow> string \<Rightarrow> 'w run \<Rightarrow> 'w run" where
  "save_checkpoint g tid r =
     (case g_save g tid (r_state r) (r_world r) of
        (err, w1) \<Rightarrow> record_effect (Saved tid (r_state r) err) (r\<lparr>r_world := w1\<rparr>))"

text \<open>The final answer: content without tool calls.\<close>

definition final_answer :: "'w graph \<Rightarrow> string \<Rightarrow> string \<Rightarrow> string \<Rightarrow> 'w run \<Rightarrow> Output \<times> 'w run" where
  "final_answer g tid rid content r =
     (let r1 = add_message ''assistant'' content r;
          r2 = emit g (EvMessage content (st_iteration (r_state r))) r1;
          r3 = r2\<lparr>r_state := (r_state r2)\<lparr>st_final := content\<rparr>\<rparr>;
          r4 = save_checkpoint g tid r3;
          out = \<lparr>out_messages = st_messages (r_state r4), out_final = content,
                 out_thread = tid, out_request = rid\<rparr>
      in (out, emit g (EvFinal out) r4))"

definition next_iteration :: "'w run \<Rightarrow> 'w run" where
  "next_iteration r =
     r\<lparr>r_state := (r_state r)\<lparr>st_iteration := st_iteration (r_state r) + 1\<rparr>,
       r_iteration := st_iteration (r_state r) + 1\<rparr>"

text \<open>One round of the loop: it ends the run with a result, or goes on.\<close>

definition run_round :: "'w graph \<Rightarrow> string \<Rightarrow> string \<Rightarrow> 'w run \<Rightarrow> (AgentError + Output) option \<times> 'w run" where
  "run_round g tid rid r =
     (case model_call g (next_iteration r) of
        (Inl e, r1) \<Rightarrow> (Some (Inl (wrapRunError ErrCodeLLMInvoke ''failed to invoke llm'' tid rid e)), r1)
      | (Inr (content, toolCalls), r1) \<Rightarrow>
          if toolCalls = [] \<and> content \<noteq> '''' then
            (case final_answer g tid rid content r1 of (out, r2) \<Rightarrow> (Some (Inr out), r2))
          else
            let r2 = add_message ''assistant'' content r1;
                r3 = (if content \<noteq> '''' then emit g (EvMessage content (st_iteration (r_state r2))) r2 else r2)
            in (None, save_checkpoint g tid (tool_steps g tid rid toolCalls r3)))"

section \<open>What the stages keep\<close>

lemma record_effect_simps [simp]:
  "r_state (record_effect e r) = r_state r" "r_world (record_effect e r) = r_world r"
  "r_trace (record_effect e r) = r_trace r @ [e]"
  "r_model_calls (record_effect e r) = r_model_calls r"
  "r_model_errors (record_effect e r) = r_model_errors r"
  "r_tool_calls (record_effect e r) = r_tool_calls r"
  "r_tool_errors (record_effect e r) = r_tool_errors r"
  "r_iteration (record_effect e r) = r_iteration r"
  by (simp_all add: record_effect_def)

lemma emit_simps [simp]:
  "r_state (emit g ev r) = r_state r" "r_world (emit g ev r) = r_world r"
  "r_trace (emit g ev r) = r_trace r @ (if g_sink g then [Emitted ev] else [])"
  "r_model_calls (emit g ev r) = r_model_calls r"
  "r_model_errors (emit g ev r) = r_model_errors r"
  "r_tool_calls (emit g ev r) = r_tool_calls r"
  "r_tool_errors (emit g ev r) = r_tool_errors r"
  "r_iteration (emit g ev r) = r_iteration r"
  by (simp_all add: emit_def)

lemma add_message_simps [simp]:
  "st_messages (r_state (add_message ro c r)) = st_messages (r_state r) @ [\<lparr>m_role = ro, m_content = c\<rparr>]"
  "st_iteration (r_state (add_message ro c r)) = st_iteration (r_state r)"
  "st_thread (r_state (add_message ro c r)) = st_thread (r_state r)"
  "st_final (r_state (add_message ro c r)) = st_final (r_state r)"
  "r_world (add_message ro c r) = r_world r" "r_trace (add_message ro c r) = r_trace r"
  "r_model_calls (add_message ro c r) = r_model_calls r"
  "r_model_errors (add_message ro c r) = r_model_errors r"
  "r_tool_calls (add_message ro c r) = r_tool_calls r"
  "r_tool_errors (add_message ro c r) = r_tool_errors r"
  "r_iteration (add_message ro c r) = r_iteration r"
  by (simp_all add: add_message_def)

definition audited :: "'w graph \<Rightarrow> HITLAuditEntry \<Rightarrow> effect list" where
  "audited g entry = (if g_audit g = None then [] else [Audited entry])"

lemma logHITLAudit_simps [simp]:
  "r_state (logHITLAudit g en r) = r_state r"
  "r_trace (logHITLAudit g en r) = r_trace r @ audited g en"
  "r_model_calls (logHITLAudit g en r) = r_model_calls r"
  "r_model_errors (logHITLAudit g en r) = r_model_errors r"
  "r_tool_calls (logHITLAudit g en r) = r_tool_calls r"
  "r_tool_errors (logHITLAudit g en r) = r_tool_errors r"
  "r_iteration (logHITLAudit g en r) = r_iteration r"
  by (simp_all add: logHITLAudit_def audited_def split: option.split)

lemma save_checkpoint_simps [simp]:
  "r_state (save_checkpoint g tid r) = r_state r"
  "r_trace (save_checkpoint g tid r) =
     r_trace r @ [Saved tid (r_state r) (fst (g_save g tid (r_state r) (r_world r)))]"
  "r_world (save_checkpoint g tid r) = snd (g_save g tid (r_state r) (r_world r))"
  "r_model_calls (save_checkpoint g tid r) = r_model_calls r"
  "r_model_errors (save_checkpoint g tid r) = r_model_errors r"
  "r_tool_calls (save_checkpoint g tid r) = r_tool_calls r"
  "r_tool_errors (save_checkpoint g tid r) = r_tool_errors r"
  "r_iteration (save_checkpoint g tid r) = r_iteration r"
  by (simp_all add: save_checkpoint_def split: prod.split)

lemma next_iteration_simps [simp]:
  "st_iteration (r_state (next_iteration r)) = st_iteration (r_state r) + 1"
  "r_iteration (next_iteration r) = st_iteration (r_state r) + 1"
  "st_messages (r_state (next_iteration r)) = st_messages (r_state r)"
  "st_thread (r_state (next_iteration r)) = st_thread (r_state r)"
  "r_trace (next_iteration r) = r_trace r" "r_world (next_iteration r) = r_world r"
  "r_model_calls (next_iteration r) = r_model_calls r"
  "r_model_errors (next_iteration r) = r_model_errors r"
  "r_tool_calls (next_iteration r) = r_tool_calls r"
  "r_tool_errors (next_iteration r) = r_tool_errors r"
  by (simp_all add: next_iteration_def)

text \<open>
  What every stage of a round keeps of a run: the thread, the round number and the model
  counters; messages and trace only grow.
\<close>

definition extends :: "'w run \<Rightarrow> 'w run \<Rightarrow> bool" where
  "extends r s \<longleftrightarrow>
     st_iteration (r_state s) = st_iteration (r_state r) \<and> r_iteration s = r_iteration r \<and>
     st_thread (r_state s) = st_thread (r_state r) \<and> st_final (r_state s) = st_final (r_state r) \<and>
     r_model_calls s = r_model_calls r \<and> r_model_errors s = r_model_errors r \<and>
     prefix (st_messages (r_state r)) (st_messages (r_state s)) \<and> prefix (r_trace r) (r_trace s)"

lemma extends_refl [simp]: "extends r r"
  by (simp add: extends_def)

lemma extends_trans: "extends r s \<Longrightarrow> extends s t \<Longrightarrow> extends r t"
  unfolding extends_def by (metis prefix_order.trans)

lemma ask_approval_extends: "extends r (snd (ask_approval g tid rid tc r))"
  by (auto simp: ask_approval_def Let_def extends_def split: prod.split option.split)

lemma validated_call_simps:
  assumes "validated_call g tool tc r = (res, s)"
  shows "r_state s = r_state r" "r_model_calls s = r_model_calls r" "r_model_errors s = r_model_errors r"
    "r_tool_calls s = r_tool_calls r" "r_tool_errors s = r_tool_errors r" "r_iteration s = r_iteration r"
    "\<exists>ran. r_trace s = r_trace r @ ran \<and> (\<forall>e \<in> set ran. e = ToolRan (tc_name tc) (call_args g tc) res)"
  using assms by (auto simp: validated_call_def Let_def split: option.splits prod.splits)

lemma run_tool_extends: "extends r (run_tool g tid tool tc r)"
proof -
  obtain res s where v: "validated_call g tool tc r = (res, s)" by fastforce
  from validated_call_simps [OF v] show ?thesis
    by (auto simp: run_tool_def v Let_def extends_def)
qed

lemma tool_step_extends: "extends r (tool_step g tid rid tc r)"
proof (cases "map_of (g_tools g) (tc_name tc)")
  case None
  then show ?thesis by (simp add: tool_step_def)
next
  case (Some tool)
  let ?r1 = "emit g (EvToolCall (tc_name tc) (tc_arguments tc) (st_iteration (r_state r))) r"
  have r1: "extends r ?r1" by (simp add: extends_def)
  obtain ok r2 where a: "ask_approval g tid rid tc ?r1 = (ok, r2)" by fastforce
  then have "extends ?r1 r2" using ask_approval_extends by (metis snd_conv)
  with r1 have r2: "extends r r2" by (rule extends_trans)
  have "extends r (run_tool g tid tool tc ?r1)" "extends r (run_tool g tid tool tc r2)"
    using extends_trans [OF r1 run_tool_extends] extends_trans [OF r2 run_tool_extends] by simp_all
  with r2 a Some show ?thesis by (simp add: tool_step_def Let_def)
qed

lemma tool_steps_extends: "extends r (tool_steps g tid rid tcs r)"
  by (induction tcs arbitrary: r) (auto intro: extends_trans tool_step_extends)

lemma model_call_simps:
  assumes "model_call g r = (res, s)"
  shows "r_state s = r_state r" "r_iteration s = r_iteration r"
    "r_model_calls s = r_model_calls r + 1"
    "r_model_errors s = r_model_errors r + (if is_ok res then 0 else 1)"
    "r_tool_calls s = r_tool_calls r" "r_tool_errors s = r_tool_errors r"
  using assms by (auto simp: model_call_def Let_def is_ok_def split: prod.splits sum.splits)

text \<open>A round that goes on has counted itself.\<close>

lemma run_round_iteration:
  assumes "run_round g tid rid r = (None, s)"
  shows "st_iteration (r_state s) = st_iteration (r_state r) + 1"
proof -
  obtain res r1 where m: "model_call g (next_iteration r) = (res, r1)" by fastforce
  with assms obtain content tcs where res: "res = Inr (content, tcs)"
    by (cases res) (auto simp: run_round_def)
  define r3 where "r3 = (let r2 = add_message ''assistant'' content r1 in
    if content \<noteq> '''' then emit g (EvMessage content (st_iteration (r_state r2))) r2 else r2)"
  from assms m res have s: "s = save_checkpoint g tid (tool_steps g tid rid tcs r3)"
    by (auto simp: run_round_def r3_def Let_def split: if_splits prod.splits)
  have "st_iteration (r_state r3) = st_iteration (r_state r) + 1"
    using model_call_simps [OF m] by (simp add: r3_def Let_def)
  then show ?thesis using tool_steps_extends [of r3 g tid rid tcs] by (simp add: s extends_def)
qed

section \<open>The loop and \<open>Run\<close>\<close>

function run_loop :: "'w graph \<Rightarrow> string \<Rightarrow> string \<Rightarrow> 'w run \<Rightarrow> (AgentError + Output) \<times> 'w run" where
  "run_loop g tid rid r =
     (if st_iteration (r_state r) < 20 then
        (case run_round g tid rid r of
           (Some res, s) \<Rightarrow> (res, s)
         | (None, s) \<Rightarrow> run_loop g tid rid s)
      else (Inl (wrapRunError ErrCodeMaxIterations ''max iterations reached'' tid rid
                   ''max iterations reached''), r))"
  by pat_completeness auto
termination
  by (relation "measure (\<lambda>(g, tid, rid, r). nat (20 - st_iteration (r_state r)))")
    (auto dest: run_round_iteration [OF sym])

declare run_loop.simps [simp del]

text \<open>The deferred function: the run summary, then the error event of a failed run.\<close>

definition summary_of :: "string \<Rightarrow> string \<Rightarrow> AgentError + Output \<Rightarrow> 'w run \<Rightarrow> RunSummary" where
  "summary_of tid rid res r =
     \<lparr>rs_thread = tid, rs_request = rid, rs_iterations = r_iteration r,
      rs_model_calls = r_model_calls r, rs_model_errors = r_model_errors r,
      rs_tool_calls = r_tool_calls r, rs_tool_errors = r_tool_errors r,
      rs_error_rate = (if r_tool_calls r > 0 then (r_tool_errors r, r_tool_calls r) else (0, 1)),
      rs_error = (case res of Inl e \<Rightarrow> AgentError_Error e | Inr _ \<Rightarrow> '''')\<rparr>"

definition finish_run :: "'w graph \<Rightarrow> string \<Rightarrow> string \<Rightarrow> AgentError + Output \<Rightarrow> 'w run \<Rightarrow> 'w run" where
  "finish_run g tid rid res r =
     (let r1 = record_effect (Summary (summary_of tid rid res r)) r
      in case res of
           Inl e \<Rightarrow> emit g (EvError (AgentError_Payload e)) r1
         | Inr _ \<Rightarrow> r1)"

definition start_run :: "State \<Rightarrow> 'w \<Rightarrow> effect list \<Rightarrow> 'w run" where
  "start_run st w tr =
     \<lparr>r_state = st, r_world = w, r_trace = tr, r_model_calls = 0, r_model_errors = 0,
      r_tool_calls = 0, r_tool_errors = 0, r_iteration = 0\<rparr>"

definition initial_state :: "'w graph \<Rightarrow> Input \<Rightarrow> State option \<Rightarrow> State" where
  "initial_state g input loaded =
     (let st = (case loaded of
          Some s \<Rightarrow> s
        | None \<Rightarrow> \<lparr>st_messages = [\<lparr>m_role = ''system'', m_content = g_prompt g\<rparr>], st_tool_calls = [],
                    st_thread = in_thread input, st_iteration = 0, st_final = ''''\<rparr>)
      in st\<lparr>st_messages := st_messages st @ in_messages input\<rparr>)"

definition Run :: "'w graph \<Rightarrow> nat \<Rightarrow> Input \<Rightarrow> 'w \<Rightarrow> (AgentError + Output) \<times> 'w run" where
  "Run g nano input w =
     (let tid = in_thread input;
          rid = newRequestID tid nano
      in case g_load g tid w of
           (Inl e, w1) \<Rightarrow>
             let res = Inl (wrapRunError ErrCodeCheckpointLoad ''failed to load checkpoint'' tid rid e)
             in (res, finish_run g tid rid res (start_run (initial_state g input None) w1 [Loaded tid]))
         | (Inr loaded, w1) \<Rightarrow>
             (case run_loop g tid rid (start_run (initial_state g input loaded) w1 [Loaded tid]) of
                (res, r) \<Rightarrow> (res, finish_run g tid rid res r)))"

text \<open>\<open>runWithEventSink\<close>: the run of a copy of the graph with a sink.\<close>

definition runWithEventSink :: "'w graph \<Rightarrow> nat \<Rightarrow> Input \<Rightarrow> 'w \<Rightarrow> (AgentError + Output) \<times> 'w run" where
  "runWithEventSink g nano input w = Run (g\<lparr>g_sink := True\<rparr>) nano input w"

text \<open>What \<open>Stream\<close> delivers on its channel to a reader that drains it.\<close>

definition emitted :: "effect list \<Rightarrow> event list" where
  "emitted tr = List.map_filter (\<lambda>e. case e of Emitted ev \<Rightarrow> Some ev | _ \<Rightarrow> None) tr"

definition Stream :: "'w graph \<Rightarrow> nat \<Rightarrow> Input \<Rightarrow> 'w \<Rightarrow> event list" where
  "Stream g nano input w = emitted (r_trace (snd (runWithEventSink g nano input w)))"

end
