(* ===== verification/Graph_Trace.thy ===== *)
theory Graph_Trace
  imports Graph
begin

text \<open>
  The trace of a run: the effects each stage adds, and the locale \<open>run_trace\<close>, which
  lifts a property of effect lists from the tool step to every run. Its instances are the
  trace properties of the executor: approvals precede tools, arguments stay out of the
  audit log, tool events carry no data, counters agree with the trace.
\<close>

section \<open>The effects of the stages\<close>

abbreviation onlyif :: "bool \<Rightarrow> 'a \<Rightarrow> 'a list" where
  "onlyif b x \<equiv> (if b then [x] else [])"

definition ask_effects :: "'w graph \<Rightarrow> string \<Rightarrow> string \<Rightarrow> int \<Rightarrow> ToolCall \<Rightarrow> approval \<Rightarrow> effect list" where
  "ask_effects g tid rid it tc a =
     onlyif (g_sink g) (Emitted (EvHitlRequest (tc_name tc) (tc_id tc) it))
     @ audited g (request_entry g tid rid it tc)
     @ [Approval \<lparr>am_thread = tid, am_request = rid, am_call = tc_id tc, am_iteration = it\<rparr>
          (tc_name tc) (tc_arguments tc) a]
     @ onlyif (g_sink g) (Emitted (EvHitlDecision (tc_name tc) (tc_id tc) (fst a) (snd a = None) (snd a) it))
     @ audited g (decision_entry tid rid it tc a)"

definition run_effects :: "'w graph \<Rightarrow> string \<Rightarrow> ToolCall \<Rightarrow> bool \<Rightarrow> string + gval \<Rightarrow> effect list" where
  "run_effects g tid tc called res =
     onlyif called (ToolRan (tc_name tc) (call_args g tc) res)
     @ [ToolLogged (tc_name tc) (call_args g tc) res]
     @ onlyif (g_sink g) (Emitted (EvToolResult \<lparr>tr_tool = tc_name tc, tr_call_id = tc_id tc,
         tr_ok = is_ok res, tr_data = GNil, tr_error = '''', tr_code = ''''\<rparr>))
     @ [MemoryPut tid ''last_tool_result'' (tool_result_value (result_of_call tc res))]"

text \<open>The answer \<open>a\<close> is one the approver gives for this call.\<close>

definition asked :: "'w graph \<Rightarrow> string \<Rightarrow> string \<Rightarrow> int \<Rightarrow> ToolCall \<Rightarrow> approval \<Rightarrow> bool" where
  "asked g tid rid it tc a \<longleftrightarrow>
     (\<exists>w. fst (g_approver g \<lparr>am_thread = tid, am_request = rid, am_call = tc_id tc, am_iteration = it\<rparr>
        (tc_name tc) (tc_arguments tc) w) = a)"

lemma ask_approval_trace:
  assumes "ask_approval g tid rid tc r = (ok, s)"
  shows "\<exists>a. asked g tid rid (st_iteration (r_state r)) tc a \<and> r_trace s = r_trace r @ ask_effects g tid rid (st_iteration (r_state r)) tc a \<and>
    ok = (snd a = None) \<and> r_tool_calls s = r_tool_calls r \<and>
    r_tool_errors s = r_tool_errors r + (if snd a = None then 0 else 1)"
proof -
  let ?it = "st_iteration (r_state r)"
  define r2 where "r2 = logHITLAudit g (request_entry g tid rid ?it tc) (emit g (EvHitlRequest (tc_name tc) (tc_id tc) ?it) r)"
  obtain a w1 where a: "g_approver g \<lparr>am_thread = tid, am_request = rid, am_call = tc_id tc, am_iteration = ?it\<rparr>
      (tc_name tc) (tc_arguments tc) (r_world r2) = (a, w1)" by fastforce
  have q: "asked g tid rid ?it tc a" unfolding asked_def using a by (metis fst_conv)
  show ?thesis
  proof (cases "snd a")
    case None
    with assms a q show ?thesis
      by (intro exI [of _ a]) (auto simp: ask_approval_def Let_def r2_def [symmetric] ask_effects_def, auto simp: r2_def)
  next
    case (Some e)
    with assms a q show ?thesis
      by (intro exI [of _ a]) (auto simp: ask_approval_def Let_def r2_def [symmetric] ask_effects_def, auto simp: r2_def)
  qed
qed

text \<open>The tool is called exactly when its arguments pass its schema; else the result is an error.\<close>

definition call_ok :: "'w graph \<Rightarrow> 'w tool \<Rightarrow> ToolCall \<Rightarrow> bool \<Rightarrow> string + gval \<Rightarrow> bool" where
  "call_ok g tool tc called res \<longleftrightarrow>
     called = (ValidateAgainstSchema (Some (GenerateParametersSchema (t_parameters tool))) (call_args g tc) = None) \<and>
     (called \<or> \<not> is_ok res)"

lemma run_tool_trace:
  "\<exists>called res. r_trace (run_tool g tid tool tc r) = r_trace r @ run_effects g tid tc called res \<and>
     call_ok g tool tc called res \<and>
     r_tool_calls (run_tool g tid tool tc r) = r_tool_calls r + 1 \<and>
     r_tool_errors (run_tool g tid tool tc r) = r_tool_errors r + (if is_ok res then 0 else 1)"
proof -
  obtain res s where v: "validated_call g tool tc r = (res, s)" by fastforce
  define called where "called \<longleftrightarrow>
    ValidateAgainstSchema (Some (GenerateParametersSchema (t_parameters tool))) (call_args g tc) = None"
  have "r_trace s = r_trace r @ onlyif called (ToolRan (tc_name tc) (call_args g tc) res)"
    and "call_ok g tool tc called res"
    using v by (auto simp: called_def call_ok_def validated_call_def Let_def split: option.splits prod.splits)
  with validated_call_simps [OF v] v show ?thesis
    by (intro exI [of _ called] exI [of _ res]) (simp add: run_tool_def Let_def run_effects_def)
qed

text \<open>The effects of one tool call: none, or the call event, then approval and run.\<close>

inductive tool_delta :: "'w graph \<Rightarrow> string \<Rightarrow> string \<Rightarrow> ToolCall \<Rightarrow> effect list \<Rightarrow> nat \<Rightarrow> nat \<Rightarrow> bool"
  for g tid rid tc where
  skipped: "map_of (g_tools g) (tc_name tc) = None \<Longrightarrow> tool_delta g tid rid tc [] 0 0"
| direct: "map_of (g_tools g) (tc_name tc) = Some tool \<Longrightarrow> \<not> ShouldInterrupt (g_hitl g) (tc_name tc) \<Longrightarrow>
    call_ok g tool tc called res \<Longrightarrow>
    tool_delta g tid rid tc (onlyif (g_sink g) (Emitted (EvToolCall (tc_name tc) (tc_arguments tc) it))
      @ run_effects g tid tc called res) 1 (if is_ok res then 0 else 1)"
| approved: "map_of (g_tools g) (tc_name tc) = Some tool \<Longrightarrow> ShouldInterrupt (g_hitl g) (tc_name tc) \<Longrightarrow>
    asked g tid rid it tc a \<Longrightarrow> snd a = None \<Longrightarrow> call_ok g tool tc called res \<Longrightarrow>
    tool_delta g tid rid tc (onlyif (g_sink g) (Emitted (EvToolCall (tc_name tc) (tc_arguments tc) it))
      @ ask_effects g tid rid it tc a @ run_effects g tid tc called res) 1 (if is_ok res then 0 else 1)"
| refused: "map_of (g_tools g) (tc_name tc) = Some tool \<Longrightarrow> ShouldInterrupt (g_hitl g) (tc_name tc) \<Longrightarrow>
    asked g tid rid it tc a \<Longrightarrow> snd a = Some e \<Longrightarrow>
    tool_delta g tid rid tc (onlyif (g_sink g) (Emitted (EvToolCall (tc_name tc) (tc_arguments tc) it))
      @ ask_effects g tid rid it tc a) 0 1"

inductive_cases tool_deltaE: "tool_delta g tid rid tc d n m"

lemma tool_step_delta:
  "\<exists>d n m. tool_delta g tid rid tc d n m \<and>
     r_trace (tool_step g tid rid tc r) = r_trace r @ d \<and>
     r_tool_calls (tool_step g tid rid tc r) = r_tool_calls r + n \<and>
     r_tool_errors (tool_step g tid rid tc r) = r_tool_errors r + m"
proof (cases "map_of (g_tools g) (tc_name tc)")
  case None
  then show ?thesis using tool_delta.skipped [of g tc tid rid]
    by (intro exI [of _ "[]"] exI [of _ 0]) (simp add: tool_step_def)
next
  case (Some tool)
  let ?it = "st_iteration (r_state r)"
  define r1 where "r1 = emit g (EvToolCall (tc_name tc) (tc_arguments tc) ?it) r"
  let ?ev = "onlyif (g_sink g) (Emitted (EvToolCall (tc_name tc) (tc_arguments tc) ?it))"
  have r1: "r_trace r1 = r_trace r @ ?ev" "st_iteration (r_state r1) = ?it"
    "r_tool_calls r1 = r_tool_calls r" "r_tool_errors r1 = r_tool_errors r"
    by (simp_all add: r1_def)
  have step: "tool_step g tid rid tc r =
      (if ShouldInterrupt (g_hitl g) (tc_name tc)
       then (case ask_approval g tid rid tc r1 of
               (ok, r2) \<Rightarrow> if ok then run_tool g tid tool tc r2 else r2)
       else run_tool g tid tool tc r1)"
    using Some by (simp add: tool_step_def r1_def Let_def)
  show ?thesis
  proof (cases "ShouldInterrupt (g_hitl g) (tc_name tc)")
    case False
    obtain called res where "r_trace (run_tool g tid tool tc r1) = r_trace r1 @ run_effects g tid tc called res"
      and called: "call_ok g tool tc called res"
      and "r_tool_calls (run_tool g tid tool tc r1) = r_tool_calls r1 + 1"
      "r_tool_errors (run_tool g tid tool tc r1) = r_tool_errors r1 + (if is_ok res then 0 else 1)"
      using run_tool_trace by blast
    with r1 step False tool_delta.direct [OF Some False called, of tid rid ?it] show ?thesis
      by (metis append_assoc)
  next
    case True
    obtain ok r2 where ask: "ask_approval g tid rid tc r1 = (ok, r2)" by fastforce
    from ask_approval_trace [OF this] r1 obtain a where
      r2: "r_trace r2 = r_trace r1 @ ask_effects g tid rid ?it tc a" and ok: "ok = (snd a = None)"
      and q: "asked g tid rid ?it tc a" and c: "r_tool_calls r2 = r_tool_calls r" "r_tool_errors r2 = r_tool_errors r + (if snd a = None then 0 else 1)"
      by metis
    show ?thesis
    proof (cases "snd a")
      case None
      obtain called res where "r_trace (run_tool g tid tool tc r2) = r_trace r2 @ run_effects g tid tc called res"
        and called: "call_ok g tool tc called res"
        and "r_tool_calls (run_tool g tid tool tc r2) = r_tool_calls r2 + 1"
        "r_tool_errors (run_tool g tid tool tc r2) = r_tool_errors r2 + (if is_ok res then 0 else 1)"
        using run_tool_trace by blast
      with r1 r2 c ok step True ask None tool_delta.approved [OF Some True q None called]
      show ?thesis by (auto intro!: exI)
    next
      case (Some e)
      with r1 r2 c ok step True ask tool_delta.refused [OF \<open>map_of (g_tools g) (tc_name tc) = Some tool\<close> True q Some]
      show ?thesis by (auto intro!: exI)
    qed
  qed
qed

section \<open>Lifting a property of effects to runs\<close>

text \<open>
  A property of effect lists that every tool call's effects have and that concatenation
  keeps, holds of the tool calls of a round.
\<close>

locale tool_trace =
  fixes g :: "'w graph" and P :: "effect list \<Rightarrow> bool"
  assumes nil: "P []"
    and app: "P a \<Longrightarrow> P b \<Longrightarrow> P (a @ b)"
    and tool: "tool_delta g tid rid tc d n m \<Longrightarrow> P d"
begin

lemma tool_steps_adds: "\<exists>d. r_trace (tool_steps g tid rid tcs r) = r_trace r @ d \<and> P d"
proof (induction tcs arbitrary: r)
  case Nil
  then show ?case using nil by simp
next
  case (Cons tc tcs)
  obtain d where d: "r_trace (tool_step g tid rid tc r) = r_trace r @ d" "P d"
    using tool_step_delta [of g tid rid tc r] tool by blast
  obtain d' where "r_trace (tool_steps g tid rid tcs (tool_step g tid rid tc r)) = r_trace (tool_step g tid rid tc r) @ d'" "P d'"
    using Cons.IH by blast
  with d app show ?case by (intro exI [of _ "d @ d'"]) simp
qed

end

text \<open>The effects only a tool call has.\<close>

fun tool_effect :: "effect \<Rightarrow> bool" where
  "tool_effect (Approval _ _ _ _) = True"
| "tool_effect (Audited _) = True"
| "tool_effect (ToolRan _ _ _) = True"
| "tool_effect (ToolLogged _ _ _) = True"
| "tool_effect (MemoryPut _ _ _) = True"
| "tool_effect (Emitted ev) =
     (case ev of EvToolCall _ _ _ \<Rightarrow> True | EvHitlRequest _ _ _ \<Rightarrow> True
      | EvHitlDecision _ _ _ _ _ _ \<Rightarrow> True | EvToolResult _ \<Rightarrow> True | _ \<Rightarrow> False)"
| "tool_effect _ = False"

text \<open>If it holds of every single other effect as well, it holds of whole runs.\<close>

locale run_trace = tool_trace g P for g :: "'w graph" and P +
  assumes other: "\<not> tool_effect e \<Longrightarrow> P [e]"
begin
lemma onlyif_other: "\<not> tool_effect e \<Longrightarrow> P (onlyif b e)"
  using nil other by simp

lemma model_call_adds:
  assumes "model_call g r = (res, s)" shows "\<exists>d. r_trace s = r_trace r @ d \<and> P d"
proof -
  obtain n m err ev where "r_trace s = r_trace r @ [ModelCalled n m err] @ onlyif (g_sink g) (Emitted ev)"
    and "\<not> tool_effect (Emitted ev)"
    using assms by (auto simp: model_call_def Let_def split: prod.splits)
  then show ?thesis using app [OF other onlyif_other] by (metis tool_effect.simps(8))
qed

lemma run_round_adds:
  assumes "run_round g tid rid r = (out, s)" shows "\<exists>d. r_trace s = r_trace r @ d \<and> P d"
proof -
  obtain res r1 where m: "model_call g (next_iteration r) = (res, r1)" by fastforce
  then obtain d1 where d1: "r_trace r1 = r_trace r @ d1" "P d1"
    using model_call_adds by fastforce
  show ?thesis
  proof (cases res)
    case (Inl e)
    with assms m d1 show ?thesis by (auto simp: run_round_def)
  next
    case (Inr ct)
    obtain content tcs where ct: "ct = (content, tcs)" by fastforce
    let ?msg = "onlyif (g_sink g) (Emitted (EvMessage content (st_iteration (r_state r1))))"
    have msg: "P ?msg" by (rule onlyif_other) simp
    show ?thesis
    proof (cases "tcs = [] \<and> content \<noteq> ''''")
      case True
      then obtain st er out' where "r_trace s = r_trace r @ d1 @ ?msg @ [Saved tid st er]
          @ onlyif (g_sink g) (Emitted (EvFinal out'))"
        using assms m Inr ct d1 by (auto simp: run_round_def final_answer_def Let_def)
      moreover have "P (d1 @ ?msg @ [Saved tid st er] @ onlyif (g_sink g) (Emitted (EvFinal out')))"
        by (intro app d1(2) msg onlyif_other other) simp_all
      ultimately show ?thesis by blast
    next
      case False
      define r3 where "r3 = (let r2 = add_message ''assistant'' content r1 in
        if content \<noteq> '''' then emit g (EvMessage content (st_iteration (r_state r2))) r2 else r2)"
      have s: "s = save_checkpoint g tid (tool_steps g tid rid tcs r3)"
        using assms m Inr ct False by (auto simp: run_round_def r3_def Let_def)
      define b where "b \<longleftrightarrow> content \<noteq> '''' \<and> g_sink g"
      have b: "r_trace r3 = r_trace r1 @ onlyif b (Emitted (EvMessage content (st_iteration (r_state r1))))"
        by (auto simp: r3_def Let_def b_def)
      obtain d2 where d2: "r_trace (tool_steps g tid rid tcs r3) = r_trace r3 @ d2" "P d2"
        using tool_steps_adds by blast
      obtain st er where "r_trace s = r_trace r @ d1 @
          onlyif b (Emitted (EvMessage content (st_iteration (r_state r1)))) @ d2 @ [Saved tid st er]"
        using s b d1(1) d2(1) by simp
      moreover have "P (d1 @ onlyif b (Emitted (EvMessage content (st_iteration (r_state r1)))) @ d2 @ [Saved tid st er])"
        by (intro app d1(2) d2(2) onlyif_other other) simp_all
      ultimately show ?thesis by blast
    qed
  qed
qed

lemma run_loop_adds: "\<exists>d. r_trace (snd (run_loop g tid rid r)) = r_trace r @ d \<and> P d"
proof (induction "nat (20 - st_iteration (r_state r))" arbitrary: r rule: less_induct)
  case less
  show ?case
  proof (cases "st_iteration (r_state r) < 20")
    case False
    then show ?thesis using nil by (simp add: run_loop.simps [of g tid rid r])
  next
    case True
    obtain out s where rr: "run_round g tid rid r = (out, s)" by fastforce
    from run_round_adds [OF this] obtain d where d: "r_trace s = r_trace r @ d" "P d" by blast
    show ?thesis
    proof (cases out)
      case (Some res)
      with True rr d show ?thesis by (simp add: run_loop.simps [of g tid rid r])
    next
      case None
      with rr True have "nat (20 - st_iteration (r_state s)) < nat (20 - st_iteration (r_state r))"
        using run_round_iteration [of g tid rid r s] by simp
      from less [OF this] obtain d' where "r_trace (snd (run_loop g tid rid s)) = r_trace s @ d'" "P d'"
        by blast
      with None True rr d app show ?thesis
        by (intro exI [of _ "d @ d'"]) (simp add: run_loop.simps [of g tid rid r])
    qed
  qed
qed

lemma finish_adds: "\<exists>d. r_trace (finish_run g tid rid res r) = r_trace r @ d \<and> P d"
proof -
  have "\<exists>b ev. r_trace (finish_run g tid rid res r) =
      r_trace r @ [Summary (summary_of tid rid res r)] @ onlyif b (Emitted (EvError ev))"
  proof (cases res)
    case (Inl e)
    then show ?thesis
      by (intro exI [of _ "g_sink g"] exI [of _ "AgentError_Payload e"]) (simp add: finish_run_def Let_def)
  next
    case (Inr out)
    then show ?thesis by (intro exI [of _ False]) (simp add: finish_run_def Let_def)
  qed
  then obtain ev b where "r_trace (finish_run g tid rid res r) =
      r_trace r @ [Summary (summary_of tid rid res r)] @ onlyif b (Emitted (EvError ev))"
    by blast
  moreover have "P ([Summary (summary_of tid rid res r)] @ onlyif b (Emitted (EvError ev)))"
    by (intro app other onlyif_other) simp_all
  ultimately show ?thesis by blast
qed

lemma run_holds: "P (r_trace (snd (Run g nano input w)))"
proof -
  let ?tid = "in_thread input" and ?rid = "newRequestID (in_thread input) nano"
  have fin: "P (r_trace (finish_run g ?tid ?rid res r))" if "P (r_trace r)" for res r
    using finish_adds [of ?tid ?rid res r] that app by auto
  have start: "P (r_trace (start_run st w1 [Loaded ?tid]))" for st w1
    by (simp add: start_run_def other)
  obtain ld w1 where ld: "g_load g ?tid w = (ld, w1)" by fastforce
  show ?thesis
  proof (cases ld)
    case (Inl e)
    have "P (r_trace (finish_run g ?tid ?rid res (start_run st w1 [Loaded ?tid])))" for res st
      by (rule fin) (rule start)
    with Inl ld show ?thesis by (simp add: Run_def Let_def)
  next
    case (Inr loaded)
    define r0 where "r0 = start_run (initial_state g input loaded) w1 [Loaded ?tid]"
    obtain res r where lp: "run_loop g ?tid ?rid r0 = (res, r)" by fastforce
    with run_loop_adds [of ?tid ?rid r0] start app have "P (r_trace r)"
      unfolding r0_def by fastforce
    with fin ld lp Inr show ?thesis by (simp add: Run_def Let_def r0_def)
  qed
qed

end

end
