(* ===== verification/Graph_Props.thy ===== *)
theory Graph_Props
  imports Graph_Trace
begin

text \<open>
  The properties of the executor: approvals, audit, events, counters (instances of
  \<open>run_trace\<close> and invariants along the loop), the bound on rounds, and the result
  of a run that ends with an answer. A scripted graph at the end serves the witnesses.
\<close>

section \<open>Approvals precede tools\<close>

text \<open>
  Scans a trace with the approval that is still unused: an approved call of a tool with its
  arguments. A tool that needs approval may run only on that approval, with the arguments
  that were shown to the approver, and uses it up.
\<close>

fun hitl_safe :: "'w graph \<Rightarrow> (string \<times> string) option \<Rightarrow> effect list \<Rightarrow> bool" where
  "hitl_safe g perm [] = True"
| "hitl_safe g perm (Approval _ n x a # es) = hitl_safe g (if snd a = None then Some (n, x) else None) es"
| "hitl_safe g perm (ToolRan n as _ # es) =
     ((if ShouldInterrupt (g_hitl g) n
       then (case perm of
               None \<Rightarrow> False
             | Some (m, x) \<Rightarrow> m = n \<and> as = call_args g \<lparr>tc_id = '''', tc_name = n, tc_arguments = x\<rparr>)
       else True) \<and> hitl_safe g None es)"
| "hitl_safe g perm (_ # es) = hitl_safe g perm es"

lemma hitl_safe_append:
  "hitl_safe g p a \<Longrightarrow> (\<And>q. hitl_safe g q b) \<Longrightarrow> hitl_safe g p (a @ b)"
  by (induction g p a rule: hitl_safe.induct) simp_all

lemma hitl_safe_other: "\<not> tool_effect e \<Longrightarrow> hitl_safe g p [e]"
  by (cases e) simp_all

lemma call_args_cong:
  "call_args g \<lparr>tc_id = i, tc_name = n, tc_arguments = tc_arguments tc\<rparr> = call_args g tc"
  by (simp add: call_args_def)

interpretation hs: run_trace g "\<lambda>es. \<forall>p. hitl_safe g p es" for g
proof (unfold_locales, goal_cases)
  case (2 a b)
  then show ?case by (simp add: hitl_safe_append)
next
  case (4 e)
  then show ?case by (simp add: hitl_safe_other)
next
  case (3 tid rid tc d n m)
  then show ?case
    by (cases rule: tool_deltaE)
      (auto simp: ask_effects_def run_effects_def audited_def call_args_cong)
qed simp

section \<open>The audit log\<close>

fun redacted :: "effect \<Rightarrow> bool" where
  "redacted (Audited en) = (ha_arguments en = GNil)"
| "redacted _ = True"

lemma redacted_other: "\<not> tool_effect e \<Longrightarrow> redacted e"
  by (cases e) simp_all

interpretation rd: run_trace g "\<lambda>es. g_include_args g \<or> list_all redacted es" for g
proof (unfold_locales, goal_cases)
  case (4 e)
  then show ?case by (simp add: redacted_other)
next
  case (3 tid rid tc d n m)
  show ?case
  proof (cases "g_include_args g")
    case False
    with 3 have "list_all redacted d"
      by (cases rule: tool_deltaE)
        (auto simp: ask_effects_def run_effects_def audited_def request_entry_def decision_entry_def
          blank_entry_def auditArgsPayload_def)
    then show ?thesis by simp
  qed simp
qed auto

text \<open>The approvals and audit entries of a trace come as request, approval, decision.\<close>

fun hitl_effect :: "effect \<Rightarrow> bool" where
  "hitl_effect (Approval _ _ _ _) = True"
| "hitl_effect (Audited _) = True"
| "hitl_effect _ = False"

definition audit_triple :: "HITLAuditEntry \<Rightarrow> approvalMetadata \<Rightarrow> string \<Rightarrow> approval \<Rightarrow> HITLAuditEntry \<Rightarrow> bool" where
  "audit_triple a meta n ap b \<longleftrightarrow>
     ha_event a = ''hitl_request'' \<and> ha_event b = ''hitl_decision'' \<and>
     ha_tool a = n \<and> ha_tool b = n \<and> ha_call_id a = am_call meta \<and> ha_call_id b = am_call meta \<and>
     ha_request a = am_request meta \<and> ha_request b = am_request meta \<and>
     ha_decision b = fst ap \<and> ha_approved b = (snd ap = None)"

fun audit_triples :: "effect list \<Rightarrow> bool" where
  "audit_triples [] = True"
| "audit_triples (Audited a # Approval meta n x ap # Audited b # es) =
     (audit_triple a meta n ap b \<and> audit_triples es)"
| "audit_triples _ = False"

lemma audit_triples_append: "audit_triples a \<Longrightarrow> audit_triples b \<Longrightarrow> audit_triples (a @ b)"
  by (induction a rule: audit_triples.induct) simp_all

lemma not_hitl_other: "\<not> tool_effect e \<Longrightarrow> \<not> hitl_effect e"
  by (cases e) simp_all

interpretation at: run_trace g "\<lambda>es. g_audit g = None \<or> audit_triples (filter hitl_effect es)" for g
proof (unfold_locales, goal_cases)
  case (2 a b)
  then show ?case using audit_triples_append by auto
next
  case (4 e)
  then show ?case by (simp add: not_hitl_other)
next
  case (3 tid rid tc d n m)
  show ?case
  proof (cases "g_audit g")
    case (Some lg)
    with 3 have "audit_triples (filter hitl_effect d)"
      by (cases rule: tool_deltaE)
        (auto simp: ask_effects_def run_effects_def audited_def request_entry_def
          decision_entry_def blank_entry_def audit_triple_def)
    then show ?thesis by simp
  qed simp
qed auto

section \<open>Events of tool results\<close>

fun blank_result_event :: "effect \<Rightarrow> bool" where
  "blank_result_event (Emitted (EvToolResult t)) = (tr_data t = GNil \<and> tr_error t = '''' \<and> tr_code t = '''')"
| "blank_result_event _ = True"

lemma blank_other: "\<not> tool_effect e \<Longrightarrow> blank_result_event e"
  by (cases e rule: blank_result_event.cases) simp_all

interpretation bl: run_trace g "list_all blank_result_event" for g
proof (unfold_locales, goal_cases)
  case (4 e)
  then show ?case by (simp add: blank_other)
next
  case (3 tid rid tc d n m)
  then show ?case
    by (cases rule: tool_deltaE) (auto simp: ask_effects_def run_effects_def audited_def)
qed auto

section \<open>Counters\<close>

fun count_effects :: "(effect \<Rightarrow> nat) \<Rightarrow> effect list \<Rightarrow> nat" where
  "count_effects f [] = 0"
| "count_effects f (e # es) = f e + count_effects f es"

lemma count_append [simp]: "count_effects f (a @ b) = count_effects f a + count_effects f b"
  by (induction a) simp_all

fun tool_logs :: "effect \<Rightarrow> nat" where
  "tool_logs (ToolLogged _ _ _) = 1" | "tool_logs _ = 0"

fun tool_failures :: "effect \<Rightarrow> nat" where
  "tool_failures (ToolLogged _ _ res) = (if is_ok res then 0 else 1)"
| "tool_failures (Approval _ _ _ a) = (if snd a = None then 0 else 1)"
| "tool_failures _ = 0"

fun model_logs :: "effect \<Rightarrow> nat" where
  "model_logs (ModelCalled _ _ _) = 1" | "model_logs _ = 0"

fun model_failures :: "effect \<Rightarrow> nat" where
  "model_failures (ModelCalled _ _ e) = (if e = None then 0 else 1)" | "model_failures _ = 0"

definition counters_agree :: "'w run \<Rightarrow> bool" where
  "counters_agree r \<longleftrightarrow>
     r_tool_calls r = count_effects tool_logs (r_trace r) \<and>
     r_tool_errors r = count_effects tool_failures (r_trace r) \<and>
     r_model_calls r = count_effects model_logs (r_trace r) \<and>
     r_model_errors r = count_effects model_failures (r_trace r)"

lemma tool_delta_counts:
  "tool_delta g tid rid tc d n m \<Longrightarrow>
   count_effects tool_logs d = n \<and> count_effects tool_failures d = m \<and>
   count_effects model_logs d = 0 \<and> count_effects model_failures d = 0"
  by (cases rule: tool_deltaE) (auto simp: ask_effects_def run_effects_def audited_def)

lemma tool_step_counters: "counters_agree r \<Longrightarrow> counters_agree (tool_step g tid rid tc r)"
  using tool_step_delta [of g tid rid tc r] tool_step_extends [of r g tid rid tc]
  by (auto simp: counters_agree_def extends_def dest!: tool_delta_counts)

lemma tool_steps_counters: "counters_agree r \<Longrightarrow> counters_agree (tool_steps g tid rid tcs r)"
  by (induction tcs arbitrary: r) (simp_all add: tool_step_counters)

lemma model_call_counters:
  "model_call g r = (res, s) \<Longrightarrow> counters_agree r \<Longrightarrow> counters_agree s"
  by (auto simp: model_call_def Let_def counters_agree_def split: prod.splits sum.splits)

lemma plain_counters [simp]:
  "counters_agree (next_iteration r) = counters_agree r"
  "counters_agree (add_message ro c r) = counters_agree r"
  "counters_agree (emit g ev r) = counters_agree r"
  "counters_agree (save_checkpoint g tid r) = counters_agree r"
  by (simp_all add: counters_agree_def)

lemma run_round_counters:
  assumes "run_round g tid rid r = (out, s)" "counters_agree r" shows "counters_agree s"
proof -
  obtain res r1 where m: "model_call g (next_iteration r) = (res, r1)" by fastforce
  have r1: "counters_agree r1" using model_call_counters [OF m] assms(2) by simp
  have final: "counters_agree t" if "final_answer g tid rid c r1 = (o', t)" for c o' t
    using r1 that by (auto simp: final_answer_def Let_def) (simp add: counters_agree_def)
  show ?thesis
    using assms(1) m r1 final
    by (auto simp: run_round_def Let_def tool_steps_counters split: sum.splits prod.splits if_splits)
qed

lemma run_loop_counters: "counters_agree r \<Longrightarrow> counters_agree (snd (run_loop g tid rid r))"
proof (induction g tid rid r rule: run_loop.induct)
  case (1 g tid rid r)
  obtain out s where rr: "run_round g tid rid r = (out, s)" by fastforce
  with 1 run_round_counters [OF rr] show ?case
    by (cases out) (auto simp: run_loop.simps [of g tid rid r])
qed

end
