(* ===== verification/Graph_Result.thy ===== *)
theory Graph_Result
  imports Graph_Props
begin

text \<open>
  How a run ends: the bound on its rounds, what a successful run returns and saves, the
  terminal event of a stream, the answers to tool calls, and the independence of a run from
  its event sink.
\<close>

section \<open>Rounds\<close>

lemma run_round_counts:
  assumes "run_round g tid rid r = (out, s)"
  shows "st_iteration (r_state s) = st_iteration (r_state r) + 1"
    "r_model_calls s = r_model_calls r + 1"
    "r_iteration s = st_iteration (r_state s)"
proof -
  obtain res r1 where m: "model_call g (next_iteration r) = (res, r1)" by fastforce
  note mc = model_call_simps [OF m]
  have ts: "st_iteration (r_state (tool_steps g tid rid tcs q)) = st_iteration (r_state q)"
    "r_iteration (tool_steps g tid rid tcs q) = r_iteration q"
    "r_model_calls (tool_steps g tid rid tcs q) = r_model_calls q" for tcs q
    using tool_steps_extends [of q g tid rid tcs] by (simp_all add: extends_def)
  have *: "st_iteration (r_state s) = st_iteration (r_state r) + 1 \<and>
      r_model_calls s = r_model_calls r + 1 \<and> r_iteration s = st_iteration (r_state s)"
    using assms m mc
    by (auto simp: run_round_def final_answer_def Let_def ts split: sum.splits prod.splits if_splits)
  from * show "st_iteration (r_state s) = st_iteration (r_state r) + 1" by simp
  from * show "r_model_calls s = r_model_calls r + 1" by simp
  from * show "r_iteration s = st_iteration (r_state s)" by simp
qed

lemma run_loop_counts:
  "int (r_model_calls (snd (run_loop g tid rid r))) - int (r_model_calls r) =
     st_iteration (r_state (snd (run_loop g tid rid r))) - st_iteration (r_state r) \<and>
   st_iteration (r_state (snd (run_loop g tid rid r))) \<le> max 20 (st_iteration (r_state r)) \<and>
   (case fst (run_loop g tid rid r) of
      Inl e \<Rightarrow> ae_code e = ErrCodeMaxIterations \<longrightarrow> 20 \<le> st_iteration (r_state (snd (run_loop g tid rid r)))
    | Inr _ \<Rightarrow> st_iteration (r_state r) < 20)"
proof (induction g tid rid r rule: run_loop.induct)
  case (1 g tid rid r)
  show ?case
  proof (cases "st_iteration (r_state r) < 20")
    case False
    then show ?thesis by (simp add: run_loop.simps [of g tid rid r])
  next
    case True
    obtain out s where rr: "run_round g tid rid r = (out, s)" by fastforce
    note rc = run_round_counts [OF rr]
    show ?thesis
    proof (cases out)
      case None
      with 1 True rr rc show ?thesis
        by (auto simp: run_loop.simps [of g tid rid r] split: sum.splits)
    next
      case (Some res)
      have "ae_code e \<noteq> ErrCodeMaxIterations" if "res = Inl e" for e
        using rr Some that
        by (auto simp: run_round_def Let_def wrapRunError_def ErrCodeLLMInvoke_def ErrCodeMaxIterations_def
            split: sum.splits prod.splits if_splits)
      with Some True rr rc show ?thesis
        by (auto simp: run_loop.simps [of g tid rid r] split: sum.splits)
    qed
  qed
qed

section \<open>Messages only grow\<close>

lemma run_round_messages:
  assumes "run_round g tid rid r = (out, s)"
  shows "prefix (st_messages (r_state r)) (st_messages (r_state s)) \<and>
    st_thread (r_state s) = st_thread (r_state r)"
proof -
  obtain res r1 where m: "model_call g (next_iteration r) = (res, r1)" by fastforce
  have r1: "st_messages (r_state r1) = st_messages (r_state r)" "st_thread (r_state r1) = st_thread (r_state r)"
    using model_call_simps [OF m] by simp_all
  have ts: "st_thread (r_state (tool_steps g tid rid tcs q)) = st_thread (r_state q)"
    "prefix (st_messages (r_state q) @ ms) x \<Longrightarrow> prefix (st_messages (r_state q)) x"
    "\<exists>ms. st_messages (r_state (tool_steps g tid rid tcs q)) = st_messages (r_state q) @ ms" for tcs q ms x
    using tool_steps_extends [of q g tid rid tcs] by (auto simp: extends_def prefix_def)
  show ?thesis
  proof (cases "\<exists>content tcs. res = Inr (content, tcs) \<and> \<not> (tcs = [] \<and> content \<noteq> '''')")
    case True
    then obtain content tcs where res: "res = Inr (content, tcs)" and nf: "\<not> (tcs = [] \<and> content \<noteq> '''')"
      by blast
    define r3 where "r3 = (let r2 = add_message ''assistant'' content r1 in
      if content \<noteq> '''' then emit g (EvMessage content (st_iteration (r_state r2))) r2 else r2)"
    have s: "s = save_checkpoint g tid (tool_steps g tid rid tcs r3)"
      using assms m res nf by (auto simp: run_round_def r3_def Let_def)
    have r3: "st_messages (r_state r3) = st_messages (r_state r) @ [\<lparr>m_role = ''assistant'', m_content = content\<rparr>]"
      "st_thread (r_state r3) = st_thread (r_state r)"
      using r1 by (simp_all add: r3_def Let_def)
    obtain ms where "st_messages (r_state (tool_steps g tid rid tcs r3)) = st_messages (r_state r3) @ ms"
      using ts(3) by blast
    with s r3 ts(1) show ?thesis by simp
  next
    case False
    with assms m r1 show ?thesis
      by (cases res) (auto simp: run_round_def final_answer_def Let_def split: if_splits)
  qed
qed

lemma run_loop_messages:
  "prefix (st_messages (r_state r)) (st_messages (r_state (snd (run_loop g tid rid r))))"
proof (induction g tid rid r rule: run_loop.induct)
  case (1 g tid rid r)
  obtain out s where rr: "run_round g tid rid r = (out, s)" by fastforce
  show ?case
  proof (cases "st_iteration (r_state r) < 20 \<and> out = None")
    case True
    with 1 rr have "prefix (st_messages (r_state s)) (st_messages (r_state (snd (run_loop g tid rid s))))" by simp
    with True rr run_round_messages [OF rr] show ?thesis
      by (simp add: run_loop.simps [of g tid rid r]) (metis prefix_order.trans)
  next
    case False
    with rr run_round_messages [OF rr] show ?thesis
      by (auto simp: run_loop.simps [of g tid rid r] split: option.splits)
  qed
qed

section \<open>A successful run\<close>

definition answered :: "'w graph \<Rightarrow> string \<Rightarrow> string \<Rightarrow> Output \<Rightarrow> 'w run \<Rightarrow> bool" where
  "answered g tid rid out s \<longleftrightarrow>
     out_final out \<noteq> '''' \<and> out_thread out = tid \<and> out_request out = rid \<and>
     out_messages out = st_messages (r_state s) \<and> st_final (r_state s) = out_final out \<and>
     last (out_messages out) = \<lparr>m_role = ''assistant'', m_content = out_final out\<rparr> \<and>
     (\<exists>tr w. r_trace s = tr @ [Saved tid (r_state s) (fst (g_save g tid (r_state s) w))]
          @ onlyif (g_sink g) (Emitted (EvFinal out)) \<and>
        r_world s = snd (g_save g tid (r_state s) w))"

lemma run_round_answer:
  assumes "run_round g tid rid r = (Some (Inr out), s)" shows "answered g tid rid out s"
proof -
  obtain res r1 where m: "model_call g (next_iteration r) = (res, r1)" by fastforce
  with assms obtain content where "res = Inr (content, [])" "content \<noteq> ''''"
    and "final_answer g tid rid content r1 = (out, s)"
    by (auto simp: run_round_def Let_def split: sum.splits prod.splits if_splits)
  then show ?thesis by (auto simp: final_answer_def Let_def answered_def)
qed

lemma run_loop_answer:
  "run_loop g tid rid r = (Inr out, s) \<Longrightarrow> answered g tid rid out s"
proof (induction g tid rid r rule: run_loop.induct)
  case (1 g tid rid r)
  obtain o' s' where rr: "run_round g tid rid r = (o', s')" by fastforce
  with 1 run_round_answer [of g tid rid r out s] show ?case
    by (cases o') (auto simp: run_loop.simps [of g tid rid r] split: if_splits)
qed

section \<open>Terminal events\<close>

fun terminal :: "event \<Rightarrow> bool" where
  "terminal (EvFinal _) = True"
| "terminal (EvError _) = True"
| "terminal _ = False"

lemma emitted_simps [simp]:
  "emitted [] = []" "emitted (es @ fs) = emitted es @ emitted fs"
  "emitted (Emitted ev # es) = ev # emitted es"
  "emitted (Loaded t # es) = emitted es" "emitted (ModelCalled i j er # es) = emitted es"
  "emitted (Approval me n x a # es) = emitted es" "emitted (Audited en # es) = emitted es"
  "emitted (ToolRan n as res # es) = emitted es" "emitted (ToolLogged n as res # es) = emitted es"
  "emitted (MemoryPut t k v # es) = emitted es" "emitted (Saved t st er # es) = emitted es"
  "emitted (Summary sm # es) = emitted es"
  by (simp_all add: emitted_def List.map_filter_def)

definition no_terminal :: "effect list \<Rightarrow> bool" where
  "no_terminal es = list_all (\<lambda>ev. \<not> terminal ev) (emitted es)"

interpretation nt: tool_trace g no_terminal for g
proof (unfold_locales, goal_cases)
  case (3 tid rid tc d n m)
  then show ?case
    by (cases rule: tool_deltaE)
      (auto simp: no_terminal_def ask_effects_def run_effects_def audited_def)
qed (simp_all add: no_terminal_def)

definition result_events :: "'w graph \<Rightarrow> AgentError + Output \<Rightarrow> event list" where
  "result_events g res = (case res of Inr out \<Rightarrow> onlyif (g_sink g) (EvFinal out) | Inl _ \<Rightarrow> [])"

lemma model_call_events:
  "model_call g r = (res, s) \<Longrightarrow> \<exists>d. r_trace s = r_trace r @ d \<and> no_terminal d"
  by (auto simp: model_call_def Let_def no_terminal_def split: prod.splits)

lemma run_round_events:
  assumes "run_round g tid rid r = (out, s)"
  shows "\<exists>d. emitted (r_trace s) = emitted (r_trace r) @ d
      @ (case out of Some res \<Rightarrow> result_events g res | None \<Rightarrow> []) \<and> list_all (\<lambda>ev. \<not> terminal ev) d"
proof -
  obtain res r1 where m: "model_call g (next_iteration r) = (res, r1)" by fastforce
  obtain d1 where d1: "r_trace r1 = r_trace r @ d1" "list_all (\<lambda>ev. \<not> terminal ev) (emitted d1)"
    using model_call_events [OF m] by (auto simp: no_terminal_def)
  show ?thesis
  proof (cases "\<exists>content tcs. res = Inr (content, tcs) \<and> \<not> (tcs = [] \<and> content \<noteq> '''')")
    case True
    then obtain content tcs where res: "res = Inr (content, tcs)" and nf: "\<not> (tcs = [] \<and> content \<noteq> '''')"
      by blast
    define r3 where "r3 = (let r2 = add_message ''assistant'' content r1 in
      if content \<noteq> '''' then emit g (EvMessage content (st_iteration (r_state r2))) r2 else r2)"
    have s: "s = save_checkpoint g tid (tool_steps g tid rid tcs r3)" and out: "out = None"
      using assms m res nf by (auto simp: run_round_def r3_def Let_def)
    obtain d2 where d2: "r_trace (tool_steps g tid rid tcs r3) = r_trace r3 @ d2" "no_terminal d2"
      using nt.tool_steps_adds by blast
    have "\<exists>d3. emitted (r_trace r3) = emitted (r_trace r1) @ d3 \<and> list_all (\<lambda>ev. \<not> terminal ev) d3"
      by (auto simp: r3_def Let_def)
    with d1 d2 out s show ?thesis by (auto simp: no_terminal_def)
  next
    case False
    with assms m d1 show ?thesis
      by (cases res) (auto simp: run_round_def final_answer_def Let_def result_events_def split: if_splits)
  qed
qed

lemma run_loop_events:
  "\<exists>d. emitted (r_trace (snd (run_loop g tid rid r))) =
     emitted (r_trace r) @ d @ result_events g (fst (run_loop g tid rid r)) \<and>
     list_all (\<lambda>ev. \<not> terminal ev) d"
proof (induction g tid rid r rule: run_loop.induct)
  case (1 g tid rid r)
  show ?case
  proof (cases "st_iteration (r_state r) < 20")
    case False
    then show ?thesis by (simp add: run_loop.simps [of g tid rid r] result_events_def)
  next
    case True
    obtain out s where rr: "run_round g tid rid r = (out, s)" by fastforce
    obtain d where d: "emitted (r_trace s) = emitted (r_trace r) @ d
        @ (case out of Some res \<Rightarrow> result_events g res | None \<Rightarrow> [])" "list_all (\<lambda>ev. \<not> terminal ev) d"
      using run_round_events [OF rr] by blast
    show ?thesis
    proof (cases out)
      case None
      from "1" [OF True rr [symmetric] None] obtain d' where "emitted (r_trace (snd (run_loop g tid rid s))) =
          emitted (r_trace s) @ d' @ result_events g (fst (run_loop g tid rid s))"
        "list_all (\<lambda>ev. \<not> terminal ev) d'" by blast
      with d None True rr show ?thesis
        by (intro exI [of _ "d @ d'"]) (simp add: run_loop.simps [of g tid rid r])
    next
      case (Some res)
      with d True rr show ?thesis by (auto simp: run_loop.simps [of g tid rid r])
    qed
  qed
qed

lemma finish_events:
  "emitted (r_trace (finish_run g tid rid res r)) =
     emitted (r_trace r) @ (case res of Inl e \<Rightarrow> onlyif (g_sink g) (EvError (AgentError_Payload e)) | Inr _ \<Rightarrow> [])"
  by (simp add: finish_run_def Let_def split: sum.split)


section \<open>Answers to tool calls\<close>

definition tool_message :: "'w graph \<Rightarrow> ToolResult \<Rightarrow> Message" where
  "tool_message g t = \<lparr>m_role = ''tool'', m_content = formatToolMessage g t\<rparr>"

definition registered :: "'w graph \<Rightarrow> ToolCall \<Rightarrow> bool" where
  "registered g tc = (map_of (g_tools g) (tc_name tc) \<noteq> None)"

text \<open>
  The type of a tool result: a success has neither error nor code, a failure has no data and
  the code of what failed; a refusal only comes of a tool that needs approval.
\<close>

definition result_typed :: "'w graph \<Rightarrow> ToolResult \<Rightarrow> bool" where
  "result_typed g t \<longleftrightarrow>
     map_of (g_tools g) (tr_tool t) \<noteq> None \<and>
     (if tr_ok t then tr_error t = '''' \<and> tr_code t = ''''
      else tr_data t = GNil \<and>
        (tr_code t = ToolCodeExecutionError \<or> tr_code t = ToolCodeHITLRejected \<and> ShouldInterrupt (g_hitl g) (tr_tool t)))"

definition answers :: "'w graph \<Rightarrow> ToolCall list \<Rightarrow> ToolResult list \<Rightarrow> bool" where
  "answers g tcs ts \<longleftrightarrow>
     map (\<lambda>t. (tr_tool t, tr_call_id t)) ts = map (\<lambda>tc. (tc_name tc, tc_id tc)) (filter (registered g) tcs) \<and>
     list_all (result_typed g) ts"

lemma run_tool_answer:
  assumes "registered g tc"
  shows "\<exists>t. st_messages (r_state (run_tool g tid tool tc r)) = st_messages (r_state r) @ [tool_message g t] \<and>
     answers g [tc] [t]"
proof -
  obtain res s where v: "validated_call g tool tc r = (res, s)" by fastforce
  then show ?thesis using validated_call_simps(1) [OF v] assms
    by (intro exI [of _ "result_of_call tc res"])
      (simp add: run_tool_def Let_def tool_message_def result_of_call_def answers_def result_typed_def
        registered_def split: sum.split)
qed

lemma ask_approval_answer:
  assumes "ask_approval g tid rid tc r = (ok, s)" and "registered g tc" and "ShouldInterrupt (g_hitl g) (tc_name tc)"
  shows "if ok then st_messages (r_state s) = st_messages (r_state r)
    else \<exists>t. st_messages (r_state s) = st_messages (r_state r) @ [tool_message g t] \<and> answers g [tc] [t]"
proof (cases ok)
  case True
  with assms show ?thesis
    by (auto simp: ask_approval_def Let_def split: prod.splits option.splits)
next
  case False
  with assms(1) obtain e r6 where "s = add_message ''tool'' (formatToolMessage g
      \<lparr>tr_tool = tc_name tc, tr_call_id = tc_id tc, tr_ok = False, tr_data = GNil, tr_error = e,
       tr_code = ToolCodeHITLRejected\<rparr>) r6" "st_messages (r_state r6) = st_messages (r_state r)"
    by (auto simp: ask_approval_def Let_def split: prod.splits option.splits)
  with False assms(2,3) show ?thesis
    by (auto simp: tool_message_def answers_def result_typed_def registered_def)
qed

lemma tool_step_answer:
  "\<exists>ts. st_messages (r_state (tool_step g tid rid tc r)) = st_messages (r_state r) @ map (tool_message g) ts \<and>
     answers g [tc] ts"
proof (cases "map_of (g_tools g) (tc_name tc)")
  case None
  then show ?thesis by (simp add: tool_step_def registered_def answers_def)
next
  case (Some tool)
  then have reg: "registered g tc" by (simp add: registered_def)
  define r1 where "r1 = emit g (EvToolCall (tc_name tc) (tc_arguments tc) (st_iteration (r_state r))) r"
  have r1: "st_messages (r_state r1) = st_messages (r_state r)" by (simp add: r1_def)
  obtain ok r2 where a: "ask_approval g tid rid tc r1 = (ok, r2)" by fastforce
  have "\<exists>t. st_messages (r_state (tool_step g tid rid tc r)) = st_messages (r_state r) @ [tool_message g t] \<and>
      answers g [tc] [t]"
    using run_tool_answer [OF reg, of tid tool r1] run_tool_answer [OF reg, of tid tool r2]
      ask_approval_answer [OF a reg] r1 a Some
    by (auto simp: tool_step_def r1_def [symmetric] Let_def split: if_splits)
  then obtain t where "st_messages (r_state (tool_step g tid rid tc r)) = st_messages (r_state r) @ [tool_message g t]"
    "answers g [tc] [t]" by blast
  then show ?thesis by (intro exI [of _ "[t]"]) simp
qed

lemma answers_append: "answers g tcs ts \<Longrightarrow> answers g tcs' ts' \<Longrightarrow> answers g (tcs @ tcs') (ts @ ts')"
  by (simp add: answers_def)

lemma tool_steps_answers:
  "\<exists>ts. st_messages (r_state (tool_steps g tid rid tcs r)) = st_messages (r_state r) @ map (tool_message g) ts \<and>
     answers g tcs ts"
proof (induction tcs arbitrary: r)
  case Nil
  then show ?case by (simp add: answers_def)
next
  case (Cons tc tcs)
  obtain ts where ts: "st_messages (r_state (tool_step g tid rid tc r)) = st_messages (r_state r) @ map (tool_message g) ts"
    "answers g [tc] ts"
    using tool_step_answer by blast
  obtain us where "st_messages (r_state (tool_steps g tid rid tcs (tool_step g tid rid tc r))) =
      st_messages (r_state (tool_step g tid rid tc r)) @ map (tool_message g) us" "answers g tcs us"
    using Cons.IH by blast
  with ts answers_append [of g "[tc]" ts tcs us] show ?case by (intro exI [of _ "ts @ us"]) simp
qed

section \<open>The event sink only observes\<close>

text \<open>
  Erasing the emitted events of a run with a sink gives the run without: every stage
  commutes with \<open>silent\<close>.
\<close>

fun not_emitted :: "effect \<Rightarrow> bool" where
  "not_emitted (Emitted _) = False"
| "not_emitted _ = True"

definition silent :: "'w run \<Rightarrow> 'w run" where
  "silent r = r\<lparr>r_trace := filter not_emitted (r_trace r)\<rparr>"

definition mute :: "'w graph \<Rightarrow> 'w graph" where
  "mute g = g\<lparr>g_sink := False\<rparr>"

lemma mute_simps [simp]:
  "g_llm (mute g) = g_llm g" "g_tools (mute g) = g_tools g" "g_prompt (mute g) = g_prompt g"
  "g_load (mute g) = g_load g" "g_save (mute g) = g_save g" "g_put (mute g) = g_put g"
  "g_hitl (mute g) = g_hitl g" "g_approver (mute g) = g_approver g" "g_audit (mute g) = g_audit g"
  "g_include_args (mute g) = g_include_args g" "g_sink (mute g) = False" "g_hash (mute g) = g_hash g"
  "g_quote (mute g) = g_quote g" "g_fmt (mute g) = g_fmt g" "g_parse (mute g) = g_parse g"
  "g_marshal_error (mute g) = g_marshal_error g"
  by (simp_all add: mute_def)

lemma mute_helpers [simp]:
  "formatToolMessage (mute g) = formatToolMessage g" "call_args (mute g) = call_args g"
  "auditArgsPayload (mute g) = auditArgsPayload g" "request_entry (mute g) = request_entry g"
  by (auto simp: formatToolMessage_def call_args_def auditArgsPayload_def request_entry_def fun_eq_iff
      split: option.split)

lemma silent_fields [simp]:
  "r_state (silent r) = r_state r" "r_world (silent r) = r_world r"
  "r_model_calls (silent r) = r_model_calls r" "r_model_errors (silent r) = r_model_errors r"
  "r_tool_calls (silent r) = r_tool_calls r" "r_tool_errors (silent r) = r_tool_errors r"
  "r_iteration (silent r) = r_iteration r"
  by (simp_all add: silent_def)

lemma silent_updates [simp]:
  "silent (r\<lparr>r_world := w\<rparr>) = (silent r)\<lparr>r_world := w\<rparr>"
  "silent (r\<lparr>r_state := st\<rparr>) = (silent r)\<lparr>r_state := st\<rparr>"
  "silent (r\<lparr>r_model_calls := n\<rparr>) = (silent r)\<lparr>r_model_calls := n\<rparr>"
  "silent (r\<lparr>r_model_errors := n\<rparr>) = (silent r)\<lparr>r_model_errors := n\<rparr>"
  "silent (r\<lparr>r_tool_calls := n\<rparr>) = (silent r)\<lparr>r_tool_calls := n\<rparr>"
  "silent (r\<lparr>r_tool_errors := n\<rparr>) = (silent r)\<lparr>r_tool_errors := n\<rparr>"
  "silent (r\<lparr>r_iteration := i\<rparr>) = (silent r)\<lparr>r_iteration := i\<rparr>"
  by (simp_all add: silent_def)

lemma silent_ops [simp]:
  "silent (emit g ev r) = silent r" "emit (mute g) ev r = r"
  "not_emitted e \<Longrightarrow> silent (record_effect e r) = record_effect e (silent r)"
  "silent (add_message ro c r) = add_message ro c (silent r)"
  "silent (next_iteration r) = next_iteration (silent r)"
  by (simp_all add: emit_def record_effect_def silent_def add_message_def next_iteration_def)

lemma silent_audit [simp]: "silent (logHITLAudit g en r) = logHITLAudit (mute g) en (silent r)"
  by (simp add: logHITLAudit_def split: option.split)

lemma silent_save [simp]: "silent (save_checkpoint g tid r) = save_checkpoint (mute g) tid (silent r)"
  by (simp add: save_checkpoint_def split: prod.split)

lemma silent_model_call:
  "apsnd silent (model_call g r) = model_call (mute g) (silent r)"
  by (simp add: model_call_def Let_def split: prod.split)

lemma logged_world:
  "r_world (logHITLAudit g en r) = (case g_audit g of None \<Rightarrow> r_world r | Some lg \<Rightarrow> snd (lg en (r_world r)))"
  by (simp add: logHITLAudit_def split: option.split)

lemma silent_ask_approval:
  "apsnd silent (ask_approval g tid rid tc r) = ask_approval (mute g) tid rid tc (silent r)"
proof -
  let ?it = "st_iteration (r_state r)"
  let ?w = "case g_audit g of None \<Rightarrow> r_world r
    | Some lg \<Rightarrow> snd (lg (request_entry g tid rid ?it tc) (r_world r))"
  obtain d err w1 where a: "g_approver g \<lparr>am_thread = tid, am_request = rid, am_call = tc_id tc, am_iteration = ?it\<rparr>
      (tc_name tc) (tc_arguments tc) ?w = ((d, err), w1)" by (metis surj_pair)
  then show ?thesis by (cases err; cases "g_audit g") (simp_all add: ask_approval_def Let_def logged_world)
qed

lemma silent_validated_call:
  "apsnd silent (validated_call g tool tc r) = validated_call (mute g) tool tc (silent r)"
  by (simp add: validated_call_def Let_def split: prod.split option.split)

lemma silent_run_tool: "silent (run_tool g tid tool tc r) = run_tool (mute g) tid tool tc (silent r)"
proof -
  obtain res s where v: "validated_call g tool tc r = (res, s)" by fastforce
  with silent_validated_call [of g tool tc r] have "validated_call (mute g) tool tc (silent r) = (res, silent s)"
    by simp
  with v show ?thesis by (simp add: run_tool_def Let_def)
qed

lemma silent_tool_step: "silent (tool_step g tid rid tc r) = tool_step (mute g) tid rid tc (silent r)"
proof (cases "map_of (g_tools g) (tc_name tc)")
  case None
  then show ?thesis by (simp add: tool_step_def)
next
  case (Some tool)
  let ?r1 = "emit g (EvToolCall (tc_name tc) (tc_arguments tc) (st_iteration (r_state r))) r"
  obtain ok r2 where a: "ask_approval g tid rid tc ?r1 = (ok, r2)" by fastforce
  with silent_ask_approval [of g tid rid tc ?r1]
  have "ask_approval (mute g) tid rid tc (silent r) = (ok, silent r2)" by simp
  with a Some show ?thesis by (simp add: tool_step_def Let_def silent_run_tool)
qed

lemma silent_tool_steps: "silent (tool_steps g tid rid tcs r) = tool_steps (mute g) tid rid tcs (silent r)"
  by (induction tcs arbitrary: r) (simp_all add: silent_tool_step)

lemma silent_message_state [simp]: "r_state (add_message ro c (silent r)) = r_state (add_message ro c r)"
  by (simp add: add_message_def)

lemma silent_run_round: "apsnd silent (run_round g tid rid r) = run_round (mute g) tid rid (silent r)"
proof -
  obtain res r1 where m: "model_call g (next_iteration r) = (res, r1)" by fastforce
  with silent_model_call [of g "next_iteration r"]
  have "model_call (mute g) (next_iteration (silent r)) = (res, silent r1)" by simp
  with m show ?thesis
    by (cases res) (auto simp: run_round_def final_answer_def Let_def silent_tool_steps split: prod.split)
qed

lemma silent_run_loop: "apsnd silent (run_loop g tid rid r) = run_loop (mute g) tid rid (silent r)"
proof (induction g tid rid r rule: run_loop.induct)
  case (1 g tid rid r)
  obtain out s where rr: "run_round g tid rid r = (out, s)" by fastforce
  with silent_run_round [of g tid rid r] have rs: "run_round (mute g) tid rid (silent r) = (out, silent s)" by simp
  show ?case
  proof (cases "st_iteration (r_state r) < 20 \<and> out = None")
    case True
    with "1" [OF _ rr [symmetric]] rr rs show ?thesis
      by (simp add: run_loop.simps [of g tid rid r] run_loop.simps [of "mute g" tid rid "silent r"])
  next
    case False
    with rr rs show ?thesis
      by (auto simp: run_loop.simps [of g tid rid r] run_loop.simps [of "mute g" tid rid "silent r"]
          split: option.splits)
  qed
qed

lemma silent_finish: "silent (finish_run g tid rid res r) = finish_run (mute g) tid rid res (silent r)"
  by (simp add: finish_run_def summary_of_def Let_def split: sum.split)

lemma silent_start [simp]: "not_emitted e \<Longrightarrow> silent (start_run st w [e]) = start_run st w [e]"
  by (simp add: start_run_def silent_def)

lemma silent_Run: "apsnd silent (Run g nano input w) = Run (mute g) nano input w"
proof -
  let ?tid = "in_thread input" and ?rid = "newRequestID (in_thread input) nano"
  obtain ld w1 where ld: "g_load g ?tid w = (ld, w1)" by fastforce
  have ist: "initial_state (mute g) = initial_state g" by (auto simp: initial_state_def fun_eq_iff split: option.split)
  show ?thesis
  proof (cases ld)
    case (Inl e)
    with ld ist show ?thesis by (simp add: Run_def Let_def silent_finish)
  next
    case (Inr loaded)
    define r0 where "r0 = start_run (initial_state g input loaded) w1 [Loaded ?tid]"
    obtain res r where lp: "run_loop g ?tid ?rid r0 = (res, r)" by fastforce
    have "silent r0 = r0" by (simp add: r0_def)
    with lp silent_run_loop [of g ?tid ?rid r0] have "run_loop (mute g) ?tid ?rid r0 = (res, silent r)" by simp
    with ld lp Inr ist show ?thesis by (simp add: Run_def Let_def silent_finish r0_def)
  qed
qed

end
