(* ===== verification/Graph_Demo.thy ===== *)
theory Graph_Demo
  imports Graph_Result
begin

text \<open>
  A scripted graph for the witnesses: the world is the list of answers the model will give,
  the only tool echoes its \<open>text\<close> argument, the checkpointer returns a fixed state.
\<close>

type_synonym script = "(string + (string \<times> ToolCall list)) list"

definition dq :: string where "dq = [CHR 0x22]"

fun demo_llm :: "Message list \<Rightarrow> llm_tool list \<Rightarrow> script \<Rightarrow> (string + (string \<times> ToolCall list)) \<times> script" where
  "demo_llm ms ts [] = (Inl ''no reply'', [])"
| "demo_llm ms ts (x # xs) = (x, xs)"

definition echo_call :: "args option \<Rightarrow> script \<Rightarrow> (string + gval) \<times> script" where
  "echo_call as w = (case lookup_arg as ''text'' of Some v \<Rightarrow> (Inr v, w) | None \<Rightarrow> (Inl ''no text'', w))"

definition echo_tool :: "script tool" where
  "echo_tool = \<lparr>t_name = ''echo'', t_description = ''echoes'',
     t_parameters = PMap [(''type'', GStr ''object''), (''required'', GArr [GStr ''text'']),
       (''properties'', GObj [(''text'', GObj [(''type'', GStr ''string'')])])],
     t_call = echo_call\<rparr>"

definition demo_state :: "int \<Rightarrow> State" where
  "demo_state i = \<lparr>st_messages = [\<lparr>m_role = ''system'', m_content = ''s''\<rparr>], st_tool_calls = [],
     st_thread = ''t'', st_iteration = i, st_final = ''''\<rparr>"

definition demo_graph :: "approval \<Rightarrow> int \<Rightarrow> script graph" where
  "demo_graph a i = \<lparr>
     g_llm = demo_llm, g_tools = tool_map [echo_tool], g_prompt = ''p'',
     g_load = (\<lambda>t w. (Inr (Some (demo_state i)), w)), g_save = (\<lambda>t s w. (None, w)),
     g_put = (\<lambda>t k v w. (None, w)), g_hitl = [(''echo'', True)],
     g_approver = (\<lambda>m n x w. (a, w)), g_audit = Some (\<lambda>e w. (None, w)), g_include_args = False,
     g_sink = True, g_hash = (\<lambda>s. s), g_quote = (\<lambda>s. s), g_fmt = (\<lambda>_. None), g_parse = (\<lambda>_. None),
     g_marshal_error = (\<lambda>_. ''unsupported'')\<rparr>"

definition demo_input :: Input where
  "demo_input = \<lparr>in_messages = [\<lparr>m_role = ''user'', m_content = ''hi''\<rparr>], in_thread = ''t''\<rparr>"

definition echo_request :: ToolCall where
  "echo_request = \<lparr>tc_id = ''1'', tc_name = ''echo'',
     tc_arguments = ''{'' @ dq @ ''text'' @ dq @ '':'' @ dq @ ''yo'' @ dq @ ''}''\<rparr>"

definition bad_request :: ToolCall where
  "bad_request = \<lparr>tc_id = ''2'', tc_name = ''echo'', tc_arguments = ''{}''\<rparr>"

text \<open>The model asks for the tool, then answers.\<close>

definition demo_script :: script where
  "demo_script = [Inr ('''', [echo_request]), Inr (''done'', [])]"

end
