(* ===== verification/Graph_Claims.thy ===== *)
theory Graph_Claims
  imports Graph_Demo
begin

text \<open>
  The properties of the executor \<open>agent/graph.go\<close>, each over \<open>Run\<close> or
  \<open>Stream\<close> for every model, tool set, approver, checkpointer and logger.
\<close>

section \<open>Two more instances of \<open>run_trace\<close>\<close>

text \<open>A tool is run only when it is registered and its arguments pass its schema.\<close>

fun ran_valid :: "'w graph \<Rightarrow> effect \<Rightarrow> bool" where
  "ran_valid g (ToolRan n as res) =
     (case map_of (g_tools g) n of
        Some tool \<Rightarrow> ValidateAgainstSchema (Some (GenerateParametersSchema (t_parameters tool))) as = None
      | None \<Rightarrow> False)"
| "ran_valid g _ = True"

lemma ran_valid_other: "\<not> tool_effect e \<Longrightarrow> ran_valid g e"
  by (cases e) simp_all

interpretation rv: run_trace g "list_all (ran_valid g)" for g
proof (unfold_locales, goal_cases)
  case (3 tid rid tc d n m)
  then show ?case
    by (cases rule: tool_deltaE) (auto simp: ask_effects_def run_effects_def audited_def call_ok_def)
qed (simp_all add: ran_valid_other)

text \<open>Every approval of a run is an answer of the graph's approver.\<close>

fun from_approver :: "'w graph \<Rightarrow> effect \<Rightarrow> bool" where
  "from_approver g (Approval meta n x a) = (\<exists>w. fst (g_approver g meta n x w) = a)"
| "from_approver g _ = True"

lemma from_approver_other: "\<not> tool_effect e \<Longrightarrow> from_approver g e"
  by (cases e) simp_all

interpretation fa: run_trace g "list_all (from_approver g)" for g
proof (unfold_locales, goal_cases)
  case (3 tid rid tc d n m)
  then show ?case
    by (cases rule: tool_deltaE) (auto simp: ask_effects_def run_effects_def audited_def asked_def)
qed (simp_all add: from_approver_other)

definition refusing :: "'w graph \<Rightarrow> effect \<Rightarrow> bool" where
  "refusing g e = (case e of Approval _ _ _ a \<Rightarrow> snd a \<noteq> None | _ \<Rightarrow> True)"

lemma hitl_safe_refused:
  "hitl_safe g None es \<Longrightarrow> \<forall>e \<in> set es. refusing g e \<Longrightarrow> ToolRan n as res \<in> set es \<Longrightarrow>
   \<not> ShouldInterrupt (g_hitl g) n"
proof (induction es)
  case (Cons e es)
  then show ?case by (cases e) (auto simp: refusing_def split: if_splits)
qed simp

lemma refused_never_runs:
  assumes "\<And>meta m x v. snd (fst (g_approver g meta m x v)) \<noteq> None"
    and "ShouldInterrupt (g_hitl g) n"
  shows "ToolRan n as res \<notin> set (r_trace (snd (Run g nano input w)))"
proof
  assume n: "ToolRan n as res \<in> set (r_trace (snd (Run g nano input w)))"
  have r: "\<forall>e \<in> set (r_trace (snd (Run g nano input w))). refusing g e"
  proof
    fix e assume "e \<in> set (r_trace (snd (Run g nano input w)))"
    then have "from_approver g e" using fa.run_holds [of g nano input w] by (simp add: list_all_iff)
    then show "refusing g e"
    proof (cases e)
      case (Approval meta m x a)
      with \<open>from_approver g e\<close> obtain v where "fst (g_approver g meta m x v) = a" by auto
      with assms(1) [of meta m x v] Approval show ?thesis by (simp add: refusing_def)
    qed (simp_all add: refusing_def)
  qed
  show False
    using hitl_safe_refused [OF hs.run_holds [THEN spec] r n] assms(2) by simp
qed

section \<open>Helpers over \<open>Run\<close>\<close>

text \<open>The state a run starts from, and what its checkpointer answered.\<close>

definition loaded_state :: "'w graph \<Rightarrow> Input \<Rightarrow> 'w \<Rightarrow> State" where
  "loaded_state g input w =
     initial_state g input (case fst (g_load g (in_thread input) w) of Inl _ \<Rightarrow> None | Inr s \<Rightarrow> s)"

lemma Run_cases:
  obtains (failed) e where "fst (g_load g (in_thread input) w) = Inl e"
    and "Run g nano input w =
      (let res = Inl (wrapRunError ErrCodeCheckpointLoad ''failed to load checkpoint'' (in_thread input)
             (newRequestID (in_thread input) nano) e)
       in (res, finish_run g (in_thread input) (newRequestID (in_thread input) nano) res
             (start_run (loaded_state g input w) (snd (g_load g (in_thread input) w)) [Loaded (in_thread input)])))"
  | (looped) s where "fst (g_load g (in_thread input) w) = Inr s"
    and "Run g nano input w =
      (let lp = run_loop g (in_thread input) (newRequestID (in_thread input) nano)
             (start_run (loaded_state g input w) (snd (g_load g (in_thread input) w)) [Loaded (in_thread input)])
       in (fst lp, finish_run g (in_thread input) (newRequestID (in_thread input) nano) (fst lp) (snd lp)))"
proof -
  obtain ld w1 where ld: "g_load g (in_thread input) w = (ld, w1)" by fastforce
  show ?thesis
  proof (cases ld)
    case (Inl e)
    with ld failed show ?thesis by (simp add: Run_def Let_def loaded_state_def)
  next
    case (Inr s)
    with ld looped show ?thesis by (simp add: Run_def Let_def loaded_state_def case_prod_beta)
  qed
qed

lemma finish_run_simps [simp]:
  "r_state (finish_run g tid rid res r) = r_state r" "r_world (finish_run g tid rid res r) = r_world r"
  "r_model_calls (finish_run g tid rid res r) = r_model_calls r"
  "r_model_errors (finish_run g tid rid res r) = r_model_errors r"
  "r_tool_calls (finish_run g tid rid res r) = r_tool_calls r"
  "r_tool_errors (finish_run g tid rid res r) = r_tool_errors r"
  "r_iteration (finish_run g tid rid res r) = r_iteration r"
  by (simp_all add: finish_run_def Let_def split: sum.split)

lemma finish_run_trace:
  "r_trace (finish_run g tid rid res r) = r_trace r @ Summary (summary_of tid rid res r) #
     (case res of Inl e \<Rightarrow> onlyif (g_sink g) (Emitted (EvError (AgentError_Payload e))) | Inr _ \<Rightarrow> [])"
  by (simp add: finish_run_def Let_def split: sum.split)

lemma start_run_simps [simp]:
  "r_state (start_run st w tr) = st" "r_world (start_run st w tr) = w" "r_trace (start_run st w tr) = tr"
  "r_model_calls (start_run st w tr) = 0" "r_model_errors (start_run st w tr) = 0"
  "r_tool_calls (start_run st w tr) = 0" "r_tool_errors (start_run st w tr) = 0"
  "r_iteration (start_run st w tr) = 0"
  by (simp_all add: start_run_def)

lemma initial_iteration:
  "st_iteration (loaded_state g input w) =
     (case fst (g_load g (in_thread input) w) of Inr (Some s) \<Rightarrow> st_iteration s | _ \<Rightarrow> 0)"
  by (auto simp: loaded_state_def initial_state_def Let_def split: sum.split option.split)

text \<open>The trace has a summary, and the summary counts what came before it.\<close>

definition summary_agrees :: "'w run \<Rightarrow> bool" where
  "summary_agrees r \<longleftrightarrow>
     (\<exists>tr1 sm tr2. r_trace r = tr1 @ Summary sm # tr2 \<and>
        rs_model_calls sm = count_effects model_logs tr1 \<and> rs_model_errors sm = count_effects model_failures tr1 \<and>
        rs_tool_calls sm = count_effects tool_logs tr1 \<and> rs_tool_errors sm = count_effects tool_failures tr1 \<and>
        rs_iterations sm = r_iteration r)"

section \<open>Properties\<close>

text \<open>
  C1: in every run, whatever the model asks for, a tool configured for approval runs only
  right after an approval of that tool call that returned no error, with exactly the
  arguments the approver was shown, and one approval serves one execution.
\<close>

theorem approvals_precede_tools: "hitl_safe g None (r_trace (snd (Run g nano input w)))"
  by (rule hs.run_holds [THEN spec])

text \<open>
  C2: every tool execution of a run is of a registered tool, on arguments that
  \<open>ValidateAgainstSchema\<close> accepts for the schema generated from its parameters.
\<close>

theorem tools_run_on_valid_arguments: "list_all (ran_valid g) (r_trace (snd (Run g nano input w)))"
  by (rule rv.run_holds)

text \<open>
  An approver that never answers without an error keeps every tool that needs approval
  from running, in every run.
\<close>

theorem unapproved_tool_never_runs:
  assumes "\<And>meta m x v. snd (fst (g_approver g meta m x v)) \<noteq> None"
    and "ShouldInterrupt (g_hitl g) n"
  shows "ToolRan n as res \<notin> set (r_trace (snd (Run g nano input w)))"
  using refused_never_runs [OF assms] by blast

lemma unapproved_tool_never_runs_witness:
  "\<forall>as res. ToolRan ''echo'' as res \<notin>
     set (r_trace (snd (Run (demo_graph (''no'', Some ''rejected'') 0) 7 demo_input demo_script)))"
  by (intro allI unapproved_tool_never_runs) (simp_all add: demo_graph_def ShouldInterrupt_def)


text \<open>
  C4: with an audit logger, the approvals of a run are logged completely and in order:
  each is preceded by its request entry and followed by its decision entry, which agree with
  it on tool, call, request, decision and outcome, and no other entry is logged.
\<close>

theorem audit_is_complete:
  "g_audit g = None \<or> audit_triples (filter hitl_effect (r_trace (snd (Run g nano input w))))"
  by (rule at.run_holds)

text \<open>
  C5: a run calls the model exactly as often as it advances the thread's iteration, and
  never takes that iteration above 20 (unless it was loaded so).
\<close>

theorem model_calls_bounded:
  "int (r_model_calls (snd (Run g nano input w))) =
     st_iteration (r_state (snd (Run g nano input w))) - st_iteration (loaded_state g input w) \<and>
   st_iteration (r_state (snd (Run g nano input w))) \<le> max 20 (st_iteration (loaded_state g input w))"
proof (cases rule: Run_cases [of g input w nano])
  case (looped s)
  then show ?thesis
    using run_loop_counts [of g "in_thread input" "newRequestID (in_thread input) nano"
        "start_run (loaded_state g input w) (snd (g_load g (in_thread input) w)) [Loaded (in_thread input)]"]
    by (simp add: Let_def)
qed (simp add: Let_def)

text \<open>
  C6: the iteration is kept in the checkpoint: on a thread whose checkpoint has reached 20,
  every later run fails with \<open>max_iterations_reached\<close> without calling the model,
  a tool or the checkpointer's \<open>Save\<close>.
\<close>

theorem exhausted_thread:
  assumes "g_load g (in_thread input) w = (Inr (Some st), w1)" and "20 \<le> st_iteration st"
  shows "(\<exists>e. fst (Run g nano input w) = Inl e \<and> ae_code e = ErrCodeMaxIterations) \<and>
    r_world (snd (Run g nano input w)) = w1 \<and> r_model_calls (snd (Run g nano input w)) = 0"
proof -
  have "\<not> st_iteration (loaded_state g input w) < 20" using assms by (simp add: initial_iteration)
  with assms show ?thesis
    by (cases rule: Run_cases [of g input w nano])
      (simp_all add: Let_def run_loop.simps [of g "in_thread input"] wrapRunError_def)
qed

lemma exhausted_thread_witness:
  "(\<exists>e. fst (Run (demo_graph (''approved'', None) 20) 7 demo_input demo_script) = Inl e \<and>
      ae_code e = ErrCodeMaxIterations) \<and>
   r_world (snd (Run (demo_graph (''approved'', None) 20) 7 demo_input demo_script)) = demo_script \<and>
   r_model_calls (snd (Run (demo_graph (''approved'', None) 20) 7 demo_input demo_script)) = 0"
  by (rule exhausted_thread [where st = "demo_state 20" and ?w1.0 = demo_script])
    (simp_all add: demo_graph_def demo_state_def)

text \<open>
  C7: a run that succeeds returns a nonempty final text that is also the content of its last
  message, an assistant message; the output's messages are those of the final state, and that
  state, with its final output, is the last checkpoint saved. Right after that the summary is
  logged, and nothing else happens.
\<close>

theorem successful_run:
  assumes "fst (Run g nano input w) = Inr out"
  defines "st \<equiv> r_state (snd (Run g nano input w))"
  shows "out_final out \<noteq> '''' \<and> st_final st = out_final out \<and> out_messages out = st_messages st \<and>
     last (out_messages out) = \<lparr>m_role = ''assistant'', m_content = out_final out\<rparr> \<and>
     out_thread out = in_thread input \<and> out_request out = newRequestID (in_thread input) nano \<and>
     (\<exists>tr err sm. r_trace (snd (Run g nano input w)) = tr @ [Saved (in_thread input) st err]
        @ onlyif (g_sink g) (Emitted (EvFinal out)) @ [Summary sm] \<and> rs_error sm = '''')"
proof (cases rule: Run_cases [of g input w nano])
  case (failed e)
  with assms(1) show ?thesis by (simp add: Let_def)
next
  case (looped s)
  obtain res r where lp: "run_loop g (in_thread input) (newRequestID (in_thread input) nano)
      (start_run (loaded_state g input w) (snd (g_load g (in_thread input) w)) [Loaded (in_thread input)]) = (res, r)"
    by fastforce
  with looped assms(1) have "res = Inr out" by simp
  with lp run_loop_answer have "answered g (in_thread input) (newRequestID (in_thread input) nano) out r" by blast
  with looped lp \<open>res = Inr out\<close> show ?thesis
    by (auto simp: st_def answered_def finish_run_trace summary_of_def)
qed

lemma successful_run_witness:
  "last (out_messages (projr (fst (Run (demo_graph (''approved'', None) 0) 7 demo_input [Inr (''done'', [])])))) =
     \<lparr>m_role = ''assistant'', m_content = ''done''\<rparr>"
proof -
  have *: "fst (Run (demo_graph (''approved'', None) 0) 7 demo_input [Inr (''done'', [])]) =
      Inr \<lparr>out_messages = [\<lparr>m_role = ''system'', m_content = ''s''\<rparr>, \<lparr>m_role = ''user'', m_content = ''hi''\<rparr>,
             \<lparr>m_role = ''assistant'', m_content = ''done''\<rparr>],
           out_final = ''done'', out_thread = ''t'', out_request = ''t-7''\<rparr>"
    by code_simp
  show ?thesis using successful_run [OF *] by (simp add: *)
qed

text \<open>
  A run only appends messages: those loaded (or the system prompt of a new thread)
  followed by those of the input stay a prefix of the conversation.
\<close>

theorem messages_only_grow:
  "prefix (st_messages (initial_state g input (case fst (g_load g (in_thread input) w) of Inl _ \<Rightarrow> None | Inr s \<Rightarrow> s)))
     (st_messages (r_state (snd (Run g nano input w))))"
  unfolding loaded_state_def [symmetric]
  by (cases rule: Run_cases [of g input w nano])
    (use run_loop_messages [of "start_run (loaded_state g input w) (snd (g_load g (in_thread input) w)) [Loaded (in_thread input)]"]
      in \<open>simp_all add: Let_def\<close>)

text \<open>
  A stream delivers exactly one terminal event, as its last one: the final output of a
  run that succeeds, the payload of the error of a run that fails.
\<close>

theorem stream_ends_once:
  "\<exists>evs. Stream g nano input w = evs @ [case fst (runWithEventSink g nano input w) of
        Inr out \<Rightarrow> EvFinal out | Inl e \<Rightarrow> EvError (AgentError_Payload e)] \<and>
     list_all (\<lambda>ev. \<not> terminal ev) evs"
proof -
  let ?g = "g\<lparr>g_sink := True\<rparr>"
  show ?thesis
  proof (cases rule: Run_cases [of ?g input w nano])
    case (failed e)
    then show ?thesis
      by (intro exI [of _ "[]"]) (simp add: Stream_def runWithEventSink_def Let_def finish_events)
  next
    case (looped s)
    obtain res r where lp: "run_loop ?g (in_thread input) (newRequestID (in_thread input) nano)
        (start_run (loaded_state ?g input w) (snd (g_load ?g (in_thread input) w)) [Loaded (in_thread input)]) = (res, r)"
      by fastforce
    then obtain d where "emitted (r_trace r) = d @ result_events ?g res" "list_all (\<lambda>ev. \<not> terminal ev) d"
      using run_loop_events [of ?g "in_thread input" "newRequestID (in_thread input) nano"
          "start_run (loaded_state ?g input w) (snd (g_load ?g (in_thread input) w)) [Loaded (in_thread input)]"]
      by auto
    with looped lp show ?thesis
      by (cases res) (simp_all add: Stream_def runWithEventSink_def finish_events result_events_def)
  qed
qed


text \<open>
  C11: the counters a run reports are true: model calls and model errors, tool calls and
  tool errors are the numbers of those effects in its trace, and the run summary carries
  them.
\<close>

theorem summary_counts_the_trace:
  "counters_agree (snd (Run g nano input w)) \<and> summary_agrees (snd (Run g nano input w))"
proof -
  have fin: "counters_agree (finish_run g tid rid res r) \<and> summary_agrees (finish_run g tid rid res r)"
    if "counters_agree r" for tid rid res and r :: "'a run"
    using that
    by (cases res) (auto simp: counters_agree_def summary_agrees_def finish_run_trace summary_of_def
        intro!: exI [of _ "r_trace r"])
  have start: "counters_agree (start_run st v [Loaded t])" for st t and v :: 'a
    by (simp add: counters_agree_def)
  show ?thesis
    by (cases rule: Run_cases [of g input w nano]) (simp_all add: Let_def fin start run_loop_counters)
qed

text \<open>
  C14: the event sink only observes: a run with a sink has the result, the final state, the
  world, the counters and, its emitted events erased, the trace of the run without.
\<close>

theorem sink_is_transparent:
  "apsnd silent (runWithEventSink g nano input w) = Run (g\<lparr>g_sink := False\<rparr>) nano input w"
  using silent_Run [of "g\<lparr>g_sink := True\<rparr>" nano input w]
  by (simp add: runWithEventSink_def mute_def)

text \<open>
  No \<open>tool_result\<close> event of a run carries the data, the error or the code of the
  call it reports.
\<close>

theorem result_events_are_blank: "list_all blank_result_event (r_trace (snd (Run g nano input w)))"
  by (rule bl.run_holds)

end
