(* ===== verification/Hitl_Claims.thy ===== *)
theory Hitl_Claims
  imports Graph_Claims
begin

text \<open>
  The properties of the HTTP approver, alone and in an agent.
\<close>

lemma http_approver_cases:
  assumes "NewHTTPApprover ul q dtext url_err ff send cfg = Inr ap"
  obtains (refused) "snd (fst (ap meta tool args w)) \<noteq> None"
  | (answered) rq where "rq_url rq = trim_space (hc_url cfg)"
      "json_marshal ff (approval_request meta tool args) = Some (rq_body rq)"
      "fst (ap meta tool args w) = handle_response ul q dtext (fst (send rq w))"
proof (cases "json_marshal ff (approval_request meta tool args)")
  case None
  with assms show ?thesis
    by (intro refused) (auto simp: NewHTTPApprover_def Let_def split: if_splits)
next
  case (Some body)
  let ?rq = "\<lparr>rq_url = trim_space (hc_url cfg), rq_body = body, rq_headers = approver_headers cfg,
    rq_timeout = approver_timeout cfg\<rparr>"
  show ?thesis
  proof (cases "url_err (trim_space (hc_url cfg))")
    case None
    with assms Some show ?thesis
      by (intro answered [of ?rq]) (auto simp: NewHTTPApprover_def Let_def split: if_splits prod.split)
  next
    case (Some e)
    with assms \<open>json_marshal ff (approval_request meta tool args) = Some body\<close> show ?thesis
      by (intro refused) (auto simp: NewHTTPApprover_def Let_def split: if_splits)
  qed
qed

text \<open>
  C25: the HTTP approver fails closed: it returns no error only if the service, asked at the
  configured URL with this call's arguments and metadata, answered with a 2xx status and a
  JSON body whose decision, trimmed and lowercased, is one of the five words of approval; its
  decision is then \<open>approved\<close>. Transport errors, other statuses, undecodable bodies
  and unknown decisions are refusals.
\<close>

theorem http_approver_fails_closed:
  assumes "NewHTTPApprover ul q dtext url_err ff send cfg = Inr ap"
    and "snd (fst (ap meta tool args w)) = None"
  shows "fst (fst (ap meta tool args w)) = ''approved'' \<and>
    (\<exists>rq code status body out. fst (send rq w) = HttpResponse code status body \<and>
       rq_url rq = trim_space (hc_url cfg) \<and>
       json_marshal ff (approval_request meta tool args) = Some (rq_body rq) \<and>
       200 \<le> code \<and> code < 300 \<and> response_of_body ul body = Some out \<and>
       to_lower ul (trim_space (fst out)) \<in> {''approved'', ''approve'', ''ok'', ''yes'', ''y''})"
  using assms(1)
proof (cases rule: http_approver_cases [of ul q dtext url_err ff send cfg ap meta tool args w])
  case refused
  with assms(2) show ?thesis by simp
next
  case (answered rq)
  let ?res = "fst (send rq w)"
  have n: "snd (handle_response ul q dtext ?res) = None" using assms(2) answered(3) by simp
  from handle_response_approved [OF n] obtain code status body out where r:
    "?res = HttpResponse code status body" "200 \<le> code" "code < 300" "response_of_body ul body = Some out"
    "handle_response ul q dtext ?res = decide ul q out" by blast
  have "snd (decide ul q out) = None" using n r(5) by metis
  with decide_fail_closed [of ul q out] decide_approved [of ul q out] r answered show ?thesis by metis
qed

definition demo_approver_cfg :: HTTPApproverConfig where
  "demo_approver_cfg = \<lparr>hc_url = ''u'', hc_api_key = '''', hc_timeout = 0, hc_headers = [], hc_client = None\<rparr>"

definition demo_meta :: approvalMetadata where
  "demo_meta = \<lparr>am_thread = ''t'', am_request = ''r'', am_call = ''1'', am_iteration = 1\<rparr>"

definition approve_body :: string where
  "approve_body = ''{'' @ dq @ ''decision'' @ dq @ '':'' @ dq @ ''OK'' @ dq @ ''}''"

lemma http_approver_fails_closed_witness:
  "\<exists>ap. NewHTTPApprover id id id (\<lambda>_. None) (\<lambda>_. None) (\<lambda>rq w. (HttpResponse 200 '''' approve_body, w)) demo_approver_cfg = Inr ap \<and>
     fst (fst (ap demo_meta ''echo'' ''{}'' ())) = ''approved''"
proof -
  let ?ap = "projr (NewHTTPApprover id id id (\<lambda>_. None) (\<lambda>_. None)
    (\<lambda>rq w. (HttpResponse 200 '''' approve_body, w)) demo_approver_cfg)"
  have n: "NewHTTPApprover id id id (\<lambda>_. None) (\<lambda>_. None) (\<lambda>rq w. (HttpResponse 200 '''' approve_body, w)) demo_approver_cfg = Inr ?ap"
    by (simp add: NewHTTPApprover_def demo_approver_cfg_def trim_space_def space_encs_def)
  have "snd (fst (?ap demo_meta ''echo'' ''{}'' ())) = None" by code_simp
  from http_approver_fails_closed [OF n this] n show ?thesis by blast
qed



end
