(* ===== verification/Paths.thy ===== *)
theory Paths
  imports Prelude
begin

text \<open>
  Package \<open>path/filepath\<close> on Unix, as far as the program uses it (\<open>Clean\<close>,
  \<open>Join\<close>, \<open>IsAbs\<close>, \<open>Dir\<close>), and the check \<open>validatePathComponent\<close>
  that guards every file name the program builds from a thread id, a namespace or a key.
\<close>

section \<open>Lexical paths\<close>

definition is_abs :: "string \<Rightarrow> bool" where
  "is_abs p = (case p of [] \<Rightarrow> False | c # _ \<Rightarrow> c = CHR ''/'')"

text \<open>
  One path element of the loop of \<open>Clean\<close>; the stack holds the elements kept so far,
  last first.
\<close>

definition clean_step :: "bool \<Rightarrow> string list \<Rightarrow> string \<Rightarrow> string list" where
  "clean_step rooted st e =
     (if e = '''' \<or> e = ''.'' then st
      else if e = ''..'' then
        (case st of
           [] \<Rightarrow> if rooted then [] else [''..'']
         | t # ts \<Rightarrow> if t = ''..'' then ''..'' # st else ts)
      else e # st)"

definition clean_elems :: "string \<Rightarrow> string list" where
  "clean_elems p = rev (foldl (clean_step (is_abs p)) [] (split_on CHR ''/'' p))"

definition path_of_elems :: "bool \<Rightarrow> string list \<Rightarrow> string" where
  "path_of_elems rooted es =
     (if rooted then ''/'' @ join ''/'' es
      else if es = [] then ''.'' else join ''/'' es)"

definition clean :: "string \<Rightarrow> string" where
  "clean p = path_of_elems (is_abs p) (clean_elems p)"

definition fjoin :: "string list \<Rightarrow> string" where
  "fjoin es = (case dropWhile (\<lambda>e. e = '''') es of [] \<Rightarrow> '''' | fs \<Rightarrow> clean (join ''/'' fs))"

text \<open>An element list that \<open>Clean\<close> leaves as it is.\<close>

fun plain_elem :: "string \<Rightarrow> bool" where
  "plain_elem e = (e \<noteq> '''' \<and> e \<noteq> ''.'' \<and> e \<noteq> ''..'' \<and> CHR ''/'' \<notin> set e)"

section \<open>Lemmas\<close>

lemma is_abs_simps [simp]: "\<not> is_abs ''''" "is_abs (c # s) = (c = CHR ''/'')"
  by (simp_all add: is_abs_def)

lemma is_abs_append: "a \<noteq> '''' \<Longrightarrow> is_abs (a @ b) = is_abs a"
  by (cases a) simp_all

lemma foldl_clean_plain:
  "\<forall>e \<in> set es. e \<noteq> ''..'' \<Longrightarrow>
   foldl (clean_step r) st es = rev (filter (\<lambda>e. e \<noteq> '''' \<and> e \<noteq> ''.'') es) @ st"
  by (induction es arbitrary: st) (auto simp: clean_step_def)

text \<open>The stack of \<open>Clean\<close>: plain elements on top of leading \<open>..\<close>, none when rooted.\<close>

definition clean_stack :: "bool \<Rightarrow> string list \<Rightarrow> bool" where
  "clean_stack rooted st \<longleftrightarrow>
     (\<exists>es n. st = es @ replicate n ''..'' \<and> (\<forall>e \<in> set es. plain_elem e) \<and> (rooted \<longrightarrow> n = 0))"

lemma clean_stack_Nil [simp]: "clean_stack r []"
  unfolding clean_stack_def by (intro exI [of _ "[]"] exI [of _ 0]) simp

lemma clean_stack_push: "clean_stack r st \<Longrightarrow> plain_elem e \<Longrightarrow> clean_stack r (e # st)"
  unfolding clean_stack_def by (metis append_Cons set_ConsD)

lemma clean_stack_dotdot:
  assumes "clean_stack r st" shows "clean_stack r (clean_step r st ''..'')"
proof -
  from assms obtain es n where st: "st = es @ replicate n ''..''"
    and es: "\<forall>e \<in> set es. plain_elem e" and n: "r \<longrightarrow> n = 0"
    unfolding clean_stack_def by blast
  show ?thesis
  proof (cases es)
    case Nil
    with st n have "clean_step r st ''..'' = (if r then [] else replicate (Suc n) ''..'')"
      by (cases n) (auto simp: clean_step_def)
    then show ?thesis unfolding clean_stack_def
      by (metis append_Nil empty_iff empty_set replicate_0)
  next
    case (Cons e es')
    with es have "e \<noteq> ''..''" by simp
    with st Cons have "clean_step r st ''..'' = es' @ replicate n ''..''"
      by (simp add: clean_step_def)
    with es n Cons show ?thesis unfolding clean_stack_def by (metis list.set_intros(2))
  qed
qed

lemma clean_stack_step:
  assumes "clean_stack r st" "CHR ''/'' \<notin> set e" shows "clean_stack r (clean_step r st e)"
proof (cases "e = ''..''")
  case True
  with assms clean_stack_dotdot show ?thesis by simp
next
  case False
  with assms clean_stack_push [of r st e] show ?thesis by (auto simp: clean_step_def)
qed

lemma clean_stack_foldl:
  "clean_stack r st \<Longrightarrow> \<forall>e \<in> set es. CHR ''/'' \<notin> set e \<Longrightarrow>
   clean_stack r (foldl (clean_step r) st es)"
  by (induction es arbitrary: st) (simp_all add: clean_stack_step)

lemma clean_stack_elems: "clean_stack (is_abs p) (rev (clean_elems p))"
  unfolding clean_elems_def by (simp add: clean_stack_foldl split_on_elem_no_sep)

text \<open>Cleaning a clean stack again gives it back.\<close>

lemma foldl_clean_dotdots:
  "foldl (clean_step False) (replicate m ''..'') (replicate n ''..'') = replicate (m + n) ''..''"
proof (induction n arbitrary: m)
  case (Suc n)
  have "clean_step False (replicate m ''..'') ''..'' = replicate (Suc m) ''..''"
    by (cases m) (simp_all add: clean_step_def)
  with Suc [of "Suc m"] show ?case by simp
qed simp

lemma foldl_clean_rev:
  assumes "clean_stack r st" shows "foldl (clean_step r) [] (rev st) = st"
proof -
  from assms obtain es n where st: "st = es @ replicate n ''..''"
    and es: "\<forall>e \<in> set es. plain_elem e" and n: "r \<longrightarrow> n = 0"
    unfolding clean_stack_def by blast
  have dd: "foldl (clean_step r) [] (replicate n ''..'') = replicate n ''..''"
  proof (cases r)
    case True
    with n show ?thesis by simp
  next
    case False
    with foldl_clean_dotdots [of 0 n] show ?thesis by simp
  qed
  have "filter (\<lambda>e. e \<noteq> '''' \<and> e \<noteq> ''.'') (rev es) = rev es"
    and "\<forall>e \<in> set (rev es). e \<noteq> ''..''"
    using es by (auto simp: filter_id_conv)
  then have "foldl (clean_step r) s (rev es) = es @ s" for s
    by (simp only: foldl_clean_plain) simp
  with dd show ?thesis by (simp add: st)
qed

lemma clean_stack_elem:
  assumes "clean_stack r st" "e \<in> set st" shows "CHR ''/'' \<notin> set e \<and> e \<noteq> ''''"
proof -
  from assms obtain es n where e: "e \<in> set es \<or> e \<in> set (replicate n ''..'')"
    and es: "\<forall>e \<in> set es. plain_elem e"
    unfolding clean_stack_def by (metis Un_iff set_append)
  from e show ?thesis
  proof
    assume "e \<in> set es"
    with es show ?thesis by (metis plain_elem.elims(2))
  next
    assume "e \<in> set (replicate n ''..'')"
    then have "e = ''..''" by (metis in_set_replicate)
    then show ?thesis by simp
  qed
qed

lemma join_is_abs:
  "es \<noteq> [] \<Longrightarrow> hd es \<noteq> '''' \<Longrightarrow> CHR ''/'' \<notin> set (hd es) \<Longrightarrow> \<not> is_abs (join ''/'' es)"
  by (cases es; cases "tl es"; cases "hd es") auto

lemma elems_of_path:
  assumes "clean_stack r (rev es)"
  shows "clean_elems (path_of_elems r es) = es \<and> is_abs (path_of_elems r es) = r"
proof -
  have noslash: "\<forall>e \<in> set es. CHR ''/'' \<notin> set e" and ne: "\<forall>e \<in> set es. e \<noteq> ''''"
    using clean_stack_elem [OF assms] by simp_all
  have rf: "foldl (clean_step r) [] es = rev es"
    using foldl_clean_rev [OF assms] by simp
  have sj: "split_on CHR ''/'' (join ''/'' es) = es" if "es \<noteq> []"
    using split_on_join [of es "CHR ''/''"] that noslash by simp
  show ?thesis
  proof (cases r)
    case True
    have "foldl (clean_step True) [] (split_on CHR ''/'' (join ''/'' es)) = rev es"
      using sj rf True by (cases "es = []") (auto simp: clean_step_def)
    with True show ?thesis
      by (simp add: clean_elems_def path_of_elems_def clean_step_def)
  next
    case False
    show ?thesis
    proof (cases "es = []")
      case True
      with False show ?thesis by (simp add: clean_elems_def path_of_elems_def clean_step_def)
    next
      case ne': False
      then have "\<not> is_abs (join ''/'' es)"
        using join_is_abs noslash ne by (metis list.set_sel(1))
      with False ne' sj rf show ?thesis by (simp add: clean_elems_def path_of_elems_def)
    qed
  qed
qed

lemma clean_elems_clean [simp]: "clean_elems (clean p) = clean_elems p"
  using elems_of_path [OF clean_stack_elems] unfolding clean_def by blast

lemma is_abs_clean [simp]: "is_abs (clean p) = is_abs p"
  using elems_of_path [OF clean_stack_elems] unfolding clean_def by blast

lemma clean_clean [simp]: "clean (clean p) = clean p"
  by (simp only: clean_def [of "clean p"] clean_elems_clean is_abs_clean clean_def [symmetric])

lemma clean_eq_iff: "clean p = clean q \<longleftrightarrow> is_abs p = is_abs q \<and> clean_elems p = clean_elems q"
proof
  assume "clean p = clean q"
  then have "clean_elems (clean p) = clean_elems (clean q)" "is_abs (clean p) = is_abs (clean q)"
    by simp_all
  then show "is_abs p = is_abs q \<and> clean_elems p = clean_elems q" by simp
qed (simp add: clean_def)

lemma clean_elems_append:
  "p \<noteq> '''' \<Longrightarrow> clean_elems (p @ CHR ''/'' # q) =
    rev (foldl (clean_step (is_abs p)) (rev (clean_elems p)) (split_on CHR ''/'' q))"
  by (simp add: clean_elems_def is_abs_append split_on_append)

text \<open>Joining a relative path without \<open>..\<close> elements only appends its elements.\<close>

lemma clean_elems_join_plain:
  assumes "p \<noteq> ''''" "''..'' \<notin> set (split_on CHR ''/'' q)"
  shows "clean_elems (p @ CHR ''/'' # q) =
    clean_elems p @ filter (\<lambda>e. e \<noteq> '''' \<and> e \<noteq> ''.'') (split_on CHR ''/'' q)"
proof -
  have "\<forall>e \<in> set (split_on CHR ''/'' q). e \<noteq> ''..''" using assms(2) by auto
  then show ?thesis using assms(1) by (simp add: clean_elems_append foldl_clean_plain)
qed

lemma fjoin2: "p \<noteq> '''' \<Longrightarrow> fjoin [p, q] = clean (p @ CHR ''/'' # q)"
  by (simp add: fjoin_def)

lemma fjoin3: "p \<noteq> '''' \<Longrightarrow> fjoin [p, q, r] = clean (p @ CHR ''/'' # q @ CHR ''/'' # r)"
  by (simp add: fjoin_def)

lemma clean_nonempty [simp]: "clean p \<noteq> ''''"
proof
  assume e: "clean p = ''''"
  show False
  proof (cases "clean_elems p = [] \<or> is_abs p")
    case True
    with e show False by (auto simp: clean_def path_of_elems_def split: if_splits)
  next
    case False
    with e have "join ''/'' (clean_elems p) = ''''" by (simp add: clean_def path_of_elems_def)
    moreover have "\<forall>x \<in> set (clean_elems p). x \<noteq> ''''"
      using clean_stack_elem [OF clean_stack_elems [of p]] by simp
    ultimately show False using False by (cases "clean_elems p"; cases "tl (clean_elems p)") auto
  qed
qed

lemma plain_append:
  assumes "CHR ''/'' \<notin> set l" "CHR ''/'' \<notin> set suf" "3 \<le> length suf"
  shows "plain_elem (l @ suf)"
proof -
  have "l @ suf \<noteq> x" if "length x < 3" for x
    by (rule notI, drule arg_cong [of _ _ length]) (use that assms(3) in simp)
  note ne = this
  have "l @ suf \<noteq> ''''" "l @ suf \<noteq> ''.''" "l @ suf \<noteq> ''..''" by (rule ne, simp)+
  moreover have "CHR ''/'' \<notin> set (l @ suf)" using assms by simp
  ultimately show ?thesis unfolding plain_elem.simps by blast
qed

section \<open>\<open>validatePathComponent\<close>\<close>

text \<open>
  The function of \<open>agent/checkpointer.go\<close>; \<open>memory/store.go\<close> has one of its
  own. \<open>None\<close> is the nil error.
\<close>

definition validatePathComponent :: "string \<Rightarrow> string \<Rightarrow> gerr option" where
  "validatePathComponent v field =
     (if v = '''' then None
      else if is_abs v then Some (ErrMsg ''%s must not be an absolute path'' [field])
      else if contains_any [CHR ''/'', CHR 0x5C] v \<or> contains ''..'' v
        then Some (ErrMsg ''unsafe %s: %q'' [field, v])
      else let c = clean v in
        if c = ''.'' \<or> c = ''..'' \<or> prefix ''..'' c
          then Some (ErrMsg ''unsafe %s: %q'' [field, v])
        else None)"

text \<open>What passes the check: the empty string, or one plain path element.\<close>

lemma validate_plain:
  assumes "validatePathComponent v f = None" "v \<noteq> ''''"
  shows "plain_elem v \<and> \<not> contains ''..'' v"
proof -
  from assms have ns: "CHR ''/'' \<notin> set v" and dd: "\<not> contains ''..'' v" and nd: "clean v \<noteq> ''.''"
    by (auto simp: validatePathComponent_def Let_def split: if_splits)
  have "v \<noteq> ''..''" using dd by auto
  moreover have "v \<noteq> ''.''"
    using nd by (auto simp: clean_def clean_elems_def path_of_elems_def clean_step_def)
  ultimately show ?thesis using assms(2) ns dd by simp
qed

lemma clean_plain_elem: "plain_elem v \<Longrightarrow> clean v = v \<and> clean_elems v = [v]"
  by (cases v) (auto simp: clean_def clean_elems_def path_of_elems_def clean_step_def split_on_no_sep)

lemma validate_accepts_iff:
  "validatePathComponent v f = None \<longleftrightarrow>
     v = '''' \<or> (plain_elem v \<and> CHR 0x5C \<notin> set v \<and> \<not> contains ''..'' v)"
proof
  assume a: "validatePathComponent v f = None"
  show "v = '''' \<or> (plain_elem v \<and> CHR 0x5C \<notin> set v \<and> \<not> contains ''..'' v)"
  proof (cases "v = ''''")
    case False
    from a False have "CHR 0x5C \<notin> set v"
      by (auto simp: validatePathComponent_def Let_def split: if_splits)
    with validate_plain [OF a False] show ?thesis by simp
  qed simp
next
  assume r: "v = '''' \<or> (plain_elem v \<and> CHR 0x5C \<notin> set v \<and> \<not> contains ''..'' v)"
  show "validatePathComponent v f = None"
  proof (cases "v = ''''")
    case True
    then show ?thesis by (simp add: validatePathComponent_def)
  next
    case False
    with r have p: "plain_elem v" and b: "CHR 0x5C \<notin> set v" and d: "\<not> contains ''..'' v"
      by auto
    have "clean v = v" using clean_plain_elem [OF p] by simp
    moreover have "\<not> prefix ''..'' v" using d by (auto simp: contains_iff prefix_def)
    moreover have "\<not> is_abs v" using p by (cases v) auto
    ultimately show ?thesis using p b d False by (simp add: validatePathComponent_def)
  qed
qed

end
