(* ===== verification/Os_Files.thy ===== *)
theory Os_Files
  imports Paths "HOL-Library.List_Lexorder" "HOL-Library.Char_ord"
begin

text \<open>
  The part of package \<open>os\<close> the program calls: a store of files and directories
  under cleaned paths, with the error each call returns. A path is resolved by cleaning
  it, so two spellings of a path name the same file; symbolic links and permissions are
  left out, and \<open>faulty\<close> marks the paths on which any call fails with an I/O error
  (a full disk, a denied access). A call that fails changes nothing.
\<close>

datatype node = File string | Dir

record os_state =
  nodes :: "(string \<times> node) list"
  faulty :: "string \<Rightarrow> bool"

definition ancestors :: "string \<Rightarrow> string list" where
  "ancestors p =
     map (\<lambda>n. path_of_elems (is_abs p) (take n (clean_elems p))) [1..<length (clean_elems p)]"

definition parent_of :: "string \<Rightarrow> string" where
  "parent_of p = path_of_elems (is_abs p) (butlast (clean_elems p))"

definition lookup_node :: "os_state \<Rightarrow> string \<Rightarrow> node option" where
  "lookup_node s k = (if k = ''.'' \<or> k = ''/'' then Some Dir else map_of (nodes s) k)"

text \<open>Resolving the directories above a path: the error of the first that is not one.\<close>

definition walk_err :: "os_state \<Rightarrow> string \<Rightarrow> errno option" where
  "walk_err s p =
     (case find (\<lambda>k. lookup_node s k \<noteq> Some Dir) (ancestors p) of
        None \<Rightarrow> None
      | Some k \<Rightarrow> Some (if lookup_node s k = None then ENOENT else ENOTDIR))"

definition os_get :: "os_state \<Rightarrow> string \<Rightarrow> errno + node" where
  "os_get s p =
     (case walk_err s p of
        Some e \<Rightarrow> Inl e
      | None \<Rightarrow>
          if faulty s (clean p) then Inl EIO
          else case lookup_node s (clean p) of None \<Rightarrow> Inl ENOENT | Some n \<Rightarrow> Inr n)"

definition os_put :: "os_state \<Rightarrow> string \<Rightarrow> string \<Rightarrow> os_state" where
  "os_put s p c = s\<lparr>nodes := AList.update (clean p) (File c) (nodes s)\<rparr>"

definition os_stat :: "string \<Rightarrow> os_state \<Rightarrow> node res" where
  "os_stat p s = (case os_get s p of Inl e \<Rightarrow> Inl (ErrOs ''stat'' p e) | Inr n \<Rightarrow> Inr n)"

definition os_read_file :: "string \<Rightarrow> os_state \<Rightarrow> string res" where
  "os_read_file p s =
     (case os_get s p of
        Inl e \<Rightarrow> Inl (ErrOs ''open'' p e)
      | Inr Dir \<Rightarrow> Inl (ErrOs ''read'' p EISDIR)
      | Inr (File c) \<Rightarrow> Inr c)"

definition os_write_file :: "string \<Rightarrow> string \<Rightarrow> os_state \<Rightarrow> unit res \<times> os_state" where
  "os_write_file p c s =
     (case os_get s p of
        Inr Dir \<Rightarrow> (Inl (ErrOs ''open'' p EISDIR), s)
      | Inr (File _) \<Rightarrow> (Inr (), os_put s p c)
      | Inl e \<Rightarrow>
          if e = ENOENT \<and> walk_err s p = None then (Inr (), os_put s p c)
          else (Inl (ErrOs ''open'' p e), s))"

text \<open>\<open>os.OpenFile\<close> with \<open>O_APPEND|O_CREATE|O_WRONLY\<close> and one \<open>Write\<close>.\<close>

definition os_append_file :: "string \<Rightarrow> string \<Rightarrow> os_state \<Rightarrow> unit res \<times> os_state" where
  "os_append_file p c s =
     (case os_get s p of Inr (File old) \<Rightarrow> (Inr (), os_put s p (old @ c)) | _ \<Rightarrow> os_write_file p c s)"

text \<open>\<open>os.Rename\<close> of a file; the program renames only files it has just written.\<close>

definition os_rename :: "string \<Rightarrow> string \<Rightarrow> os_state \<Rightarrow> unit res \<times> os_state" where
  "os_rename p q s =
     (case os_get s p of
        Inl e \<Rightarrow> (Inl (ErrOs ''rename'' p e), s)
      | Inr Dir \<Rightarrow> (Inl (ErrOs ''rename'' p EISDIR), s)
      | Inr (File c) \<Rightarrow>
          (case os_get s q of
             Inr Dir \<Rightarrow> (Inl (ErrOs ''rename'' q EEXIST), s)
           | Inr (File _) \<Rightarrow> (Inr (), os_put (s\<lparr>nodes := AList.delete (clean p) (nodes s)\<rparr>) q c)
           | Inl e \<Rightarrow>
               if e = ENOENT \<and> walk_err s q = None
               then (Inr (), os_put (s\<lparr>nodes := AList.delete (clean p) (nodes s)\<rparr>) q c)
               else (Inl (ErrOs ''rename'' q e), s)))"

fun mkdir_keys :: "string list \<Rightarrow> os_state \<Rightarrow> unit res \<times> os_state" where
  "mkdir_keys [] s = (Inr (), s)"
| "mkdir_keys (k # ks) s =
     (case lookup_node s k of
        Some Dir \<Rightarrow> mkdir_keys ks s
      | Some (File _) \<Rightarrow> (Inl (ErrOs ''mkdir'' k ENOTDIR), s)
      | None \<Rightarrow>
          if faulty s k then (Inl (ErrOs ''mkdir'' k EIO), s)
          else mkdir_keys ks (s\<lparr>nodes := AList.update k Dir (nodes s)\<rparr>))"

definition os_mkdir_all :: "string \<Rightarrow> os_state \<Rightarrow> unit res \<times> os_state" where
  "os_mkdir_all p s = mkdir_keys (ancestors p @ [clean p]) s"

text \<open>\<open>os.ReadDir\<close>: the entries sorted by name, each with its \<open>IsDir\<close>.\<close>

definition dir_entries :: "os_state \<Rightarrow> string \<Rightarrow> (string \<times> bool) list" where
  "dir_entries s k =
     sort_key fst
       [(last (clean_elems q), n = Dir). (q, n) \<leftarrow> nodes s, clean_elems q \<noteq> [] \<and> parent_of q = k]"

definition os_read_dir :: "string \<Rightarrow> os_state \<Rightarrow> ((string \<times> bool) list) res" where
  "os_read_dir p s =
     (case os_get s p of
        Inl e \<Rightarrow> Inl (ErrOs ''open'' p e)
      | Inr (File _) \<Rightarrow> Inl (ErrOs ''readdirent'' p ENOTDIR)
      | Inr Dir \<Rightarrow> Inr (dir_entries s (clean p)))"

section \<open>Which paths a change at a key can be seen from\<close>

definition below :: "string \<Rightarrow> string \<Rightarrow> bool" where
  "below k q = (clean q = k \<or> k \<in> set (ancestors q))"

definition same_outside :: "string set \<Rightarrow> os_state \<Rightarrow> os_state \<Rightarrow> bool" where
  "same_outside K s t \<longleftrightarrow>
     faulty t = faulty s \<and> (\<forall>k. k \<notin> K \<longrightarrow> lookup_node t k = lookup_node s k)"

lemma same_outside_refl [simp]: "same_outside K s s"
  by (simp add: same_outside_def)

lemma same_outside_trans:
  "same_outside K s t \<Longrightarrow> same_outside L t u \<Longrightarrow> same_outside (K \<union> L) s u"
  by (simp add: same_outside_def)

lemma find_cong_set: "(\<And>x. x \<in> set xs \<Longrightarrow> P x = Q x) \<Longrightarrow> find P xs = find Q xs"
  by (induction xs) auto

lemma walk_err_same:
  assumes "\<And>k. k \<in> set (ancestors q) \<Longrightarrow> lookup_node t k = lookup_node s k"
  shows "walk_err t q = walk_err s q"
proof -
  have f: "find (\<lambda>k. lookup_node t k \<noteq> Some Dir) (ancestors q) =
        find (\<lambda>k. lookup_node s k \<noteq> Some Dir) (ancestors q)"
    by (rule find_cong_set) (simp add: assms)
  show ?thesis
  proof (cases "find (\<lambda>k. lookup_node s k \<noteq> Some Dir) (ancestors q)")
    case None
    with f show ?thesis by (simp add: walk_err_def)
  next
    case (Some k)
    then have "k \<in> set (ancestors q)" by (auto simp: find_Some_iff)
    with f Some assms show ?thesis by (simp add: walk_err_def)
  qed
qed

lemma os_get_same:
  assumes "same_outside K s t" "\<And>k. k \<in> K \<Longrightarrow> \<not> below k q"
  shows "os_get t q = os_get s q"
proof -
  have "walk_err t q = walk_err s q"
    using assms by (intro walk_err_same) (auto simp: same_outside_def below_def)
  moreover have "lookup_node t (clean q) = lookup_node s (clean q)" "faulty t = faulty s"
    using assms by (auto simp: same_outside_def below_def)
  ultimately show ?thesis by (cases "walk_err s q") (simp_all add: os_get_def)
qed

lemma os_read_file_same:
  "same_outside K s t \<Longrightarrow> (\<And>k. k \<in> K \<Longrightarrow> \<not> below k q) \<Longrightarrow> os_read_file q t = os_read_file q s"
  by (simp add: os_read_file_def os_get_same)

lemma lookup_os_put:
  "lookup_node (os_put s p c) k =
     (if k = ''.'' \<or> k = ''/'' then Some Dir
      else if k = clean p then Some (File c) else lookup_node s k)"
  by (simp add: lookup_node_def os_put_def)

lemma os_put_outside: "same_outside {clean p} s (os_put s p c)"
  by (simp add: same_outside_def lookup_os_put lookup_node_def) (simp add: os_put_def)

lemma os_write_file_outside: "same_outside {clean p} s (snd (os_write_file p c s))"
  by (simp add: os_write_file_def os_put_outside split: sum.split node.split)

lemma os_write_file_err: "os_write_file p c s = (Inl e, t) \<Longrightarrow> t = s"
  by (auto simp: os_write_file_def split: sum.splits node.splits if_splits)

text \<open>A key is never among its own ancestors.\<close>

lemma ancestors_elems:
  assumes "k \<in> set (ancestors p)"
  shows "\<exists>n. 1 \<le> n \<and> n < length (clean_elems p) \<and> clean_elems k = take n (clean_elems p) \<and> is_abs k = is_abs p"
proof -
  from assms obtain n where n: "1 \<le> n" "n < length (clean_elems p)"
    and k: "k = path_of_elems (is_abs p) (take n (clean_elems p))"
    by (auto simp: ancestors_def)
  obtain es m where es: "rev (clean_elems p) = es @ replicate m ''..''"
    "\<forall>e \<in> set es. plain_elem e" "is_abs p \<longrightarrow> m = 0"
    using clean_stack_elems [of p] unfolding clean_stack_def by blast
  have "rev (take n (clean_elems p)) = drop (length (clean_elems p) - n) (rev (clean_elems p))"
    by (simp add: rev_take)
  also have "\<dots> = drop (length (clean_elems p) - n) es @
      replicate (m - (length (clean_elems p) - n - length es)) ''..''"
    by (simp only: es(1) drop_append drop_replicate)
  finally have r: "rev (take n (clean_elems p)) = drop (length (clean_elems p) - n) es @
      replicate (m - (length (clean_elems p) - n - length es)) ''..''" .
  have "\<forall>e \<in> set (drop (length (clean_elems p) - n) es). plain_elem e"
    using es(2) set_drop_subset [of _ es] by blast
  then have "clean_stack (is_abs p) (rev (take n (clean_elems p)))"
    unfolding clean_stack_def using r es(3) by (metis diff_0_eq_0)
  with n k elems_of_path show ?thesis by blast
qed

lemma not_own_ancestor: "clean p \<notin> set (ancestors p)"
proof
  assume "clean p \<in> set (ancestors p)"
  then obtain n where "n < length (clean_elems p)" "clean_elems p = take n (clean_elems p)"
    using ancestors_elems by fastforce
  then show False by (metis length_take min.absorb4 nat_neq_iff)
qed

lemma walk_err_os_put [simp]: "walk_err (os_put s p c) p = walk_err s p"
proof (rule walk_err_same)
  fix k assume "k \<in> set (ancestors p)"
  then have "k \<noteq> clean p" using not_own_ancestor by metis
  then show "lookup_node (os_put s p c) k = lookup_node s k"
    by (simp add: lookup_os_put) (simp add: lookup_node_def)
qed

lemma os_write_file_ok:
  assumes "os_write_file p c s = (Inr u, t)"
  shows "t = os_put s p c \<and> walk_err s p = None \<and> \<not> faulty s (clean p) \<and> lookup_node s (clean p) \<noteq> Some Dir"
  using assms by (auto simp: os_write_file_def os_get_def split: sum.splits node.splits if_splits option.splits)

lemma os_get_put:
  assumes "walk_err s p = None" "\<not> faulty s (clean p)" "lookup_node s (clean p) \<noteq> Some Dir"
  shows "os_get (os_put s p c) p = Inr (File c)"
proof -
  have "clean p \<noteq> ''.''" "clean p \<noteq> ''/''" using assms(3) by (auto simp: lookup_node_def)
  then have "lookup_node (os_put s p c) (clean p) = Some (File c)" by (simp add: lookup_os_put)
  moreover have "faulty (os_put s p c) = faulty s" by (simp add: os_put_def)
  ultimately show ?thesis using assms by (simp add: os_get_def)
qed

lemma os_read_write: "os_write_file p c s = (Inr u, t) \<Longrightarrow> os_read_file p t = Inr c"
  using os_write_file_ok [of p c s u t] os_get_put [of s p c] by (simp add: os_read_file_def)

lemma os_append_file_err: "os_append_file p c s = (Inl e, t) \<Longrightarrow> t = s"
  using os_write_file_err by (auto simp: os_append_file_def split: sum.splits node.splits)

lemma os_append_read:
  assumes "os_append_file p c s = (Inr u, t)"
  shows "os_read_file p t = Inr ((case os_read_file p s of Inr old \<Rightarrow> old | Inl _ \<Rightarrow> []) @ c)"
proof (cases "\<exists>old. os_get s p = Inr (File old)")
  case True
  then obtain old where old: "os_get s p = Inr (File old)" by blast
  then have "walk_err s p = None \<and> \<not> faulty s (clean p) \<and> lookup_node s (clean p) \<noteq> Some Dir"
    by (auto simp: os_get_def split: option.splits if_splits)
  with assms old os_get_put [of s p "old @ c"] show ?thesis
    by (auto simp: os_append_file_def os_read_file_def)
next
  case False
  then have "os_write_file p c s = (Inr u, t)"
    using assms by (auto simp: os_append_file_def split: sum.splits node.splits)
  with False os_read_write show ?thesis
    by (fastforce simp: os_read_file_def os_write_file_def split: sum.splits node.splits)
qed

section \<open>Making directories only adds\<close>

definition grows :: "os_state \<Rightarrow> os_state \<Rightarrow> bool" where
  "grows s t \<longleftrightarrow> faulty t = faulty s \<and> (\<forall>k n. lookup_node s k = Some n \<longrightarrow> lookup_node t k = Some n)"

lemma grows_refl [simp]: "grows s s"
  by (simp add: grows_def)

lemma grows_trans: "grows s t \<Longrightarrow> grows t u \<Longrightarrow> grows s u"
  by (simp add: grows_def)

lemma grows_add: "lookup_node s k = None \<Longrightarrow> grows s (s\<lparr>nodes := AList.update k n (nodes s)\<rparr>)"
  by (auto simp: grows_def lookup_node_def)

lemma mkdir_keys_grows: "grows s (snd (mkdir_keys ks s))"
proof (induction ks s rule: mkdir_keys.induct)
  case (2 k ks s)
  then show ?case
    by (auto split: option.splits node.splits intro: grows_trans [OF grows_add])
qed simp

lemma os_mkdir_all_grows: "grows s (snd (os_mkdir_all p s))"
  unfolding os_mkdir_all_def by (rule mkdir_keys_grows)

lemma os_get_grows:
  assumes "os_get s p = Inr n" "grows s t" shows "os_get t p = Inr n"
proof -
  have w: "walk_err s p = None" and n: "\<not> faulty s (clean p)" "lookup_node s (clean p) = Some n"
    using assms(1) by (auto simp: os_get_def split: option.splits if_splits)
  from w have "\<forall>k \<in> set (ancestors p). lookup_node s k = Some Dir"
    by (auto simp: walk_err_def find_None_iff split: option.splits)
  with assms(2) have "\<forall>k \<in> set (ancestors p). lookup_node t k = Some Dir" by (simp add: grows_def)
  then have "find (\<lambda>k. lookup_node t k \<noteq> Some Dir) (ancestors p) = None" by (simp add: find_None_iff)
  then have "walk_err t p = None" by (simp add: walk_err_def)
  with n assms(2) show ?thesis by (simp add: os_get_def grows_def)
qed

lemma os_read_file_grows: "os_read_file p s = Inr c \<Longrightarrow> grows s t \<Longrightarrow> os_read_file p t = Inr c"
  using os_get_grows [of s p _ t]
  by (auto simp: os_read_file_def split: sum.splits node.splits)

text \<open>Two paths whose elements are as many and not the same do not affect each other.\<close>

lemma not_below_same_length:
  assumes "length (clean_elems p) = length (clean_elems q)" "clean_elems p \<noteq> clean_elems q"
  shows "\<not> below (clean p) q"
proof
  assume "below (clean p) q"
  then consider "clean q = clean p" | "clean p \<in> set (ancestors q)" by (auto simp: below_def)
  then show False
  proof cases
    case 1
    with assms(2) show ?thesis by (simp add: clean_eq_iff)
  next
    case 2
    then obtain n where "n < length (clean_elems q)" "clean_elems (clean p) = take n (clean_elems q)"
      using ancestors_elems by fastforce
    then have "length (clean_elems p) < length (clean_elems q)" by simp
    with assms(1) show ?thesis by simp
  qed
qed

text \<open>The directory of a path that resolves is there.\<close>

lemma os_get_parent:
  assumes "os_get s p = Inr n" "clean_elems p = clean_elems q @ [x]" "is_abs p = is_abs q" "clean_elems q \<noteq> []"
  shows "os_get s q = (if faulty s (clean q) then Inl EIO else Inr Dir)"
proof -
  obtain m where m: "length (clean_elems q) = Suc m" using assms(4) by (cases "clean_elems q") auto
  have "ancestors p = ancestors q @ [clean q]"
    using assms(2,3) by (auto simp: ancestors_def clean_def m)
  then have anc: "set (ancestors q) \<subseteq> set (ancestors p)" and cq: "clean q \<in> set (ancestors p)"
    by auto
  have "find (\<lambda>k. lookup_node s k \<noteq> Some Dir) (ancestors p) = None"
    using assms(1) by (auto simp: os_get_def walk_err_def split: option.splits)
  then have dir: "\<forall>k \<in> set (ancestors p). lookup_node s k = Some Dir" by (auto simp: find_None_iff)
  with anc have "find (\<lambda>k. lookup_node s k \<noteq> Some Dir) (ancestors q) = None" by (auto simp: find_None_iff)
  then have "walk_err s q = None" by (simp add: walk_err_def)
  with dir cq show ?thesis by (simp add: os_get_def)
qed

end
