(* ===== verification/Fs_Backend.thy ===== *)
theory Fs_Backend
  imports Os_Files
begin

text \<open>
  The virtual file system of \<open>tools/builtin/fs\<close>: the interface \<open>Backend\<close> as
  a record of its four methods over a state, its implementations \<open>InMemoryBackend\<close>
  (a map) and \<open>DiskBackend\<close> (files under a root directory), and the contract
  \<open>fs_contract\<close> both meet: a successful write is read back, a failed one changes
  nothing at its path, an edit extends what was there, and other paths keep their content.
\<close>

record 's backend =
  be_list :: "string \<Rightarrow> 's \<Rightarrow> string list option res"  \<comment> \<open>\<open>None\<close> is the nil slice\<close>
  be_read :: "string \<Rightarrow> 's \<Rightarrow> string res"
  be_write :: "string \<Rightarrow> string \<Rightarrow> 's \<Rightarrow> unit res \<times> 's"
  be_edit :: "string \<Rightarrow> string \<Rightarrow> 's \<Rightarrow> unit res \<times> 's"

section \<open>\<open>InMemoryBackend\<close>\<close>

text \<open>The Go map \<open>files\<close>; \<open>List\<close> enumerates it in the order of the association list.\<close>

record InMemoryBackend =
  im_files :: "(string \<times> string) list"

definition NewInMemoryBackend :: InMemoryBackend where
  "NewInMemoryBackend = \<lparr>im_files = []\<rparr>"

definition nil_if_empty :: "string list \<Rightarrow> string list option" where
  "nil_if_empty xs = (if xs = [] then None else Some xs)"

definition inmem_list :: "string \<Rightarrow> InMemoryBackend \<Rightarrow> string list option res" where
  "inmem_list path b = Inr (nil_if_empty (map fst (im_files b)))"

definition inmem_read :: "string \<Rightarrow> InMemoryBackend \<Rightarrow> string res" where
  "inmem_read path b = (case map_of (im_files b) path of Some c \<Rightarrow> Inr c | None \<Rightarrow> Inl ErrNotExist)"

definition inmem_write :: "string \<Rightarrow> string \<Rightarrow> InMemoryBackend \<Rightarrow> unit res \<times> InMemoryBackend" where
  "inmem_write path content b = (Inr (), b\<lparr>im_files := AList.update path content (im_files b)\<rparr>)"

definition inmem_edit :: "string \<Rightarrow> string \<Rightarrow> InMemoryBackend \<Rightarrow> unit res \<times> InMemoryBackend" where
  "inmem_edit path instructions b =
     (Inr (), b\<lparr>im_files := AList.update path
        (case map_of (im_files b) path of
           Some c \<Rightarrow> c @ CHR 0x0A # ''// Edited: '' @ instructions
         | None \<Rightarrow> ''// New file: '' @ instructions) (im_files b)\<rparr>)"

definition inmem_backend :: "InMemoryBackend backend" where
  "inmem_backend = \<lparr>be_list = inmem_list, be_read = inmem_read, be_write = inmem_write, be_edit = inmem_edit\<rparr>"

section \<open>\<open>DiskBackend\<close>\<close>

definition NewDiskBackend :: "string \<Rightarrow> os_state \<Rightarrow> string \<times> os_state" where
  "NewDiskBackend root s =
     (let root' = (if root = '''' then ''./deepagent_fs'' else root)
      in (root', snd (os_mkdir_all root' s)))"

definition safePath :: "string \<Rightarrow> string \<Rightarrow> string res" where
  "safePath root path =
     (let p = (if path = '''' then ''.'' else path); c = clean p
      in if contains ''..'' c \<or> (is_abs c \<and> \<not> prefix root c)
         then Inl (ErrMsg ''path traversal not allowed: %s'' [p])
         else Inr (fjoin [root, c]))"

definition disk_list :: "string \<Rightarrow> string \<Rightarrow> os_state \<Rightarrow> string list option res" where
  "disk_list root path s =
     (case safePath root path of
        Inl e \<Rightarrow> Inl e
      | Inr full \<Rightarrow>
          (case os_read_dir full s of
             Inl e \<Rightarrow> if is_not_exist e then Inr (Some []) else Inl e
           | Inr es \<Rightarrow> Inr (nil_if_empty (map fst es))))"

definition disk_read :: "string \<Rightarrow> string \<Rightarrow> os_state \<Rightarrow> string res" where
  "disk_read root path s =
     (case safePath root path of Inl e \<Rightarrow> Inl e | Inr full \<Rightarrow> os_read_file full s)"

definition disk_write :: "string \<Rightarrow> string \<Rightarrow> string \<Rightarrow> os_state \<Rightarrow> unit res \<times> os_state" where
  "disk_write root path content s =
     (case safePath root path of
        Inl e \<Rightarrow> (Inl e, s)
      | Inr full \<Rightarrow>
          (let tmp = full @ ''.tmp''
           in case os_write_file tmp content s of
                (Inl e, s1) \<Rightarrow> (Inl e, s1)
              | (Inr _, s1) \<Rightarrow> os_rename tmp full s1))"

definition disk_edit :: "string \<Rightarrow> string \<Rightarrow> string \<Rightarrow> os_state \<Rightarrow> unit res \<times> os_state" where
  "disk_edit root path instructions s =
     (case safePath root path of
        Inl e \<Rightarrow> (Inl e, s)
      | Inr full \<Rightarrow>
          (case os_read_file full s of
             Inr d \<Rightarrow> disk_write root path (d @ CHR 0x0A # ''// Edited by instructions: '' @ instructions) s
           | Inl e \<Rightarrow>
               if is_not_exist e
               then disk_write root path (CHR 0x0A # ''// Edited by instructions: '' @ instructions) s
               else (Inl e, s)))"

definition disk_backend :: "string \<Rightarrow> os_state backend" where
  "disk_backend root = \<lparr>be_list = disk_list root, be_read = disk_read root,
     be_write = disk_write root, be_edit = disk_edit root\<rparr>"

lemmas backend_defs = inmem_backend_def disk_backend_def
lemmas inmem_ops = inmem_list_def inmem_read_def inmem_write_def inmem_edit_def
lemmas disk_ops = disk_list_def disk_read_def disk_write_def disk_edit_def

section \<open>The contract of \<open>Backend\<close>\<close>

text \<open>
  \<open>touches p q\<close>: a write at \<open>p\<close> may be seen at \<open>q\<close>. \<open>edited old i\<close>:
  the content an edit leaves, from the old content if there was one.
\<close>

locale fs_contract =
  fixes B :: "'s backend"
    and touches :: "string \<Rightarrow> string \<Rightarrow> bool"
    and edited :: "string option \<Rightarrow> string \<Rightarrow> string"
  assumes write_read: "be_write B p c s = (Inr u, t) \<Longrightarrow> be_read B p t = Inr c"
    and write_fail: "be_write B p c s = (Inl e, t) \<Longrightarrow> be_read B p t = be_read B p s"
    and write_frame: "\<not> touches p q \<Longrightarrow> be_read B q (snd (be_write B p c s)) = be_read B q s"
    and edit_read: "be_edit B p i s = (Inr u, t) \<Longrightarrow>
      be_read B p t = Inr (edited (case be_read B p s of Inr c \<Rightarrow> Some c | Inl _ \<Rightarrow> None) i)"
    and edit_frame: "\<not> touches p q \<Longrightarrow> be_read B q (snd (be_edit B p i s)) = be_read B q s"
begin

text \<open>Writing a batch of files, as a client does file by file; failures are ignored.\<close>

fun write_all :: "(string \<times> string) list \<Rightarrow> 's \<Rightarrow> 's" where
  "write_all [] s = s"
| "write_all ((p, c) # ws) s = write_all ws (snd (be_write B p c s))"

lemma write_all_frame:
  "\<forall>(p, c) \<in> set ws. \<not> touches p q \<Longrightarrow> be_read B q (write_all ws s) = be_read B q s"
  by (induction ws arbitrary: s) (auto simp: write_frame)

lemma write_all_read:
  assumes "be_write B p c s = (Inr u, t)" "\<forall>(p', c') \<in> set ws. \<not> touches p' p"
  shows "be_read B p (write_all ws t) = Inr c"
  using write_all_frame [OF assms(2)] write_read [OF assms(1)] by simp

lemma write_edit:
  assumes "be_write B p c s = (Inr u, t)" "be_edit B p i t = (Inr v, w)"
  shows "be_read B p w = Inr (edited (Some c) i)"
  using edit_read [OF assms(2)] write_read [OF assms(1)] by simp

lemma write_twice:
  assumes "be_write B p c s = (Inr u, t)" "be_write B p d t = (r, w)"
  shows "be_read B p w = Inr (if is_ok r then d else c)"
  using assms write_read write_fail by (cases r) auto

end

section \<open>\<open>InMemoryBackend\<close> meets the contract\<close>

definition inmem_edited :: "string option \<Rightarrow> string \<Rightarrow> string" where
  "inmem_edited old i =
     (case old of Some c \<Rightarrow> c @ CHR 0x0A # ''// Edited: '' @ i | None \<Rightarrow> ''// New file: '' @ i)"

interpretation im: fs_contract inmem_backend "(=)" inmem_edited
  by unfold_locales
    (auto simp: inmem_backend_def inmem_ops inmem_edited_def split: option.split)

section \<open>\<open>DiskBackend\<close> meets the contract\<close>

subsection \<open>The temporary file beside a target\<close>

lemma clean_stack_tl: "clean_stack r (e # st) \<Longrightarrow> clean_stack r st"
proof -
  assume "clean_stack r (e # st)"
  then obtain es n where st: "e # st = es @ replicate n ''..''" and es: "\<forall>e \<in> set es. plain_elem e"
    and n: "r \<longrightarrow> n = 0" unfolding clean_stack_def by blast
  show ?thesis
  proof (cases es)
    case Nil
    with st obtain m where "n = Suc m" by (cases n) auto
    with Nil st n show ?thesis unfolding clean_stack_def
      by (intro exI [of _ "[]"] exI [of _ m]) simp
  next
    case (Cons x xs)
    with st es n show ?thesis unfolding clean_stack_def
      by (intro exI [of _ xs] exI [of _ n]) simp
  qed
qed

lemma join_snoc_append: "join sep (es @ [l]) @ x = join sep (es @ [l @ x])"
  by (induction sep es rule: join.induct) (auto simp: neq_Nil_conv)

lemma plain_tmp: "CHR ''/'' \<notin> set l \<Longrightarrow> plain_elem (l @ ''.tmp'')"
  by (rule plain_append) simp_all

lemma tmp_elems:
  assumes "clean f = f" "clean_elems f = es @ [l]"
  shows "clean_elems (f @ ''.tmp'') = es @ [l @ ''.tmp''] \<and> is_abs (f @ ''.tmp'') = is_abs f"
proof -
  have st: "clean_stack (is_abs f) (l # rev es)"
    using clean_stack_elems [of f] assms(2) by simp
  then have "CHR ''/'' \<notin> set l" using clean_stack_elem by fastforce
  then have st': "clean_stack (is_abs f) (rev (es @ [l @ ''.tmp'']))"
    using clean_stack_push [OF clean_stack_tl [OF st] plain_tmp] by simp
  have "f @ ''.tmp'' = path_of_elems (is_abs f) (es @ [l @ ''.tmp''])"
  proof -
    have "f = path_of_elems (is_abs f) (es @ [l])" using assms by (simp add: clean_def)
    then have "f @ x = path_of_elems (is_abs f) (es @ [l @ x])" for x
      by (simp add: path_of_elems_def join_snoc_append [symmetric] split: if_splits)
    then show ?thesis .
  qed
  with elems_of_path [OF st'] show ?thesis by simp
qed

lemma clean_base: "clean f = f \<Longrightarrow> clean_elems f = [] \<Longrightarrow> f = ''.'' \<or> f = ''/''"
  by (metis clean_def path_of_elems_def append_Nil2 join.simps(1))

lemma tmp_not_below:
  assumes "clean f = f" shows "\<not> below (clean (f @ ''.tmp'')) f"
proof (cases "clean_elems f" rule: rev_cases)
  case Nil
  have "clean ''..tmp'' \<noteq> ''.''" "clean ''/.tmp'' \<noteq> ''/''" by code_simp+
  moreover have "ancestors f = []" using Nil by (simp add: ancestors_def)
  ultimately show ?thesis using clean_base [OF assms Nil] assms
    by (elim disjE) (simp_all only: below_def append.simps, simp_all)
next
  case (snoc es l)
  have te: "clean_elems (f @ ''.tmp'') = es @ [l @ ''.tmp'']"
    using tmp_elems [OF assms snoc] by simp
  show ?thesis
  proof
    assume "below (clean (f @ ''.tmp'')) f"
    then consider "clean f = clean (f @ ''.tmp'')" | "clean (f @ ''.tmp'') \<in> set (ancestors f)"
      by (auto simp: below_def)
    then show False
    proof cases
      case 1
      then have "clean_elems f = clean_elems (f @ ''.tmp'')" by (simp only: clean_eq_iff)
      with te snoc show ?thesis by simp
    next
      case 2
      then obtain n where "n < length (clean_elems f)" "clean_elems (f @ ''.tmp'') = take n (clean_elems f)"
        using ancestors_elems by fastforce
      then have "length (clean_elems (f @ ''.tmp'')) < length (clean_elems f)" by simp
      with te snoc show ?thesis by simp
    qed
  qed
qed

lemma ancestors_tmp:
  assumes "clean f = f" "clean_elems f \<noteq> []" shows "ancestors (f @ ''.tmp'') = ancestors f"
proof -
  obtain es l where es: "clean_elems f = es @ [l]" using assms(2) by (cases "clean_elems f" rule: rev_cases) auto
  with tmp_elems [OF assms(1) es] show ?thesis by (auto simp: ancestors_def)
qed


subsection \<open>The effect of a write and of an edit\<close>

lemma fjoin_clean: "q \<noteq> '''' \<Longrightarrow> clean (fjoin [p, q]) = fjoin [p, q]"
  by (cases "p = ''''") (simp_all add: fjoin_def)

lemma safePath_clean: "safePath root p = Inr full \<Longrightarrow> clean full = full"
  by (auto simp: safePath_def Let_def fjoin_clean split: if_splits)

definition disk_keys :: "string \<Rightarrow> string set" where
  "disk_keys full = {clean (full @ ''.tmp''), full}"

definition disk_touches :: "string \<Rightarrow> string \<Rightarrow> string \<Rightarrow> bool" where
  "disk_touches root p q =
     (case safePath root p of
        Inl _ \<Rightarrow> False
      | Inr full \<Rightarrow>
          (case safePath root q of
             Inl _ \<Rightarrow> False
           | Inr g \<Rightarrow> below full g \<or> below (clean (full @ ''.tmp'')) g))"

definition disk_edited :: "string option \<Rightarrow> string \<Rightarrow> string" where
  "disk_edited old i =
     (case old of Some c \<Rightarrow> c | None \<Rightarrow> '''') @ CHR 0x0A # ''// Edited by instructions: '' @ i"

lemma walk_err_outside:
  assumes "same_outside K s t" "\<And>k. k \<in> K \<Longrightarrow> \<not> below k q"
  shows "walk_err t q = walk_err s q"
  using assms by (intro walk_err_same) (auto simp: same_outside_def below_def)

lemma delete_outside:
  "lookup_node s k \<noteq> Some Dir \<Longrightarrow>
   same_outside {k} s (s\<lparr>nodes := AList.delete k (nodes s)\<rparr>)"
  by (auto simp: same_outside_def lookup_node_def delete_conv')

lemma os_get_ENOENT:
  "os_get s p = Inl ENOENT \<Longrightarrow> walk_err s p = None \<Longrightarrow> \<not> faulty s (clean p) \<and> lookup_node s (clean p) = None"
  by (auto simp: os_get_def split: if_splits option.splits)

lemma os_get_File:
  "os_get s p = Inr n \<Longrightarrow> walk_err s p = None \<and> \<not> faulty s (clean p) \<and> lookup_node s (clean p) = Some n"
  by (auto simp: os_get_def split: if_splits option.splits)

text \<open>\<open>os.Rename\<close> of a file onto a path whose resolution does not pass through the file.\<close>

lemma os_rename_effect:
  assumes ren: "os_rename p q s = (r, t)" and nb: "\<not> below (clean p) q"
  shows "same_outside {clean p, clean q} s t"
    and "r = Inl e \<Longrightarrow> t = s"
    and "r = Inr u \<Longrightarrow> \<exists>c. os_read_file p s = Inr c \<and> os_read_file q t = Inr c"
proof -
  have *: "same_outside {clean p, clean q} s t \<and>
      (case r of Inl _ \<Rightarrow> t = s | Inr _ \<Rightarrow> \<exists>c. os_read_file p s = Inr c \<and> os_read_file q t = Inr c)"
  proof (cases "is_ok r")
    case False
    with ren have "t = s" "\<exists>e. r = Inl e"
      by (auto simp: os_rename_def split: sum.splits node.splits if_splits)
    then show ?thesis by auto
  next
    case True
    define d where "d = s\<lparr>nodes := AList.delete (clean p) (nodes s)\<rparr>"
    from True ren obtain c where p: "os_get s p = Inr (File c)" and t: "t = os_put d q c"
      and q: "(\<exists>o'. os_get s q = Inr (File o')) \<or> (os_get s q = Inl ENOENT \<and> walk_err s q = None)"
      by (auto simp: os_rename_def d_def split: sum.splits node.splits if_splits)
    have qs: "walk_err s q = None" "\<not> faulty s (clean q)" "lookup_node s (clean q) \<noteq> Some Dir"
      using q os_get_File os_get_ENOENT by fastforce+
    have out: "same_outside {clean p} s d"
      unfolding d_def by (rule delete_outside) (use os_get_File [OF p] in simp)
    have "walk_err d q = None" "\<not> faulty d (clean q)" "lookup_node d (clean q) \<noteq> Some Dir"
      using walk_err_outside [OF out] out nb qs
      by (auto simp: same_outside_def below_def)
    then have "os_read_file q t = Inr c"
      by (simp add: t os_read_file_def os_get_put)
    moreover have "os_read_file p s = Inr c" using p by (simp add: os_read_file_def)
    moreover have "same_outside {clean p, clean q} s t"
      using same_outside_trans [OF out os_put_outside [of q d c]] by (simp add: t insert_commute)
    moreover from True obtain v where "r = Inr v" by (cases r) auto
    ultimately show ?thesis by simp
  qed
  from * show "same_outside {clean p, clean q} s t" by simp
  from * show "r = Inl e \<Longrightarrow> t = s" by simp
  from * show "r = Inr u \<Longrightarrow> \<exists>c. os_read_file p s = Inr c \<and> os_read_file q t = Inr c" by simp
qed

lemma disk_write_effect:
  assumes sp: "safePath root p = Inr full" and w: "disk_write root p c s = (r, t)"
  shows "same_outside (disk_keys full) s t"
    and "r = Inr u \<Longrightarrow> os_read_file full t = Inr c"
    and "r = Inl e \<Longrightarrow> os_read_file full t = os_read_file full s"
proof -
  let ?tmp = "full @ ''.tmp''"
  have cl: "clean full = full" using safePath_clean [OF sp] .
  have nb: "\<not> below (clean ?tmp) full" by (rule tmp_not_below [OF cl])
  obtain r1 s1 where w1: "os_write_file ?tmp c s = (r1, s1)" by fastforce
  have out1: "same_outside {clean ?tmp} s s1"
    using os_write_file_outside [of ?tmp s c] w1 by simp
  have rd1: "os_read_file full s1 = os_read_file full s"
    using os_read_file_same [OF out1] nb by simp
  have *: "same_outside (disk_keys full) s t \<and>
      (case r of Inr _ \<Rightarrow> os_read_file full t = Inr c | Inl _ \<Rightarrow> os_read_file full t = os_read_file full s)"
  proof (cases r1)
    case (Inl e)
    with w sp w1 have "r = Inl e" "t = s1" by (auto simp: disk_write_def)
    moreover have "s1 = s" using os_write_file_err [of ?tmp c s e s1] w1 Inl by simp
    ultimately show ?thesis by simp
  next
    case (Inr v)
    then have ren: "os_rename ?tmp full s1 = (r, t)" using w sp w1 by (simp add: disk_write_def)
    have c1: "os_read_file ?tmp s1 = Inr c" using os_read_write w1 Inr by simp
    have "same_outside ({clean ?tmp} \<union> {clean ?tmp, clean full}) s t"
      using same_outside_trans [OF out1 os_rename_effect(1) [OF ren nb]] .
    then have "same_outside (disk_keys full) s t" by (simp add: disk_keys_def cl insert_commute)
    moreover have "os_read_file full t = Inr c" if "r = Inr w" for w
      using os_rename_effect(3) [OF ren nb that] c1 by simp
    moreover have "os_read_file full t = os_read_file full s" if "r = Inl e" for e
      using os_rename_effect(2) [OF ren nb that] rd1 by simp
    ultimately show ?thesis by (cases r) auto
  qed
  from * show "same_outside (disk_keys full) s t" by simp
  from * show "r = Inr u \<Longrightarrow> os_read_file full t = Inr c" by simp
  from * show "r = Inl e \<Longrightarrow> os_read_file full t = os_read_file full s" by simp
qed

lemma disk_frame:
  assumes "\<not> disk_touches root p q" "\<And>full. safePath root p = Inr full \<Longrightarrow> same_outside (disk_keys full) s t"
    and "\<And>e. safePath root p = Inl e \<Longrightarrow> t = s"
  shows "disk_read root q t = disk_read root q s"
proof (cases "safePath root p")
  case (Inl e)
  with assms show ?thesis by simp
next
  case full: (Inr full)
  show ?thesis
  proof (cases "safePath root q")
    case (Inl e)
    then show ?thesis by (simp add: disk_read_def)
  next
    case (Inr g)
    with full assms(1) have nb: "\<And>k. k \<in> disk_keys full \<Longrightarrow> \<not> below k g"
      by (auto simp: disk_touches_def disk_keys_def)
    have "same_outside (disk_keys full) s t" using assms(2) full by simp
    with nb have "os_read_file g t = os_read_file g s" by (intro os_read_file_same)
    with Inr show ?thesis by (simp add: disk_read_def)
  qed
qed

text \<open>An edit is a write of the extended content, or fails without an effect.\<close>

lemma disk_edit_is_write:
  assumes "disk_edit root p i s = (r, t)"
  shows "(\<exists>e. r = Inl e \<and> t = s) \<or>
     disk_write root p
       (disk_edited (case disk_read root p s of Inr c \<Rightarrow> Some c | Inl _ \<Rightarrow> None) i) s = (r, t)"
  using assms
  by (auto simp: disk_edit_def disk_read_def disk_edited_def split: sum.splits if_splits)

lemma disk_write_bad_path: "safePath root p = Inl e \<Longrightarrow> disk_write root p c s = (Inl e, s)"
  by (simp add: disk_write_def)

lemma disk_write_frame:
  "\<not> disk_touches root p q \<Longrightarrow> disk_read root q (snd (disk_write root p c s)) = disk_read root q s"
  by (rule disk_frame, assumption)
    (auto simp: disk_write_bad_path intro: disk_write_effect(1) [OF _ surjective_pairing])

lemma disk_write_read: "disk_write root p c s = (Inr u, t) \<Longrightarrow> disk_read root p t = Inr c"
  using disk_write_effect(2) [of root p _ c s "Inr u" t u]
  by (cases "safePath root p") (auto simp: disk_read_def disk_write_bad_path)

lemma disk_write_fail:
  "disk_write root p c s = (Inl e, t) \<Longrightarrow> disk_read root p t = disk_read root p s"
  using disk_write_effect(3) [of root p _ c s "Inl e" t e]
  by (cases "safePath root p") (auto simp: disk_read_def disk_write_bad_path)

interpretation dk: fs_contract "disk_backend root" "disk_touches root" disk_edited for root
proof (unfold_locales, goal_cases)
  case (1 p c s u t)
  then show ?case using disk_write_read by (simp add: disk_backend_def)
next
  case (2 p c s e t)
  then show ?case using disk_write_fail by (simp add: disk_backend_def)
next
  case (3 p q c s)
  then show ?case using disk_write_frame by (simp add: disk_backend_def)
next
  case (4 p i s u t)
  then show ?case
    using disk_edit_is_write [of root p i s "Inr u" t] disk_write_read by (fastforce simp: disk_backend_def)
next
  case (5 p q i s)
  obtain r t where e: "disk_edit root p i s = (r, t)" by fastforce
  from disk_edit_is_write [OF e] show ?case
  proof
    assume "\<exists>e. r = Inl e \<and> t = s"
    with e show ?thesis by (auto simp: disk_backend_def)
  next
    let ?c = "disk_edited (case disk_read root p s of Inr c \<Rightarrow> Some c | Inl _ \<Rightarrow> None) i"
    assume "disk_write root p ?c s = (r, t)"
    then have "snd (disk_write root p ?c s) = t" by simp
    with disk_write_frame [OF 5, of ?c s] e show ?thesis by (simp add: disk_backend_def)
  qed
qed

end
