(* ===== verification/Fs_Tools.thy ===== *)
theory Fs_Tools
  imports Fs_Backend Tools
begin

text \<open>
  The tools of \<open>tools/builtin/fs\<close> over any \<open>Backend\<close>: \<open>ls\<close>,
  \<open>read_file\<close>, \<open>write_file\<close>, \<open>edit_file\<close>. A tool's world is the
  backend's state; \<open>q\<close> is \<open>strconv.Quote\<close>, which the error texts use.
\<close>

definition ErrMissingPath :: gerr where
  "ErrMissingPath = ErrMsg ''path is required'' []"

definition ErrMissingPathOrContent :: gerr where
  "ErrMissingPathOrContent = ErrMsg ''path and content are required'' []"

definition ErrMissingPathOrInstructions :: gerr where
  "ErrMissingPathOrInstructions = ErrMsg ''path and instructions are required'' []"

text \<open>The schemas: the properties are strings, \<open>required\<close> is a \<open>[]string\<close>.\<close>

definition string_schema :: "string list \<Rightarrow> string list \<Rightarrow> params" where
  "string_schema props req =
     PMap ([(''type'', GStr ''object''),
            (''properties'', GObj (map (\<lambda>k. (k, GObj [(''type'', GStr ''string'')])) props))]
           @ (if req = [] then [] else [(''required'', strings req)])
           @ [(''additionalProperties'', GBool False)])"

text \<open>A tool from a function with Go errors: its error leaves as text.\<close>

definition of_res :: "(string \<Rightarrow> string) \<Rightarrow> 'a res \<times> 'w \<Rightarrow> (string + 'a) \<times> 'w" where
  "of_res q rw = (case rw of (Inl e, w) \<Rightarrow> (Inl (err_text q e), w) | (Inr v, w) \<Rightarrow> (Inr v, w))"

definition string_slice :: "string list option \<Rightarrow> gval" where
  "string_slice xo = (case xo of None \<Rightarrow> GNil | Some xs \<Rightarrow> strings xs)"

definition ls_call :: "'s backend \<Rightarrow> args option \<Rightarrow> 's \<Rightarrow> gval res \<times> 's" where
  "ls_call B as s =
     (let path = (case arg_string (args_of as) ''path'' of Some p \<Rightarrow> if p \<noteq> '''' then p else ''.'' | None \<Rightarrow> ''.'')
      in case be_list B path s of
           Inl e \<Rightarrow> (Inl e, s)
         | Inr files \<Rightarrow> (Inr (GObj [(''path'', GStr path), (''files'', string_slice files)]), s))"

definition NewLSTool :: "(string \<Rightarrow> string) \<Rightarrow> 's backend \<Rightarrow> 's tool" where
  "NewLSTool q B =
     NewToolWithParameters ''ls''
       ''List files and directories in the virtual filesystem. Args: path (optional, default: '.')''
       (string_schema [''path''] []) (\<lambda>as s. of_res q (ls_call B as s))"

definition read_call :: "'s backend \<Rightarrow> args option \<Rightarrow> 's \<Rightarrow> gval res \<times> 's" where
  "read_call B as s =
     (case arg_string (args_of as) ''path'' of
        None \<Rightarrow> (Inl ErrMissingPath, s)
      | Some path \<Rightarrow>
          if path = '''' then (Inl ErrMissingPath, s)
          else (case be_read B path s of
             Inl e \<Rightarrow> (Inl e, s)
           | Inr content \<Rightarrow> (Inr (GObj [(''path'', GStr path), (''content'', GStr content)]), s)))"

definition NewReadFileTool :: "(string \<Rightarrow> string) \<Rightarrow> 's backend \<Rightarrow> 's tool" where
  "NewReadFileTool q B =
     NewToolWithParameters ''read_file'' ''Read the content of a file. Args: path (required)''
       (string_schema [''path''] [''path'']) (\<lambda>as s. of_res q (read_call B as s))"

definition write_call :: "'s backend \<Rightarrow> args option \<Rightarrow> 's \<Rightarrow> gval res \<times> 's" where
  "write_call B as s =
     (case (arg_string (args_of as) ''path'', arg_string (args_of as) ''content'') of
        (Some path, Some content) \<Rightarrow>
          if path = '''' then (Inl ErrMissingPathOrContent, s)
          else (case be_write B path content s of
             (Inl e, t) \<Rightarrow> (Inl e, t)
           | (Inr _, t) \<Rightarrow> (Inr (GObj [(''path'', GStr path), (''status'', GStr ''written''),
                                  (''length'', GInt (int (length content)))]), t))
      | _ \<Rightarrow> (Inl ErrMissingPathOrContent, s))"

definition NewWriteFileTool :: "(string \<Rightarrow> string) \<Rightarrow> 's backend \<Rightarrow> 's tool" where
  "NewWriteFileTool q B =
     NewToolWithParameters ''write_file''
       ''Write content to a file (create or overwrite). Args: path (required), content (required)''
       (string_schema [''path'', ''content''] [''path'', ''content'']) (\<lambda>as s. of_res q (write_call B as s))"

definition edit_call :: "'s backend \<Rightarrow> args option \<Rightarrow> 's \<Rightarrow> gval res \<times> 's" where
  "edit_call B as s =
     (case (arg_string (args_of as) ''path'', arg_string (args_of as) ''instructions'') of
        (Some path, Some instructions) \<Rightarrow>
          if path = '''' \<or> instructions = '''' then (Inl ErrMissingPathOrInstructions, s)
          else (case be_edit B path instructions s of
             (Inl e, t) \<Rightarrow> (Inl e, t)
           | (Inr _, t) \<Rightarrow> (Inr (GObj [(''path'', GStr path), (''status'', GStr ''edited''),
                                  (''instructions'', GStr instructions)]), t))
      | _ \<Rightarrow> (Inl ErrMissingPathOrInstructions, s))"

definition NewEditFileTool :: "(string \<Rightarrow> string) \<Rightarrow> 's backend \<Rightarrow> 's tool" where
  "NewEditFileTool q B =
     NewToolWithParameters ''edit_file''
       ''Edit a file using natural language instructions (LLM-assisted). Args: path (required), instructions (required)''
       (string_schema [''path'', ''instructions''] [''path'', ''instructions''])
       (\<lambda>as s. of_res q (edit_call B as s))"

section \<open>The tools over a backend that meets its contract\<close>

context fs_contract
begin

lemma write_then_read:
  assumes "write_call B as s = (Inr v, t)" "args_of bs = [(''path'', GStr p)]"
    "arg_string (args_of as) ''path'' = Some p"
  shows "\<exists>c. arg_string (args_of as) ''content'' = Some c \<and>
    read_call B bs t = (Inr (GObj [(''path'', GStr p), (''content'', GStr c)]), t)"
proof -
  obtain c t' u where c: "arg_string (args_of as) ''content'' = Some c" and p: "p \<noteq> ''''"
    and "be_write B p c s = (Inr u, t)"
    using assms(1,3) by (auto simp: write_call_def split: option.splits if_splits prod.splits sum.splits)
  with write_read have "be_read B p t = Inr c" by blast
  moreover have "arg_string (args_of bs) ''path'' = Some p" by (simp add: assms(2) arg_string_def)
  ultimately show ?thesis using p c by (simp add: read_call_def)
qed

lemma edit_then_read:
  assumes "edit_call B as s = (Inr v, t)" "args_of bs = [(''path'', GStr p)]"
    "arg_string (args_of as) ''path'' = Some p"
  shows "\<exists>i. arg_string (args_of as) ''instructions'' = Some i \<and>
    read_call B bs t = (Inr (GObj [(''path'', GStr p),
      (''content'', GStr (edited (case be_read B p s of Inr c \<Rightarrow> Some c | Inl _ \<Rightarrow> None) i))]), t)"
proof -
  obtain i u where i: "arg_string (args_of as) ''instructions'' = Some i" and p: "p \<noteq> ''''"
    and "be_edit B p i s = (Inr u, t)"
    using assms(1,3) by (auto simp: edit_call_def split: option.splits if_splits prod.splits sum.splits)
  with edit_read have "be_read B p t = Inr (edited (case be_read B p s of Inr c \<Rightarrow> Some c | Inl _ \<Rightarrow> None) i)" by blast
  moreover have "arg_string (args_of bs) ''path'' = Some p" by (simp add: assms(2) arg_string_def)
  ultimately show ?thesis using p i by (simp add: read_call_def)
qed

end

end
