(* ===== verification/Fs_Claims.thy ===== *)
theory Fs_Claims
  imports Fs_Tools
begin

text \<open>
  The properties of the virtual file system, its tools, the argument checks of package
  \<open>tools\<close> and the check of path components.
\<close>

section \<open>Paths\<close>

lemma dotdot_elem_contains: "''..'' \<in> set (split_on CHR ''/'' c) \<Longrightarrow> contains ''..'' c"
proof -
  assume a: "''..'' \<in> set (split_on CHR ''/'' c)"
  have "\<exists>x y. c = x @ w @ y" if "w \<in> set (split_on CHR ''/'' c)" for w
    using that
  proof (induction c arbitrary: w)
    case (Cons d c)
    obtain v vs where v: "split_on CHR ''/'' c = v # vs" by (cases "split_on CHR ''/'' c") auto
    show ?case
    proof (cases "d = CHR ''/'' \<or> w \<in> set vs")
      case True
      with Cons.prems v have "w = [] \<or> w \<in> set (split_on CHR ''/'' c)" by auto
      with Cons.IH show ?thesis by (metis append_Cons append_Nil)
    next
      case False
      with Cons.prems v have w: "w = d # v" by (auto split: if_splits)
      have "\<exists>y. c = v @ y"
      proof -
        have "prefix (hd (split_on CHR ''/'' c)) c"
          by (induction c) (auto split: list.splits)
        with v show ?thesis by (auto simp: prefix_def)
      qed
      with w show ?thesis by (metis append_Cons append_Nil)
    qed
  qed simp
  with a show ?thesis by (simp only: contains_iff)
qed

lemma safePath_elems:
  assumes "safePath root p = Inr full" "root \<noteq> ''''"
  shows "\<exists>es. clean_elems full = clean_elems root @ es \<and> ''..'' \<notin> set es \<and> is_abs full = is_abs root"
proof -
  define c where "c = clean (if p = '''' then ''.'' else p)"
  from assms have nd: "\<not> contains ''..'' c" and full: "full = fjoin [root, c]"
    by (auto simp: safePath_def Let_def c_def split: if_splits)
  have ns: "''..'' \<notin> set (split_on CHR ''/'' c)" using nd dotdot_elem_contains by blast
  have f: "full = clean (root @ CHR ''/'' # c)" using full fjoin2 [OF assms(2)] by simp
  have "clean_elems full = clean_elems root @ filter (\<lambda>e. e \<noteq> '''' \<and> e \<noteq> ''.'') (split_on CHR ''/'' c)"
    using clean_elems_join_plain [OF assms(2) ns] f by simp
  moreover have "is_abs full = is_abs root" using assms(2) by (simp add: f is_abs_append)
  moreover have "''..'' \<notin> set (filter (\<lambda>e. e \<noteq> '''' \<and> e \<noteq> ''.'') (split_on CHR ''/'' c))"
    using ns by (simp only: set_filter mem_Collect_eq) blast
  ultimately show ?thesis by blast
qed

text \<open>
  C15: every path \<open>safePath\<close> lets through lies at or below the backend's root: the
  resolved path has the root's elements first, and no \<open>..\<close> after them. All disk
  operations resolve their path with it.
\<close>

theorem safePath_stays_below_root:
  assumes "safePath root p = Inr full" and "root \<noteq> ''''"
  shows "\<exists>es. clean_elems full = clean_elems root @ es \<and> ''..'' \<notin> set es \<and> is_abs full = is_abs root"
  by (rule safePath_elems [OF assms])

lemma safePath_stays_below_root_witness:
  "\<exists>es. clean_elems ''/r/a/b'' = clean_elems ''/r'' @ es \<and> ''..'' \<notin> set es \<and> is_abs ''/r/a/b'' = is_abs ''/r''"
  by (rule safePath_stays_below_root [of "''/r''" "''a//x/../b''"]) (code_simp, simp)

text \<open>
  A path component passes \<open>validatePathComponent\<close> exactly when it is empty or one
  plain path element: no slash or backslash, no \<open>..\<close> inside, not \<open>.\<close>.
\<close>

theorem validatePathComponent_iff:
  "validatePathComponent v f = None \<longleftrightarrow>
     (v = '''' \<or> (plain_elem v \<and> CHR 0x5C \<notin> set v \<and> \<not> contains ''..'' v))"
  by (rule validate_accepts_iff)

section \<open>The disk backend\<close>





end
