(* ===== verification/Tool_Claims.thy ===== *)
theory Tool_Claims
  imports Tools
begin

text \<open>
  The properties of package \<open>tools\<close>: what \<open>ValidateAgainstSchema\<close> accepts, and
  how the composable validators relate to it.
\<close>

lemma flat_lookup:
  "map_of (flat_schema req tys) ''type'' = Some (GStr ''object'')"
  "map_of (flat_schema req tys) ''required'' = Some (GArr (map GStr req))"
  "map_of (flat_schema req tys) ''properties'' =
     Some (GObj (map (\<lambda>(k, ty). (k, GObj [(''type'', GStr ty)])) tys))"
  by (simp_all add: flat_schema_def)


text \<open>
  C18: \<open>ValidateAgainstSchema\<close> accepts a call exactly when, for a schema of type
  \<open>object\<close>, each string in its \<open>required\<close> array is the name of an argument and
  each argument with a declared type has it; a schema of another type accepts everything.
\<close>

theorem ValidateAgainstSchema_iff:
  "ValidateAgainstSchema (Some sch) as = None \<longleftrightarrow>
     (map_of sch ''type'' = Some (GStr ''object'') \<longrightarrow>
        (\<forall>r rs. map_of sch ''required'' = Some (GArr rs) \<longrightarrow> GStr r \<in> set rs \<longrightarrow> lookup_arg as r \<noteq> None) \<and>
        (\<forall>props k ps ty v. map_of sch ''properties'' = Some (GObj props) \<longrightarrow> (k, GObj ps) \<in> set props \<longrightarrow>
           map_of ps ''type'' = Some (GStr ty) \<longrightarrow> lookup_arg as k = Some v \<longrightarrow> type_ok ty v))"
  by (rule ValidateAgainstSchema_None)

lemma ValidateAgainstSchema_iff_witness:
  "lookup_arg (Some [(''q'', GStr ''x'')]) ''q'' \<noteq> None \<and> type_ok ''string'' (GStr ''x'')"
proof -
  let ?sch = "flat_schema [''q''] [(''q'', ''string'')]"
  have "ValidateAgainstSchema (Some ?sch) (Some [(''q'', GStr ''x'')]) = None" by code_simp
  with ValidateAgainstSchema_iff [of ?sch "Some [(''q'', GStr ''x'')]"]
  show ?thesis by (auto simp: flat_lookup lookup_arg_def)
qed



text \<open>
  A wrapped tool with a chain of validators is called, on unchanged arguments, exactly
  when every validator passes; otherwise the first that does not decides: its error is the
  result and the world is untouched, or its panic ends the program.
\<close>

theorem wrapped_tool_is_guarded:
  "wrapped_call q (Some (ChainValidators vs)) t as w =
     (case find (\<lambda>v. v as \<noteq> Passes) vs of
        None \<Rightarrow> Some (t_call t as w)
      | Some v \<Rightarrow> (case v as of Fails e \<Rightarrow> Some (Inl (err_text q e), w) | _ \<Rightarrow> None))"
  by (induction vs) (auto simp: wrapped_call_def split: verdict.splits)

end
