(* ===== verification/Sandbox.thy ===== *)
theory Sandbox
  imports Fs_Tools
begin

text \<open>
  The sandbox \<open>tools/builtin/sandbox.go\<close> and the tool \<open>execute\<close>: the checks a
  command passes, the command line it is turned into for each isolation mode, and the
  processes \<open>Execute\<close> starts, in order.

  The operating system is a record of functions on a world \<open>'w\<close>: looking up a binary,
  \<open>Stat\<close>, \<open>filepath.Abs\<close>, and running a command to its end.
\<close>

record ExecuteConfig =
  AllowedCommands :: "(string \<times> bool) list"
  Timeout :: int
  MaxOutputSize :: int
  WorkingDir :: string
  MaxArgs :: int
  MaxArgLength :: int
  IsolationMode :: string
  ContainerBinary :: string
  ContainerImage :: string
  ContainerRuntime :: string
  ContainerNetwork :: string
  ContainerCPUs :: string
  ContainerMemory :: string
  ContainerPidsLimit :: int
  ReadOnlyRootFS :: bool
  ContainerUser :: string
  EnforceNonRootUser :: bool
  RequireRootless :: bool
  SeccompProfile :: string
  RequireSeccomp :: bool
  RequireImageAllowlist :: bool
  AllowedImages :: "string list"
  RequireSignedImages :: bool
  CosignBinary :: string
  CosignKeyRef :: string
  SignatureVerifyTimeout :: int

text \<open>A command handed to \<open>exec\<close>, with the deadlines its context has, innermost first.\<close>

record command =
  c_name :: string
  c_args :: "string list"
  c_dir :: string
  c_env :: "string list"
  c_deadlines :: "int list"

record 'w os_env =
  look_path :: "string \<Rightarrow> 'w \<Rightarrow> bool"
  stat_ok :: "string \<Rightarrow> 'w \<Rightarrow> bool"
  abs_path :: "string \<Rightarrow> 'w \<Rightarrow> string + string"
  run_cmd :: "command \<Rightarrow> 'w \<Rightarrow> (string \<times> string option) \<times> 'w"  \<comment> \<open>output, text of the error\<close>
  os_ul :: "string \<Rightarrow> string"                  \<comment> \<open>the Unicode part of \<open>strings.ToLower\<close>\<close>

definition safe_env :: "string list" where
  "safe_env = [''PATH=/usr/bin:/bin:/usr/sbin:/sbin'']"

section \<open>Environment variables\<close>

definition getenvOrDefault :: "(string \<Rightarrow> string) \<Rightarrow> string \<Rightarrow> string \<Rightarrow> string" where
  "getenvOrDefault getenv key fallback =
     (let v = trim_space (getenv key) in if v = '''' then fallback else v)"

definition getenvIntOrDefault :: "(string \<Rightarrow> string) \<Rightarrow> string \<Rightarrow> int \<Rightarrow> int" where
  "getenvIntOrDefault getenv key fallback =
     (let v = trim_space (getenv key)
      in if v = '''' then fallback else case atoi v of Some n \<Rightarrow> n | None \<Rightarrow> fallback)"

definition getenvBoolOrDefault :: "(string \<Rightarrow> string) \<Rightarrow> (string \<Rightarrow> string) \<Rightarrow> string \<Rightarrow> bool \<Rightarrow> bool" where
  "getenvBoolOrDefault ul getenv key fallback =
     (let v = trim_space (to_lower ul (getenv key))
      in if v = '''' then fallback
         else if v \<in> {''1'', ''true'', ''yes'', ''y'', ''on''} then True
         else if v \<in> {''0'', ''false'', ''no'', ''n'', ''off''} then False
         else fallback)"

text \<open>\<open>pd\<close> is \<open>time.ParseDuration\<close>.\<close>

definition getenvDurationOrDefault ::
  "(string \<Rightarrow> int option) \<Rightarrow> (string \<Rightarrow> string) \<Rightarrow> string \<Rightarrow> int \<Rightarrow> int" where
  "getenvDurationOrDefault pd getenv key fallback =
     (let v = trim_space (getenv key)
      in if v = '''' then fallback else case pd v of Some d \<Rightarrow> d | None \<Rightarrow> fallback)"

definition parseCSVEnv :: "(string \<Rightarrow> string) \<Rightarrow> string \<Rightarrow> string list" where
  "parseCSVEnv getenv key =
     (let raw = trim_space (getenv key)
      in if raw = '''' then []
         else filter (\<lambda>p. p \<noteq> '''') (map trim_space (split_on (CHR '','') raw)))"

definition second :: int where "second = 1000000000"

definition default_commands :: "string list" where
  "default_commands =
     [''ls'', ''cat'', ''echo'', ''pwd'', ''whoami'', ''date'', ''grep'', ''head'', ''tail'', ''wc'', ''sort'',
      ''uniq'', ''cut'', ''tr'', ''sed'', ''awk'', ''find'', ''test'', ''stat'', ''file'', ''which'', ''dirname'',
      ''basename'']"

definition DefaultExecuteConfig ::
  "(string \<Rightarrow> string) \<Rightarrow> (string \<Rightarrow> int option) \<Rightarrow> (string \<Rightarrow> string) \<Rightarrow> ExecuteConfig" where
  "DefaultExecuteConfig ul pd getenv =
     (let image = getenvOrDefault getenv ''DEEPAGENT_SANDBOX_IMAGE'' ''alpine:3.20'';
          allowlist = (let l = parseCSVEnv getenv ''DEEPAGENT_SANDBOX_ALLOWED_IMAGES''
                       in if l = [] then [image] else l)
      in \<lparr>AllowedCommands = map (\<lambda>c. (c, True)) default_commands,
          Timeout = 30 * second, MaxOutputSize = 1024 * 1024, WorkingDir = ''.'',
          MaxArgs = 16, MaxArgLength = 256,
          IsolationMode = getenvOrDefault getenv ''DEEPAGENT_SANDBOX_MODE'' ''process'',
          ContainerBinary = getenvOrDefault getenv ''DEEPAGENT_SANDBOX_BIN'' ''docker'',
          ContainerImage = image,
          ContainerRuntime = getenvOrDefault getenv ''DEEPAGENT_SANDBOX_RUNTIME'' ''runsc'',
          ContainerNetwork = getenvOrDefault getenv ''DEEPAGENT_SANDBOX_NETWORK'' ''none'',
          ContainerCPUs = getenvOrDefault getenv ''DEEPAGENT_SANDBOX_CPUS'' ''0.5'',
          ContainerMemory = getenvOrDefault getenv ''DEEPAGENT_SANDBOX_MEMORY'' ''256m'',
          ContainerPidsLimit = getenvIntOrDefault getenv ''DEEPAGENT_SANDBOX_PIDS_LIMIT'' 64,
          ReadOnlyRootFS = True,
          ContainerUser = getenvOrDefault getenv ''DEEPAGENT_SANDBOX_CONTAINER_USER'' ''65532:65532'',
          EnforceNonRootUser = getenvBoolOrDefault ul getenv ''DEEPAGENT_SANDBOX_NONROOT'' True,
          RequireRootless = getenvBoolOrDefault ul getenv ''DEEPAGENT_SANDBOX_REQUIRE_ROOTLESS'' True,
          SeccompProfile = trim_space (getenv ''DEEPAGENT_SANDBOX_SECCOMP_PROFILE''),
          RequireSeccomp = getenvBoolOrDefault ul getenv ''DEEPAGENT_SANDBOX_REQUIRE_SECCOMP'' False,
          RequireImageAllowlist = getenvBoolOrDefault ul getenv ''DEEPAGENT_SANDBOX_REQUIRE_IMAGE_ALLOWLIST'' True,
          AllowedImages = allowlist,
          RequireSignedImages = getenvBoolOrDefault ul getenv ''DEEPAGENT_SANDBOX_REQUIRE_SIGNED_IMAGES'' False,
          CosignBinary = getenvOrDefault getenv ''DEEPAGENT_SANDBOX_COSIGN_BIN'' ''cosign'',
          CosignKeyRef = trim_space (getenv ''DEEPAGENT_SANDBOX_COSIGN_KEY''),
          SignatureVerifyTimeout =
            getenvDurationOrDefault pd getenv ''DEEPAGENT_SANDBOX_SIGNATURE_TIMEOUT'' (20 * second)\<rparr>)"

section \<open>Checks\<close>

definition filepathIsSafe :: "'w os_env \<Rightarrow> 'w \<Rightarrow> string \<Rightarrow> bool" where
  "filepathIsSafe env w dir =
     (dir \<noteq> '''' \<and> \<not> contains ''..'' dir \<and> \<not> contains_any [CHR 0x0A, CHR 0x0D] dir
      \<and> \<not> prefix ''~'' dir \<and> stat_ok env dir w)"

fun imageAllowed :: "string \<Rightarrow> string list \<Rightarrow> bool" where
  "imageAllowed img [] = False"
| "imageAllowed img (a # as) =
     (let allowed = trim_space a in
      if allowed = '''' then imageAllowed img as
      else if has_suffix ''*'' allowed
      then (if prefix (trim_suffix ''*'' allowed) img then True else imageAllowed img as)
      else if img = allowed then True
      else imageAllowed img as)"

definition shell_chars :: string where
  "shell_chars = [CHR ''|'', CHR ''&'', CHR '';'', CHR ''>'', CHR ''<'', CHR 0x60, CHR ''$'', CHR 0x5C,
     CHR 0x0A, CHR 0x0D]"

fun check_args :: "ExecuteConfig \<Rightarrow> string list \<Rightarrow> gerr option" where
  "check_args cfg [] = None"
| "check_args cfg (arg # args) =
     (if MaxArgLength cfg > 0 \<and> int (length arg) > MaxArgLength cfg
      then Some (ErrMsg ''argument too long: %q'' [arg])
      else if contains ''..'' arg then Some (ErrMsg ''unsafe argument detected: %q'' [arg])
      else check_args cfg args)"

text \<open>
  The checks at the head of \<open>Execute\<close>: the words of the command, or an error. The
  case of no words would be an index out of range in \<open>parts[0]\<close>; it cannot happen
  (\<open>fields_trimmed\<close>).
\<close>

definition check_command :: "ExecuteConfig \<Rightarrow> string \<Rightarrow> (string list) res" where
  "check_command cfg cmdline =
     (let command = trim_space cmdline in
      if command = '''' then Inl (ErrMsg ''empty command'' [])
      else if contains_any shell_chars command then Inl (ErrMsg ''unsafe command syntax detected'' [])
      else case Prelude.fields command of
        [] \<Rightarrow> Inl (ErrMsg ''index out of range'' [])
      | p # args \<Rightarrow>
          if map_of (AllowedCommands cfg) p \<noteq> Some True
          then Inl (ErrMsg ''command not allowed in sandbox: %s'' [p])
          else if MaxArgs cfg > 0 \<and> int (length args) > MaxArgs cfg
          then Inl (ErrMsg ''too many arguments: max %d'' [itoa_int (MaxArgs cfg)])
          else (case check_args cfg args of Some e \<Rightarrow> Inl e | None \<Rightarrow> Inr (p # args)))"

section \<open>Command lines\<close>

definition buildProcessCommand :: "'w os_env \<Rightarrow> ExecuteConfig \<Rightarrow> 'w \<Rightarrow> string list \<Rightarrow> command res" where
  "buildProcessCommand env cfg w parts =
     (if WorkingDir cfg \<noteq> '''' \<and> \<not> filepathIsSafe env w (WorkingDir cfg)
      then Inl (ErrMsg ''unsafe working dir configured: %s'' [WorkingDir cfg])
      else Inr \<lparr>c_name = hd parts, c_args = tl parts, c_dir = WorkingDir cfg, c_env = safe_env,
                c_deadlines = []\<rparr>)"

definition opt_flag :: "string \<Rightarrow> string \<Rightarrow> string list" where
  "opt_flag flag v = (if trim_space v \<noteq> '''' then [flag, trim_space v] else [])"

definition user_args :: "ExecuteConfig \<Rightarrow> (string list) res" where
  "user_args cfg =
     (if \<not> EnforceNonRootUser cfg then Inr []
      else if trim_space (ContainerUser cfg) = ''''
      then Inl (ErrMsg ''container user is required when EnforceNonRootUser=true'' [])
      else Inr [''--user'', trim_space (ContainerUser cfg)])"

definition seccomp_args :: "'w os_env \<Rightarrow> ExecuteConfig \<Rightarrow> 'w \<Rightarrow> (string list) res" where
  "seccomp_args env cfg w =
     (let profile = trim_space (SeccompProfile cfg) in
      if profile = '''' then Inr []
      else if \<not> filepathIsSafe env w profile then Inl (ErrMsg ''unsafe seccomp profile path: %s'' [profile])
      else case abs_path env profile w of
        Inl e \<Rightarrow> Inl (ErrMsg ''%s'' [e])
      | Inr p \<Rightarrow> Inr [''--security-opt'', ''seccomp='' @ p])"

definition workdir_args :: "'w os_env \<Rightarrow> ExecuteConfig \<Rightarrow> 'w \<Rightarrow> (string list) res" where
  "workdir_args env cfg w =
     (let workDir = WorkingDir cfg in
      if workDir = '''' then Inr []
      else if \<not> filepathIsSafe env w workDir then Inl (ErrMsg ''unsafe working dir configured: %s'' [workDir])
      else case abs_path env workDir w of
        Inl e \<Rightarrow> Inl (ErrMsg ''%s'' [e])
      | Inr p \<Rightarrow> Inr [''-v'', p @ '':/workspace:ro'', ''-w'', ''/workspace''])"

definition or_default :: "string \<Rightarrow> string \<Rightarrow> string" where
  "or_default s d = (if trim_space s = '''' then d else trim_space s)"

text \<open>The options of \<open>run\<close> up to the user's, fixed by the configuration.\<close>

definition base_args :: "ExecuteConfig \<Rightarrow> string list" where
  "base_args cfg =
     [''--network'', or_default (ContainerNetwork cfg) ''none'']
     @ (if ContainerPidsLimit cfg > 0 then [''--pids-limit'', itoa_int (ContainerPidsLimit cfg)] else [])
     @ opt_flag ''--cpus'' (ContainerCPUs cfg) @ opt_flag ''--memory'' (ContainerMemory cfg)
     @ (if ReadOnlyRootFS cfg then [''--read-only'', ''--tmpfs'', ''/tmp:rw,noexec,nosuid,size=64m''] else [])
     @ [''--cap-drop'', ''ALL'', ''--security-opt'', ''no-new-privileges'']"

definition buildContainerCommand ::
  "'w os_env \<Rightarrow> ExecuteConfig \<Rightarrow> 'w \<Rightarrow> string \<Rightarrow> string list \<Rightarrow> command res" where
  "buildContainerCommand env cfg w mode parts =
     (let bin = or_default (ContainerBinary cfg) ''docker'';
          image = trim_space (ContainerImage cfg)
      in if \<not> look_path env bin w then Inl (ErrMsg ''container runtime binary not found: %s'' [bin])
         else if image = '''' then Inl (ErrMsg ''container image is required for %s mode'' [mode])
         else if RequireImageAllowlist cfg \<and> \<not> imageAllowed image (AllowedImages cfg)
         then Inl (ErrMsg ''container image is not in allowlist: %s'' [image])
         else case user_args cfg of
           Inl e \<Rightarrow> Inl e
         | Inr user \<Rightarrow>
             (case seccomp_args env cfg w of
                Inl e \<Rightarrow> Inl e
              | Inr seccomp \<Rightarrow>
                  let runtime = (if mode = ''gvisor''
                                 then [''--runtime'', or_default (ContainerRuntime cfg) ''runsc''] else [])
                  in case workdir_args env cfg w of
                       Inl e \<Rightarrow> Inl e
                     | Inr workdir \<Rightarrow>
                         Inr \<lparr>c_name = bin,
                              c_args = [''run'', ''--rm''] @ base_args cfg @ user @ seccomp @ runtime @ workdir
                                @ [image] @ parts,
                              c_dir = '''', c_env = safe_env, c_deadlines = []\<rparr>))"

definition buildCommandForMode ::
  "'w os_env \<Rightarrow> ExecuteConfig \<Rightarrow> 'w \<Rightarrow> string \<Rightarrow> string list \<Rightarrow> command res" where
  "buildCommandForMode env cfg w mode parts =
     (if mode = ''process'' then buildProcessCommand env cfg w parts
      else if mode = ''docker'' \<or> mode = ''gvisor'' then buildContainerCommand env cfg w mode parts
      else Inl (ErrMsg ''unsupported sandbox isolation mode: %s'' [mode]))"

section \<open>Processes\<close>

text \<open>The commands run so far, in order, each with the text of its error, and the world.\<close>

type_synonym 'w procs = "(command \<times> string option) list \<times> 'w"

definition start :: "'w os_env \<Rightarrow> command \<Rightarrow> 'w procs \<Rightarrow> (string \<times> string option) \<times> 'w procs" where
  "start env c pw =
     (case run_cmd env c (snd pw) of (res, w1) \<Rightarrow> (res, (fst pw @ [(c, snd res)], w1)))"

definition docker_info :: "ExecuteConfig \<Rightarrow> int list \<Rightarrow> command" where
  "docker_info cfg ds =
     \<lparr>c_name = or_default (ContainerBinary cfg) ''docker'',
      c_args = [''info'', ''--format'', ''{{json .SecurityOptions}}''],
      c_dir = '''', c_env = safe_env, c_deadlines = 5 * second # ds\<rparr>"

definition isRootlessDocker :: "'w os_env \<Rightarrow> ExecuteConfig \<Rightarrow> int list \<Rightarrow> 'w procs \<Rightarrow> bool res \<times> 'w procs" where
  "isRootlessDocker env cfg ds pw =
     (let bin = or_default (ContainerBinary cfg) ''docker'' in
      if \<not> look_path env bin (snd pw)
      then (Inl (ErrMsg ''container runtime binary not found: %s'' [bin]), pw)
      else case start env (docker_info cfg ds) pw of
        ((out, Some e), pw1) \<Rightarrow>
          (Inl (ErrMsg ''failed to inspect docker rootless mode: %v (%s)'' [e, trim_space out]), pw1)
      | ((out, None), pw1) \<Rightarrow> (Inr (contains ''rootless'' (to_lower (os_ul env) out)), pw1))"

definition validateContainerPolicy ::
  "'w os_env \<Rightarrow> ExecuteConfig \<Rightarrow> int list \<Rightarrow> 'w procs \<Rightarrow> gerr option \<times> 'w procs" where
  "validateContainerPolicy env cfg ds pw =
     (if RequireSeccomp cfg \<and> trim_space (SeccompProfile cfg) = ''''
      then (Some (ErrMsg ''seccomp profile is required but not configured'' []), pw)
      else if RequireRootless cfg then
        (case isRootlessDocker env cfg ds pw of
           (Inl e, pw1) \<Rightarrow> (Some e, pw1)
         | (Inr ok, pw1) \<Rightarrow>
             (if ok then None else Some (ErrMsg ''rootless docker is required but not detected'' []), pw1))
      else (None, pw))"

definition cosign_verify :: "ExecuteConfig \<Rightarrow> int list \<Rightarrow> command" where
  "cosign_verify cfg ds =
     \<lparr>c_name = or_default (CosignBinary cfg) ''cosign'',
      c_args = ''verify'' # opt_flag ''--key'' (CosignKeyRef cfg) @ [trim_space (ContainerImage cfg)],
      c_dir = '''', c_env = safe_env,
      c_deadlines = (if SignatureVerifyTimeout cfg > 0 then SignatureVerifyTimeout cfg # ds else ds)\<rparr>"

definition verifyImageSignature ::
  "'w os_env \<Rightarrow> ExecuteConfig \<Rightarrow> int list \<Rightarrow> 'w procs \<Rightarrow> gerr option \<times> 'w procs" where
  "verifyImageSignature env cfg ds pw =
     (let bin = or_default (CosignBinary cfg) ''cosign'' in
      if \<not> RequireSignedImages cfg then (None, pw)
      else if \<not> look_path env bin (snd pw) then (Some (ErrMsg ''cosign not found: %s'' [bin]), pw)
      else case start env (cosign_verify cfg ds) pw of
        ((out, Some e), pw1) \<Rightarrow>
          (Some (ErrMsg ''image signature verification failed: %v (%s)'' [e, trim_space out]), pw1)
      | ((out, None), pw1) \<Rightarrow> (None, pw1))"

definition truncated :: "ExecuteConfig \<Rightarrow> string \<Rightarrow> string" where
  "truncated cfg out =
     (if MaxOutputSize cfg > 0 \<and> int (length out) > MaxOutputSize cfg
      then take (nat (MaxOutputSize cfg)) out @ [CHR 0x0A] @ ''...output truncated...'' @ [CHR 0x0A]
      else out)"

definition container_mode :: "string \<Rightarrow> bool" where
  "container_mode mode = (mode = ''docker'' \<or> mode = ''gvisor'')"

definition isolation_mode :: "'w os_env \<Rightarrow> ExecuteConfig \<Rightarrow> string" where
  "isolation_mode env cfg =
     (let mode = to_lower (os_ul env) (trim_space (IsolationMode cfg)) in if mode = '''' then ''process'' else mode)"

text \<open>The policy checks of the container modes: the policy, then the signature.\<close>

definition container_checks ::
  "'w os_env \<Rightarrow> ExecuteConfig \<Rightarrow> string \<Rightarrow> int list \<Rightarrow> 'w procs \<Rightarrow> gerr option \<times> 'w procs" where
  "container_checks env cfg mode ds pw =
     (if \<not> container_mode mode then (None, pw)
      else case validateContainerPolicy env cfg ds pw of
        (Some e, pw1) \<Rightarrow> (Some e, pw1)
      | (None, pw1) \<Rightarrow> verifyImageSignature env cfg ds pw1)"

definition Execute :: "'w os_env \<Rightarrow> ExecuteConfig \<Rightarrow> string \<Rightarrow> 'w procs \<Rightarrow> (string \<times> gerr option) \<times> 'w procs" where
  "Execute env cfg cmdline pw =
     (case check_command cfg cmdline of
        Inl e \<Rightarrow> (('''', Some e), pw)
      | Inr parts \<Rightarrow>
          let mode = isolation_mode env cfg;
              ds = (if Timeout cfg > 0 then [Timeout cfg] else [])
          in case container_checks env cfg mode ds pw of
               (Some e, pw1) \<Rightarrow> (('''', Some e), pw1)
             | (None, pw1) \<Rightarrow>
                 (case buildCommandForMode env cfg (snd pw1) mode parts of
                    Inl e \<Rightarrow> (('''', Some e), pw1)
                  | Inr cmd \<Rightarrow>
                      (case start env (cmd\<lparr>c_deadlines := ds\<rparr>) pw1 of
                         ((out, err), pw2) \<Rightarrow>
                           ((truncated cfg out, map_option (\<lambda>e. ErrMsg ''%s'' [e]) err), pw2))))"

section \<open>\<open>SandboxBackend\<close> and the tool \<open>execute\<close>\<close>

text \<open>
  The file operations of \<open>SandboxBackend\<close> are those of the inner backend; a nil inner
  backend is replaced by an in-memory one.
\<close>

record 's SandboxBackend =
  sb_inner :: "'s backend"
  sb_config :: ExecuteConfig

definition NewSandboxBackend ::
  "(string \<Rightarrow> string) \<Rightarrow> (string \<Rightarrow> int option) \<Rightarrow> (string \<Rightarrow> string) \<Rightarrow>
     InMemoryBackend backend option \<Rightarrow> InMemoryBackend SandboxBackend" where
  "NewSandboxBackend ul pd getenv inner =
     \<lparr>sb_inner = (case inner of None \<Rightarrow> inmem_backend | Some b \<Rightarrow> b),
      sb_config = DefaultExecuteConfig ul pd getenv\<rparr>"

definition NewSandboxBackendWithConfig ::
  "InMemoryBackend backend option \<Rightarrow> ExecuteConfig \<Rightarrow> InMemoryBackend SandboxBackend" where
  "NewSandboxBackendWithConfig inner config =
     \<lparr>sb_inner = (case inner of None \<Rightarrow> inmem_backend | Some b \<Rightarrow> b), sb_config = config\<rparr>"

definition sandbox_backend :: "'s SandboxBackend \<Rightarrow> 's backend" where
  "sandbox_backend sb =
     \<lparr>be_list = be_list (sb_inner sb), be_read = be_read (sb_inner sb),
      be_write = be_write (sb_inner sb), be_edit = be_edit (sb_inner sb)\<rparr>"

definition execute_call :: "'w os_env \<Rightarrow> ExecuteConfig \<Rightarrow> args option \<Rightarrow> 'w procs \<Rightarrow> gval res \<times> 'w procs" where
  "execute_call env cfg as pw =
     (case arg_string (args_of as) ''command'' of
        None \<Rightarrow> (Inl (ErrMsg ''command is required'' []), pw)
      | Some cmd \<Rightarrow>
          if cmd = '''' then (Inl (ErrMsg ''command is required'' []), pw)
          else (case Execute env cfg cmd pw of
             ((output, Some err), pw1) \<Rightarrow>
               (Inl (if output \<noteq> '''' then ErrWrap ''execute failed: %w; output: %s'' err [output]
                     else ErrWrap ''execute failed: %w'' err []), pw1)
           | ((output, None), pw1) \<Rightarrow>
               (Inr (GObj [(''command'', GStr cmd), (''output'', GStr output), (''error'', GBool False)]), pw1)))"

definition NewExecuteToolWithConfig ::
  "(string \<Rightarrow> string) \<Rightarrow> 'w os_env \<Rightarrow> ExecuteConfig \<Rightarrow> 'w procs tool" where
  "NewExecuteToolWithConfig q env cfg =
     NewToolWithParameters ''execute'' ''Execute a command in secure sandbox. Args: command (required)''
       (string_schema [''command''] [''command'']) (\<lambda>as pw. of_res q (execute_call env cfg as pw))"

section \<open>Lemmas\<close>

lemma sandbox_backend_inner: "sandbox_backend sb = sb_inner sb"
  by (simp add: sandbox_backend_def)

text \<open>A trimmed, nonempty command has a first word.\<close>

lemma strip_encs_head:
  assumes "\<forall>e \<in> set encs. e \<noteq> []" "strip_encs encs s = c # cs"
  shows "find (\<lambda>e. prefix e (c # cs)) encs = None"
  using assms
proof (induction encs s rule: strip_encs.induct)
  case (2 encs d ds)
  then show ?case by (auto split: option.splits)
qed simp

lemma space_nonempty: "\<forall>e \<in> set space_encs. e \<noteq> []"
  by (simp add: space_encs_def)

lemma fields_aux_word: "w \<noteq> [] \<Longrightarrow> fields_aux w s \<noteq> []"
  by (induction w s rule: fields_aux.induct) (auto split: option.splits)

lemma strip_encs_suffix: "suffix (strip_encs encs s) s"
proof (induction encs s rule: strip_encs.induct)
  case (2 encs c cs)
  show ?case
  proof (cases "find (\<lambda>e. prefix e (c # cs)) encs")
    case (Some e)
    with 2 have "suffix (strip_encs encs (drop (length e - 1) cs)) (drop (length e - 1) cs)" by simp
    with Some show ?thesis
      by simp (metis suffix_Cons suffix_drop suffix_order.trans)
  qed simp
qed simp

lemma fields_trimmed:
  assumes "trim_space s \<noteq> ''''" shows "Prelude.fields (trim_space s) \<noteq> []"
proof -
  define x where "x = strip_encs space_encs s"
  have "suffix (strip_encs (map rev space_encs) (rev x)) (rev x)" by (rule strip_encs_suffix)
  then have pre: "prefix (trim_space s) x" by (simp add: trim_space_def x_def suffix_to_prefix)
  with assms obtain c cs where t: "trim_space s = c # cs" by (cases "trim_space s") auto
  with pre obtain d ds where x: "x = d # ds" by (cases x) auto
  have "find (\<lambda>e. prefix e (d # ds)) space_encs = None"
    using strip_encs_head [OF space_nonempty] x unfolding x_def by blast
  then have "find (\<lambda>e. prefix e (c # cs)) space_encs = None"
    unfolding find_None_iff using pre t x by (metis prefix_order.trans)
  then show ?thesis by (simp add: t Prelude.fields_def fields_aux_word)
qed

section \<open>What the checks accept\<close>

text \<open>A word of a command that passed the checks.\<close>

definition safe_word :: "string \<Rightarrow> bool" where
  "safe_word p = (set shell_chars \<inter> set p = {})"

definition safe_arg :: "ExecuteConfig \<Rightarrow> string \<Rightarrow> bool" where
  "safe_arg cfg a \<longleftrightarrow>
     safe_word a \<and> \<not> contains ''..'' a \<and> (MaxArgLength cfg \<le> 0 \<or> int (length a) \<le> MaxArgLength cfg)"

definition safe_parts :: "ExecuteConfig \<Rightarrow> string list \<Rightarrow> bool" where
  "safe_parts cfg parts \<longleftrightarrow>
     (case parts of
        [] \<Rightarrow> False
      | p # args \<Rightarrow>
          map_of (AllowedCommands cfg) p = Some True \<and> safe_word p \<and>
          (MaxArgs cfg \<le> 0 \<or> int (length args) \<le> MaxArgs cfg) \<and> list_all (safe_arg cfg) args)"

lemma fields_aux_chars: "p \<in> set (fields_aux w s) \<Longrightarrow> set p \<subseteq> set w \<union> set s"
proof (induction w s arbitrary: p rule: fields_aux.induct)
  case (2 w c cs)
  show ?case
  proof (cases "find (\<lambda>e. prefix e (c # cs)) space_encs")
    case None
    with 2 show ?thesis by fastforce
  next
    case (Some e)
    with 2 show ?thesis by (auto dest: set_drop_subset [THEN subsetD] split: if_splits)
  qed
qed (auto split: if_splits)

lemma check_args_None:
  "check_args cfg args = None \<longleftrightarrow>
     (\<forall>a \<in> set args. \<not> contains ''..'' a \<and> (MaxArgLength cfg \<le> 0 \<or> int (length a) \<le> MaxArgLength cfg))"
  by (induction args) auto

lemma check_command_safe:
  assumes "check_command cfg cmd = Inr parts"
  shows "parts = Prelude.fields (trim_space cmd) \<and> safe_parts cfg parts"
proof -
  let ?c = "trim_space cmd"
  from assms have "\<not> contains_any shell_chars ?c"
    by (auto simp: check_command_def Let_def split: if_splits)
  then have w: "safe_word p" if "p \<in> set (Prelude.fields ?c)" for p
    using fields_aux_chars [of p "[]" ?c] that by (auto simp: safe_word_def Prelude.fields_def)
  from assms obtain p args where f: "Prelude.fields ?c = p # args" "parts = p # args"
    and a: "map_of (AllowedCommands cfg) p = Some True" "check_args cfg args = None"
    "\<not> (MaxArgs cfg > 0 \<and> int (length args) > MaxArgs cfg)"
    by (auto simp: check_command_def Let_def split: if_splits list.splits option.splits)
  have "\<forall>x \<in> set (p # args). safe_word x" using w f(1) by metis
  with f a show ?thesis by (auto simp: safe_parts_def check_args_None list_all_iff safe_arg_def)
qed

end
