(* ===== verification/Sandbox_Claims.thy ===== *)
theory Sandbox_Claims
  imports Sandbox
begin

text \<open>
  The properties of the sandbox: what runs, after which checks, with which options.
\<close>

section \<open>Policy checks\<close>









section \<open>The container's command line\<close>

text \<open>
  C21: a container command is \<open>run --rm\<close>, options, the image, the words of the command,
  in this order: the options are the same for every command, so no word of the user's can be
  one. They always drop all capabilities and forbid new privileges; they set the user when
  the configuration enforces one, mount the root read-only when it asks for that, and the
  image is on the allowlist when one is required.
\<close>

theorem container_options_fixed:
  assumes "buildContainerCommand env cfg w mode parts = Inr c"
  shows "\<exists>opts. (\<forall>ps. buildContainerCommand env cfg w mode ps =
        Inr (c\<lparr>c_args := [''run'', ''--rm''] @ opts @ [trim_space (ContainerImage cfg)] @ ps\<rparr>)) \<and>
      sublist [''--cap-drop'', ''ALL''] opts \<and> sublist [''--security-opt'', ''no-new-privileges''] opts \<and>
      sublist [''--network'', or_default (ContainerNetwork cfg) ''none''] opts \<and>
      (EnforceNonRootUser cfg \<longrightarrow> sublist [''--user'', trim_space (ContainerUser cfg)] opts) \<and>
      (ReadOnlyRootFS cfg \<longrightarrow> ''--read-only'' \<in> set opts) \<and>
      (RequireImageAllowlist cfg \<longrightarrow> imageAllowed (trim_space (ContainerImage cfg)) (AllowedImages cfg))"
proof -
  obtain user seccomp workdir where u: "user_args cfg = Inr user" and s: "seccomp_args env cfg w = Inr seccomp"
    and d: "workdir_args env cfg w = Inr workdir"
    and lp: "look_path env (or_default (ContainerBinary cfg) ''docker'') w"
    and im: "trim_space (ContainerImage cfg) \<noteq> ''''"
    and al: "RequireImageAllowlist cfg \<longrightarrow> imageAllowed (trim_space (ContainerImage cfg)) (AllowedImages cfg)"
    using assms by (auto simp: buildContainerCommand_def Let_def split: if_splits sum.splits)
  define rt where "rt = (if mode = ''gvisor'' then [''--runtime'', or_default (ContainerRuntime cfg) ''runsc''] else [])"
  define opts where "opts = base_args cfg @ user @ seccomp @ rt @ workdir"
  have built: "buildContainerCommand env cfg w mode ps =
      Inr \<lparr>c_name = or_default (ContainerBinary cfg) ''docker'',
        c_args = [''run'', ''--rm''] @ opts @ [trim_space (ContainerImage cfg)] @ ps,
        c_dir = '''', c_env = safe_env, c_deadlines = []\<rparr>" for ps
    using u s d lp im al by (simp add: buildContainerCommand_def Let_def opts_def rt_def)
  then have c: "buildContainerCommand env cfg w mode ps =
      Inr (c\<lparr>c_args := [''run'', ''--rm''] @ opts @ [trim_space (ContainerImage cfg)] @ ps\<rparr>)" for ps
    using assms by auto
  have mid: "sublist xs (a @ xs @ b)" for xs a b :: "string list" by simp
  have "sublist [''--cap-drop'', ''ALL''] opts" "sublist [''--security-opt'', ''no-new-privileges''] opts"
    "sublist [''--network'', or_default (ContainerNetwork cfg) ''none''] opts"
    unfolding opts_def base_args_def sublist_def
    by (metis append.assoc append_Cons append_Nil)+
  moreover have "sublist [''--user'', trim_space (ContainerUser cfg)] opts" if "EnforceNonRootUser cfg"
    using u that mid [of user "base_args cfg"] by (auto simp: user_args_def opts_def split: if_splits)
  moreover have "''--read-only'' \<in> set opts" if "ReadOnlyRootFS cfg"
    using that by (simp add: opts_def base_args_def)
  ultimately show ?thesis using c al by blast
qed

definition demo_env :: "unit os_env" where
  "demo_env = \<lparr>look_path = (\<lambda>_ _. True), stat_ok = (\<lambda>_ _. True), abs_path = (\<lambda>p _. Inr (''/abs/'' @ p)),
     run_cmd = (\<lambda>c w. ((''ok'', None), w)), os_ul = (\<lambda>s. s)\<rparr>"

definition demo_cfg :: ExecuteConfig where
  "demo_cfg = DefaultExecuteConfig (\<lambda>s. s) (\<lambda>s. None) (\<lambda>k. '''')"

lemma container_options_fixed_witness:
  "\<exists>c opts. (\<forall>ps. buildContainerCommand demo_env demo_cfg () ''gvisor'' ps =
      Inr (c\<lparr>c_args := [''run'', ''--rm''] @ opts @ [trim_space (ContainerImage demo_cfg)] @ ps\<rparr>)) \<and>
    sublist [''--cap-drop'', ''ALL''] opts"
proof -
  have "is_ok (buildContainerCommand demo_env demo_cfg () ''gvisor'' [''ls''])" by code_simp
  then obtain c where "buildContainerCommand demo_env demo_cfg () ''gvisor'' [''ls''] = Inr c"
    by (cases "buildContainerCommand demo_env demo_cfg () ''gvisor'' [''ls'']") (auto simp: is_ok_def)
  from container_options_fixed [OF this] show ?thesis by blast
qed

text \<open>
  An image is allowed exactly when some allowlist entry, trimmed and not empty, is the
  image itself or ends in a star and has the image start with what is before the star.
\<close>

theorem imageAllowed_iff:
  "imageAllowed img as \<longleftrightarrow>
     (\<exists>a \<in> set as. trim_space a = img \<and> img \<noteq> '''' \<and> \<not> suffix ''*'' img \<or>
        (\<exists>p. trim_space a = p @ ''*'' \<and> prefix p img))"
proof (induction as)
  case (Cons a as)
  let ?t = "trim_space a"
  have "(\<exists>p. ?t = p @ ''*'' \<and> prefix p img) \<longleftrightarrow> has_suffix ''*'' ?t \<and> prefix (trim_suffix ''*'' ?t) img"
    by (auto simp: has_suffix_def trim_suffix_def suffix_def)
  moreover have "?t \<noteq> ''''" if "has_suffix ''*'' ?t" using that by (auto simp: has_suffix_def)
  ultimately show ?case using Cons by (auto simp: Let_def has_suffix_def)
qed simp

section \<open>What the default allowlist lets through\<close>

text \<open>
  No shell runs the command, but \<open>awk\<close> is on the default allowlist and its program is an
  argument like any other: the checks accept a program that runs a shell command.
\<close>

lemma awk_system_passes:
  "check_command demo_cfg (''awk BEGIN{system('' @ [CHR 0x22] @ ''id'' @ [CHR 0x22] @ '')}'') =
     Inr [''awk'', ''BEGIN{system('' @ [CHR 0x22] @ ''id'' @ [CHR 0x22] @ '')}'']"
  by code_simp

end
