(* ===== verification/Utf8_Lemmas.thy ===== *)
theory Utf8_Lemmas
  imports Utf8
begin

text \<open>
  What the decoder of \<open>unicode/utf8\<close> reads: it looks at no byte beyond the encoding it
  returns, and encoding the rune again gives the bytes read. \<open>utf8_clean\<close> is the
  string Go gets by decoding a string rune by rune and encoding the runes again: invalid
  bytes become the replacement character, valid strings stay as they are.
\<close>

definition utf8_clean :: "string \<Rightarrow> string" where
  "utf8_clean s = concat (map encode_rune (runes_of s))"

lemma utf8_clean_Nil [simp]: "utf8_clean [] = []"
  by (simp add: utf8_clean_def)

lemma utf8_clean_Cons:
  "utf8_clean (c # cs) =
     encode_rune (fst (decode_rune (c # cs))) @ utf8_clean (drop (snd (decode_rune (c # cs)) - 1) cs)"
  by (simp add: utf8_clean_def runes_of.simps(2))

text \<open>An encoding was read: the result is not the error of an invalid byte.\<close>

abbreviation read_ok :: "nat \<times> nat \<Rightarrow> bool" where
  "read_ok rw \<equiv> \<not> (fst rw = rune_error \<and> snd rw = 1)"

lemma decode_bytes_cases:
  assumes "read_ok (decode_bytes bs)" "bs \<noteq> []"
  obtains (one) b bs' where "bs = b # bs'" "b < 128" "decode_bytes bs = (b, 1)"
  | (two) b b1 bs' where "bs = b # b1 # bs'" "194 \<le> b" "b \<le> 223" "cont b1"
      "decode_bytes bs = ((b - 192) * 64 + (b1 - 128), 2)"
  | (three) b b1 b2 bs' where "bs = b # b1 # b2 # bs'" "224 \<le> b" "b \<le> 239"
      "second_lo b \<le> b1" "b1 \<le> second_hi b" "cont b2"
      "decode_bytes bs = ((b - 224) * 4096 + (b1 - 128) * 64 + (b2 - 128), 3)"
  | (four) b b1 b2 b3 bs' where "bs = b # b1 # b2 # b3 # bs'" "240 \<le> b" "b \<le> 244"
      "second_lo b \<le> b1" "b1 \<le> second_hi b" "cont b2" "cont b3"
      "decode_bytes bs = ((b - 240) * 262144 + (b1 - 128) * 4096 + (b2 - 128) * 64 + (b3 - 128), 4)"
proof -
  from assms(2) obtain b bs' where bs: "bs = b # bs'" by (cases bs) auto
  consider "b < 128" | "194 \<le> b \<and> b \<le> 223" | "224 \<le> b \<and> b \<le> 239" | "240 \<le> b \<and> b \<le> 244"
    | "\<not> b < 128 \<and> \<not> (194 \<le> b \<and> b \<le> 223) \<and> \<not> (224 \<le> b \<and> b \<le> 239) \<and> \<not> (240 \<le> b \<and> b \<le> 244)"
    by blast
  then show ?thesis
  proof cases
    case 1
    with bs show ?thesis by (intro one) simp_all
  next
    case 2
    with assms(1) bs obtain b1 r where "bs' = b1 # r" "cont b1"
      by (cases bs') (auto split: if_splits)
    with bs 2 show ?thesis by (intro two) simp_all
  next
    case 3
    with assms(1) bs obtain b1 b2 r where "bs' = b1 # b2 # r" "second_lo b \<le> b1" "b1 \<le> second_hi b" "cont b2"
      by (auto split: if_splits list.splits)
    with bs 3 show ?thesis by (intro three) simp_all
  next
    case 4
    with assms(1) bs obtain b1 b2 b3 r where "bs' = b1 # b2 # b3 # r" "second_lo b \<le> b1" "b1 \<le> second_hi b"
      "cont b2" "cont b3"
      by (auto split: if_splits list.splits)
    with bs 4 show ?thesis by (intro four) simp_all
  next
    case 5
    with assms(1) bs show ?thesis by auto
  qed
qed

lemma decode_bytes_local:
  assumes "read_ok (decode_bytes bs)" "bs \<noteq> []"
  shows "decode_bytes (take (snd (decode_bytes bs)) bs @ xs) = decode_bytes bs"
  using assms by (cases rule: decode_bytes_cases) (simp_all del: decode_bytes.simps, simp_all)

lemma div_mod_64: "y < 64 \<Longrightarrow> (x * 64 + y) div 64 = x" "y < 64 \<Longrightarrow> (x * 64 + y) mod 64 = (y :: nat)"
  by simp_all

lemma encode_decode_bytes:
  assumes "read_ok (decode_bytes bs)" "bs \<noteq> []"
  shows "encode_bytes (fst (decode_bytes bs)) = take (snd (decode_bytes bs)) bs"
  using assms
proof (cases rule: decode_bytes_cases)
  case (one b bs')
  then show ?thesis by (simp add: encode_bytes_def del: decode_bytes.simps)
next
  case (two b b1 bs')
  define x y where "x = b - 192" and "y = b1 - 128"
  have b: "b = x + 192" "b1 = y + 128" "y < 64" "2 \<le> x" "x \<le> 31"
    using two by (auto simp: x_def y_def cont_def)
  then have "encode_bytes (x * 64 + y) = [b, b1]"
    using div_mod_64 [OF b(3), of x] by (simp add: encode_bytes_def)
  with two show ?thesis by (simp add: x_def y_def del: decode_bytes.simps)
next
  case (three b b1 b2 bs')
  define x y z where "x = b - 224" and "y = b1 - 128" and "z = b2 - 128"
  have b: "b = x + 224" "b1 = y + 128" "b2 = z + 128" "z < 64" "y < 64" "x \<le> 15" "x = 0 \<Longrightarrow> 32 \<le> y"
    "x = 13 \<Longrightarrow> y \<le> 31"
    using three by (auto simp: x_def y_def z_def cont_def second_lo_def second_hi_def split: if_splits)
  let ?r = "x * 4096 + y * 64 + z"
  have "2048 \<le> ?r"
  proof (cases "x = 0")
    case False
    then have "4096 \<le> x * 4096" by simp
    then show ?thesis by linarith
  qed (use b(7) in linarith)
  moreover have "\<not> (55296 \<le> ?r \<and> ?r \<le> 57343)"
  proof (cases "x = 13")
    case False
    then have "x \<le> 12 \<or> 14 \<le> x" by linarith
    then show ?thesis using b(4,5) by linarith
  qed (use b(4,8) in linarith)
  ultimately have r: "2048 \<le> ?r" "?r < 65536" "\<not> (55296 \<le> ?r \<and> ?r \<le> 57343)"
    using b(4-6) by linarith+
  have d: "?r div 64 = x * 64 + y" "?r mod 64 = z" using b(4) div_mod_64 [of z "x * 64 + y"] by (simp_all add: algebra_simps)
  have "?r div 4096 = x" using b(4,5) by simp
  then have "encode_bytes ?r = [b, b1, b2]"
    using r d b div_mod_64 [OF b(5), of x] by (simp add: encode_bytes_def)
  with three show ?thesis by (simp add: x_def y_def z_def del: decode_bytes.simps)
next
  case (four b b1 b2 b3 bs')
  define x y z v where "x = b - 240" and "y = b1 - 128" and "z = b2 - 128" and "v = b3 - 128"
  have b: "b = x + 240" "b1 = y + 128" "b2 = z + 128" "b3 = v + 128" "v < 64" "z < 64" "y < 64" "x \<le> 4"
    "x = 0 \<Longrightarrow> 16 \<le> y" "x = 4 \<Longrightarrow> y \<le> 15"
    using four by (auto simp: x_def y_def z_def v_def cont_def second_lo_def second_hi_def split: if_splits)
  let ?r = "x * 262144 + y * 4096 + z * 64 + v"
  have "65536 \<le> ?r"
  proof (cases "x = 0")
    case False
    then have "1 \<le> x" by simp
    then have "262144 \<le> x * 262144" by simp
    then show ?thesis by linarith
  qed (use b(9) in linarith)
  moreover have "?r \<le> 1114111"
  proof (cases "x = 4")
    case False
    then have "x \<le> 3" using b(8) by simp
    then show ?thesis using b(5-7) by linarith
  qed (use b(5,6,10) in linarith)
  ultimately have r: "65536 \<le> ?r" "?r \<le> 1114111" by blast+
  have d: "?r div 64 = (x * 64 + y) * 64 + z" "?r mod 64 = v"
    using b(5) div_mod_64 [of v "(x * 64 + y) * 64 + z"] by (simp_all add: algebra_simps)
  have "?r div 4096 = ?r div 64 div 64" by (simp add: div_mult2_eq [symmetric])
  then have d2: "?r div 4096 = x * 64 + y" using d(1) div_mod_64 [OF b(6), of "x * 64 + y"] by simp
  have "?r div 262144 = ?r div 4096 div 64" by (simp add: div_mult2_eq [symmetric])
  then have d3: "?r div 262144 = x" using d2 div_mod_64 [OF b(7), of x] by simp
  have "encode_bytes ?r = [b, b1, b2, b3]"
    using r d d2 d3 b div_mod_64 [OF b(7), of x] div_mod_64 [OF b(6), of "x * 64 + y"]
    by (simp add: encode_bytes_def)
  with four show ?thesis by (simp add: x_def y_def z_def v_def del: decode_bytes.simps)
qed

lemma decode_bytes_width4: "snd (decode_bytes bs) \<le> 4"
  by (cases bs) (auto split: list.splits)

section \<open>Runes of strings\<close>

lemma decode_rune_local:
  assumes "read_ok (decode_rune s)" "s \<noteq> []"
  shows "decode_rune (take (snd (decode_rune s)) s @ xs) = decode_rune s"
proof -
  let ?bs = "map byte_of (take 4 s)"
  let ?w = "snd (decode_bytes ?bs)"
  have "?bs \<noteq> []" using assms(2) by simp
  then have w: "1 \<le> ?w" "?w \<le> length ?bs" using decode_bytes_width by blast+
  have "take 4 (take ?w s @ xs) = take ?w (take 4 s) @ take (4 - length (take ?w s)) xs"
    using decode_bytes_width4 [of ?bs] by (simp add: min_absorb1 min_absorb2)
  then obtain ys where "take 4 (take ?w s @ xs) = take ?w (take 4 s) @ ys" by blast
  with decode_bytes_local [of ?bs "map byte_of ys"] assms show ?thesis
    by (simp add: decode_rune_def take_map)
qed

lemma encode_decode_rune:
  assumes "read_ok (decode_rune s)" "s \<noteq> []"
  shows "encode_rune (fst (decode_rune s)) = take (snd (decode_rune s)) s"
proof -
  let ?bs = "map byte_of (take 4 s)"
  have "encode_bytes (fst (decode_bytes ?bs)) = take (snd (decode_bytes ?bs)) ?bs"
    using assms by (intro encode_decode_bytes) (simp_all add: decode_rune_def)
  then show ?thesis
    using decode_bytes_width4 [of ?bs]
    by (simp add: encode_rune_def decode_rune_def take_map min_absorb1)
qed

lemma utf8_clean_valid: "valid_utf8 s \<Longrightarrow> utf8_clean s = s"
proof (induction s rule: valid_utf8.induct)
  case (2 c cs)
  obtain r w where rw: "decode_rune (c # cs) = (r, w)" by fastforce
  with "2.prems" have ok: "read_ok (decode_rune (c # cs))" and v: "valid_utf8 (drop (w - 1) cs)"
    by (auto simp: valid_utf8.simps(2))
  have "w \<ge> 1" using decode_rune_width [of c cs] rw by simp
  then have "take w (c # cs) @ drop (w - 1) cs = c # cs" by (cases w) simp_all
  with "2.IH" [OF rw [symmetric] refl v] encode_decode_rune [OF ok] rw show ?case
    by (simp add: utf8_clean_Cons)
qed simp

lemma valid_utf8_ascii: "list_all is_ascii s \<Longrightarrow> valid_utf8 s"
proof (induction s)
  case (Cons c cs)
  then have "byte_of c < 128" by (simp add: is_ascii_def)
  with Cons show ?case by (simp add: valid_utf8.simps(2) rune_error_def)
qed simp

end
