(* ===== verification/Json_Roundtrip.thy ===== *)
theory Json_Roundtrip
  imports Json Utf8_Lemmas
begin

text \<open>
  Parsing what was printed: for every syntax tree with well-formed number literals, the
  parser reads back from the printed text, compact or indented, the tree with each string
  decoded and encoded once (\<open>utf8_clean\<close>); on valid UTF-8 that is the tree itself. The
  lemmas also show that the fuel of \<open>parse_json\<close> suffices.
\<close>

section \<open>Strings\<close>

lemma hex_val_digit: "k < 16 \<Longrightarrow> hex_val (hex_digit k) = Some k"
  by (auto simp: hex_val_def hex_digit_def Let_def)

lemma encode_rune_ascii: "is_ascii c \<Longrightarrow> encode_rune (byte_of c) = [c]"
  by (simp add: encode_rune_def encode_bytes_def is_ascii_def)

lemma append_single [simp]: "(@) [c] = (#) c"
  by (simp add: fun_eq_iff)

lemma parse_str_ascii:
  "is_ascii c \<Longrightarrow> c \<noteq> CHR 0x22 \<Longrightarrow> c \<noteq> CHR 0x5C \<Longrightarrow> 32 \<le> byte_of c \<Longrightarrow>
   parse_str (c # X) = map_option (apfst ((#) c)) (parse_str X)"
  by (simp add: parse_str.simps(2) [of c X] encode_rune_ascii)

lemma parse_str_simple:
  "simple_esc e = Some x \<Longrightarrow> parse_str (CHR 0x5C # e # X) = map_option (apfst ((#) x)) (parse_str X)"
  by (subst parse_str.simps(2)) (auto simp: simple_esc_def)

lemma parse_str_hex:
  assumes "hex4 (a # b # c # d # X) = Some (n, X)" "\<not> (55296 \<le> n \<and> n \<le> 57343)"
  shows "parse_str (CHR 0x5C # CHR ''u'' # a # b # c # d # X) =
    map_option (apfst ((@) (encode_rune n))) (parse_str X)"
  unfolding parse_str.simps(2) [of "CHR 0x5C"]
  using assms(2) by (simp only: assms(1) Let_def list.case option.case prod.case if_not_P) simp

lemma parse_str_esc_byte:
  assumes a: "is_ascii c"
  shows "parse_str (esc_byte c @ X) = map_option (apfst ((#) c)) (parse_str X)"
proof -
  consider (safe) "html_safe c" | (quote) "c = CHR 0x22 \<or> c = CHR 0x5C"
    | (simple) "c \<in> {CHR 0x08, CHR 0x0C, CHR 0x0A, CHR 0x0D, CHR 0x09}"
    | (hex) "\<not> html_safe c \<and> c \<notin> {CHR 0x22, CHR 0x5C, CHR 0x08, CHR 0x0C, CHR 0x0A, CHR 0x0D, CHR 0x09}"
    by blast
  then show ?thesis
  proof cases
    case safe
    with a show ?thesis by (auto simp: esc_byte_def html_safe_def parse_str_ascii)
  next
    case quote
    then show ?thesis by (auto simp: esc_byte_def html_safe_def parse_str_simple simple_esc_def)
  next
    case simple
    then show ?thesis by (auto simp: esc_byte_def html_safe_def parse_str_simple simple_esc_def)
  next
    case hex
    let ?n = "byte_of c"
    have n: "?n < 128" using a by (simp add: is_ascii_def)
    have "esc_byte c @ X =
        CHR 0x5C # CHR ''u'' # CHR ''0'' # CHR ''0'' # hex_digit (?n div 16) # hex_digit (?n mod 16) # X"
      using hex by (simp add: esc_byte_def)
    moreover have "hex4 (CHR ''0'' # CHR ''0'' # hex_digit (?n div 16) # hex_digit (?n mod 16) # X) = Some (?n, X)"
    proof -
      have "hex_val (hex_digit (?n div 16)) = Some (?n div 16)" "hex_val (hex_digit (?n mod 16)) = Some (?n mod 16)"
        using n by (intro hex_val_digit; simp)+
      then show ?thesis by (simp add: hex_val_def)
    qed
    ultimately show ?thesis using n a by (simp add: parse_str_hex encode_rune_ascii)
  qed
qed

lemma not_ascii_byte: "\<not> is_ascii c \<Longrightarrow> 128 \<le> byte_of c"
  by (simp add: is_ascii_def)

lemma ascii_consts [simp]: "is_ascii CHR 0x22" "is_ascii CHR 0x5C"
  by (simp_all add: is_ascii_def)

lemma parse_str_rune:
  assumes "\<not> is_ascii c" "read_ok (decode_rune (c # cs))"
  shows "parse_str (take (snd (decode_rune (c # cs))) (c # cs) @ X) =
    map_option (apfst ((@) (encode_rune (fst (decode_rune (c # cs)))))) (parse_str X)"
proof -
  obtain r w where rw: "decode_rune (c # cs) = (r, w)" by fastforce
  obtain v where w: "w = Suc v" "v \<le> length cs"
    using decode_rune_width [of c cs] rw by (cases w) auto
  have "decode_rune (c # take v cs @ X) = (r, w)"
    using decode_rune_local [OF assms(2), of X] rw w by simp
  moreover have "c \<noteq> CHR 0x22" "c \<noteq> CHR 0x5C" using assms(1) ascii_consts by blast+
  moreover have "\<not> byte_of c < 32" using not_ascii_byte [OF assms(1)] by simp
  ultimately have "parse_str (c # take v cs @ X) = map_option (apfst ((@) (encode_rune r))) (parse_str X)"
    using w by (subst parse_str.simps(2)) simp
  with rw w show ?thesis by simp
qed

lemma map_apfst: "map_option (apfst ((@) a)) (map_option (apfst ((@) b)) x) = map_option (apfst ((@) (a @ b))) x"
  by (cases x) auto

lemma hex4_consts:
  "hex4 (''fffd'' @ X) = Some (rune_error, X)" "hex4 (''2028'' @ X) = Some (8232, X)"
  "hex4 (''2029'' @ X) = Some (8233, X)"
  by (simp_all add: hex_val_def rune_error_def)

lemma parse_str_const:
  assumes "s = [a, b, c, d]" "hex4 (s @ X) = Some (n, X)" "\<not> (55296 \<le> n \<and> n \<le> 57343)"
  shows "parse_str (CHR 0x5C # (CHR ''u'' # s) @ X) = map_option (apfst ((@) (encode_rune n))) (parse_str X)"
  using parse_str_hex [of a b c d X n] assms by simp

lemma parse_quote_body:
  "parse_str (quote_body s @ Q) = map_option (apfst ((@) (utf8_clean s))) (parse_str Q)"
proof (induction s rule: quote_body.induct)
  case 1
  show ?case by (cases "parse_str Q") auto
next
  case (2 c cs)
  obtain r w where rw: "decode_rune (c # cs) = (r, w)" by fastforce
  show ?case
  proof (cases "is_ascii c")
    case True
    then have "parse_str (quote_body (c # cs) @ Q) =
        map_option (apfst ((@) [c])) (map_option (apfst ((@) (utf8_clean cs))) (parse_str Q))"
      using "2.IH"(1) [OF True] by (simp add: quote_body.simps(2) parse_str_esc_byte)
    with True show ?thesis
      unfolding map_apfst by (cases "parse_str Q") (auto simp: utf8_clean_Cons encode_rune_ascii)
  next
    case False
    define enc where "enc = (if r = rune_error \<and> w = 1 then CHR 0x5C # ''ufffd''
         else if r = 8232 then CHR 0x5C # ''u2028''
         else if r = 8233 then CHR 0x5C # ''u2029''
         else take w (c # cs))"
    have q: "quote_body (c # cs) = enc @ quote_body (drop (w - 1) cs)"
      using False rw by (simp add: quote_body.simps(2) enc_def)
    have step: "parse_str (enc @ X) = map_option (apfst ((@) (encode_rune r))) (parse_str X)" for X
    proof (cases "(r = rune_error \<and> w = 1) \<or> r = 8232 \<or> r = 8233")
      case True
      then show ?thesis
        using parse_str_const [OF refl hex4_consts(1), of X] parse_str_const [OF refl hex4_consts(2), of X]
          parse_str_const [OF refl hex4_consts(3), of X]
        by (auto simp: enc_def rune_error_def)
    next
      case ok: False
      with parse_str_rune [OF False, of cs X] rw show ?thesis by (auto simp: enc_def)
    qed
    have ih: "parse_str (quote_body (drop (w - 1) cs) @ Q) =
        map_option (apfst ((@) (utf8_clean (drop (w - 1) cs)))) (parse_str Q)"
      using "2.IH"(2) [OF False rw [symmetric] refl] .
    show ?thesis
      unfolding q append_assoc step ih map_apfst by (simp add: utf8_clean_Cons rw)
  qed
qed

lemma parse_quote: "parse_str (quote_body s @ CHR 0x22 # X) = Some (utf8_clean s, X)"
  by (simp add: parse_quote_body parse_str.simps(2))

section \<open>Numbers\<close>

text \<open>What may follow a value: nothing, or a byte that cannot continue a number.\<close>

definition delim :: "string \<Rightarrow> bool" where
  "delim rest \<longleftrightarrow>
     (case rest of [] \<Rightarrow> True
      | c # _ \<Rightarrow> \<not> is_digit c \<and> c \<noteq> CHR ''.'' \<and> c \<noteq> CHR ''e'' \<and> c \<noteq> CHR ''E'')"

definition num_ok :: "string \<Rightarrow> bool" where
  "num_ok s \<longleftrightarrow> num_lit s = Some (s, [])"

lemma digits_delim:
  assumes "delim rest"
  shows "takeWhile is_digit (s @ rest) = takeWhile is_digit s"
    "dropWhile is_digit (s @ rest) = dropWhile is_digit s @ rest"
  using assms by (induction s) (auto simp: delim_def split: list.splits)

lemma num_int_ext: "num_int s = Some (a, b) \<Longrightarrow> delim rest \<Longrightarrow> num_int (s @ rest) = Some (a, b @ rest)"
  using digits_delim [of rest "tl s"]
  by (cases s) (auto simp: num_int_def split: if_splits)

lemma num_digits_ext:
  "num_digits s = Some (a, b) \<Longrightarrow> delim rest \<Longrightarrow> num_digits (s @ rest) = Some (a, b @ rest)"
  by (auto simp: num_digits_def digits_delim split: if_splits)

lemma num_frac_ext:
  assumes "num_frac s = Some (a, b)" "delim rest" shows "num_frac (s @ rest) = Some (a, b @ rest)"
proof (cases s)
  case Nil
  with assms show ?thesis by (cases rest) (auto simp: num_frac_def delim_def)
next
  case (Cons c cs)
  with assms show ?thesis by (auto simp: num_frac_def num_digits_ext split: if_splits)
qed

lemma num_exp_ext:
  assumes "num_exp s = Some (a, b)" "delim rest" shows "num_exp (s @ rest) = Some (a, b @ rest)"
proof (cases s)
  case Nil
  with assms show ?thesis by (cases rest) (auto simp: num_exp_def delim_def)
next
  case (Cons c cs)
  show ?thesis
  proof (cases cs)
    case Nil
    with Cons assms show ?thesis by (auto simp: num_exp_def split: if_splits)
  next
    case (Cons g ds)
    with \<open>s = c # cs\<close> assms show ?thesis
      using num_digits_ext [of ds _ b rest] num_digits_ext [of "g # ds" _ b rest]
      by (auto simp: num_exp_def split: if_splits)
  qed
qed

lemma num_unsigned_ext:
  assumes "num_unsigned s = Some (a, b)" "delim rest" shows "num_unsigned (s @ rest) = Some (a, b @ rest)"
proof -
  from assms(1) obtain x s1 y s2 z where "num_int s = Some (x, s1)" "num_frac s1 = Some (y, s2)"
    "num_exp s2 = Some (z, b)" "a = x @ y @ z"
    by (auto simp: num_unsigned_def split: option.splits prod.splits)
  with num_int_ext [OF _ assms(2)] num_frac_ext [OF _ assms(2)] num_exp_ext [OF _ assms(2)]
  show ?thesis by (simp add: num_unsigned_def)
qed

lemma num_lit_ext:
  assumes "num_lit s = Some (a, b)" "delim rest" shows "num_lit (s @ rest) = Some (a, b @ rest)"
proof (cases s)
  case (Cons c cs)
  show ?thesis
  proof (cases "c = CHR ''-''")
    case True
    with Cons assms num_unsigned_ext [OF _ assms(2), of cs] show ?thesis
      by (auto simp: num_lit_def)
  next
    case False
    with Cons assms num_unsigned_ext [OF _ assms(2), of s] show ?thesis
      by (auto simp: num_lit_def)
  qed
qed (use assms in \<open>simp add: num_lit_def\<close>)

lemma num_lit_first: "num_lit (c # cs) = Some r \<Longrightarrow> c = CHR ''-'' \<or> is_digit c"
  by (auto simp: num_lit_def num_unsigned_def num_int_def is_digit_def split: if_splits option.splits)

section \<open>White space and first bytes\<close>

definition value_first :: "char \<Rightarrow> bool" where
  "value_first c \<longleftrightarrow> \<not> is_ws c \<and> c \<notin> {CHR '']'', CHR ''}'', CHR '','', CHR '':''}"

lemma skip_ws_nl [simp]: "skip_ws (nl ind d @ X) = skip_ws X"
proof -
  have "dropWhile is_ws (replicate k (CHR '' '') @ X) = dropWhile is_ws X" for k
    by (induction k) (simp_all add: is_ws_def)
  then show ?thesis by (simp add: skip_ws_def nl_def is_ws_def)
qed

lemma skip_ws_Cons [simp]: "\<not> is_ws c \<Longrightarrow> skip_ws (c # X) = c # X"
  by (simp add: skip_ws_def)

lemma not_ws [simp]:
  "\<not> is_ws CHR 0x22" "\<not> is_ws CHR '']''" "\<not> is_ws CHR ''}''" "\<not> is_ws CHR '',''" "\<not> is_ws CHR '':''"
  "\<not> is_ws CHR ''[''" "\<not> is_ws CHR ''{''" "\<not> is_ws CHR ''n''" "\<not> is_ws CHR ''t''" "\<not> is_ws CHR ''f''"
  by (simp_all add: is_ws_def)

fun json_ok :: "json \<Rightarrow> bool" where
  "json_ok (JNum s) = num_ok s"
| "json_ok (JArr xs) = list_all json_ok xs"
| "json_ok (JObj kvs) = list_all (\<lambda>(k, v). json_ok v) kvs"
| "json_ok _ = True"

fun json_clean :: "json \<Rightarrow> json" where
  "json_clean (JStr s) = JStr (utf8_clean s)"
| "json_clean (JArr xs) = JArr (map json_clean xs)"
| "json_clean (JObj kvs) = JObj (map (\<lambda>(k, v). (utf8_clean k, json_clean v)) kvs)"
| "json_clean t = t"

lemma num_first: "num_ok s \<Longrightarrow> \<exists>c cs. s = c # cs \<and> (c = CHR ''-'' \<or> is_digit c)"
  by (cases s) (auto simp: num_ok_def num_lit_first dest: num_lit_first, simp add: num_lit_def)

lemma digit_value_first: "c = CHR ''-'' \<or> is_digit c \<Longrightarrow>
  value_first c \<and> c \<notin> {CHR 0x22, CHR ''['', CHR ''{'', CHR ''n'', CHR ''t'', CHR ''f''}"
  by (auto simp: value_first_def is_ws_def is_digit_def)

lemma print_first:
  assumes "json_ok t" shows "\<exists>c cs. print_json ind d t = c # cs \<and> value_first c"
proof (cases t)
  case (JNum s)
  with assms num_first [of s] digit_value_first show ?thesis by auto
qed (auto simp: value_first_def quote_def is_ws_def)

text \<open>A value may stand after white space.\<close>

lemma pval_ws: "skip_ws X = skip_ws Y \<Longrightarrow> pval n X = pval n Y"
  by (cases n) (simp_all add: pval.simps)

lemma pval_nl: "pval n (nl ind d @ X) = pval n X"
  by (rule pval_ws) simp

lemma parr_nl: "parr n (nl ind d @ X) = parr n X"
  by (cases n) (simp_all add: parr.simps pval_nl)

lemma pobj_nl: "pobj n (nl ind d @ X) = pobj n X"
  by (cases n) (simp_all add: pobj.simps)

lemma delim_end: "delim (nl ind d @ CHR '']'' # X)" "delim (nl ind d @ CHR ''}'' # X)"
  "delim ('','' @ X)" "delim []"
  by (simp_all add: delim_def nl_def is_digit_def)

section \<open>The round trip\<close>

text \<open>\<open>reads P C x\<close>: given fuel, the text of \<open>x\<close> is read back as \<open>C x\<close>.\<close>

definition reads :: "('a \<Rightarrow> string) \<Rightarrow> ('a \<Rightarrow> json) \<Rightarrow> 'a \<Rightarrow> bool" where
  "reads P C x \<longleftrightarrow> (\<forall>n rest. delim rest \<longrightarrow> 2 * length (P x) \<le> n \<longrightarrow> pval n (P x @ rest) = Some (C x, rest))"

lemma readsD: "reads P C x \<Longrightarrow> delim rest \<Longrightarrow> 2 * length (P x) \<le> n \<Longrightarrow> pval n (P x @ rest) = Some (C x, rest)"
  by (simp add: reads_def)

lemma parr_print:
  assumes "\<forall>x \<in> set xs. reads P C x" "xs \<noteq> []"
    "2 * length (join ('','' @ nl ind d) (map P xs)) + 1 \<le> n"
  shows "parr n (join ('','' @ nl ind d) (map P xs) @ nl ind d' @ CHR '']'' # rest) = Some (map C xs, rest)"
  using assms
proof (induction xs arbitrary: n)
  case (Cons x xs)
  from Cons.prems(3) obtain m where n: "n = Suc m" by (cases n) auto
  show ?case
  proof (cases xs)
    case Nil
    with Cons.prems n have "pval m (P x @ nl ind d' @ CHR '']'' # rest) = Some (C x, nl ind d' @ CHR '']'' # rest)"
      by (intro readsD) (simp_all add: delim_end)
    with Nil n show ?thesis by (simp add: parr.simps)
  next
    case (Cons y ys)
    let ?J = "join ('','' @ nl ind d) (map P xs)"
    have m: "2 * length (P x) + 2 * length ?J + 2 \<le> m"
      using Cons.prems(3) Cons n by simp
    have "pval m (P x @ '','' @ nl ind d @ ?J @ nl ind d' @ CHR '']'' # rest) =
        Some (C x, '','' @ nl ind d @ ?J @ nl ind d' @ CHR '']'' # rest)"
      using Cons.prems(1) m delim_end(3) by (intro readsD) auto
    moreover have "parr m (?J @ nl ind d' @ CHR '']'' # rest) = Some (map C xs, rest)"
      using Cons.prems Cons m by (intro Cons.IH) simp_all
    ultimately show ?thesis
      using Cons n by (simp add: parr.simps parr_nl)
  qed
qed simp

definition member :: "bool \<Rightarrow> ('a \<Rightarrow> string) \<Rightarrow> string \<times> 'a \<Rightarrow> string" where
  "member ind P kv = quote (fst kv) @ (if ind then '': '' else '':'') @ P (snd kv)"

lemma skip_colon: "pval n ((if ind then '' '' else '''') @ X) = pval n X"
  by (rule pval_ws) (simp add: skip_ws_def is_ws_def)

lemma member_head:
  assumes "reads P C v" "delim X" "2 * length (member ind P (k, v)) \<le> m"
  shows "pobj (Suc m) (member ind P (k, v) @ X) =
    (case skip_ws X of
       [] \<Rightarrow> None
     | c # r4 \<Rightarrow>
         if c = CHR ''}'' then Some ([(utf8_clean k, C v)], r4)
         else if c = CHR '','' then map_option (apfst ((#) (utf8_clean k, C v))) (pobj m r4)
         else None)"
proof -
  let ?sp = "if ind then '' '' else ''''"
  have "member ind P (k, v) @ X = CHR 0x22 # quote_body k @ CHR 0x22 # CHR '':'' # ?sp @ P v @ X"
    by (simp add: member_def quote_def)
  moreover have "pval m (?sp @ P v @ X) = Some (C v, X)"
    unfolding skip_colon using assms by (intro readsD) (simp_all add: member_def)
  ultimately show ?thesis by (simp add: pobj.simps parse_quote)
qed

lemma pobj_print:
  assumes "\<forall>kv \<in> set kvs. reads P C (snd kv)" "kvs \<noteq> []"
    "2 * length (join ('','' @ nl ind d) (map (member ind P) kvs)) + 1 \<le> n"
  shows "pobj n (join ('','' @ nl ind d) (map (member ind P) kvs) @ nl ind d' @ CHR ''}'' # rest) =
    Some (map (\<lambda>(k, v). (utf8_clean k, C v)) kvs, rest)"
  using assms
proof (induction kvs arbitrary: n)
  case (Cons kv kvs)
  obtain k v where kv: "kv = (k, v)" by fastforce
  from Cons.prems(3) obtain m where n: "n = Suc m" by (cases n) auto
  show ?case
  proof (cases kvs)
    case Nil
    with Cons.prems n kv show ?thesis
      by (simp add: member_head [of P C v] delim_end)
  next
    case (Cons y ys)
    let ?J = "join ('','' @ nl ind d) (map (member ind P) kvs)"
    have m: "2 * length (member ind P (k, v)) + 2 * length ?J + 2 \<le> m"
      using Cons.prems(3) Cons n kv by simp
    have "pobj m (?J @ nl ind d' @ CHR ''}'' # rest) = Some (map (\<lambda>(k, v). (utf8_clean k, C v)) kvs, rest)"
      using Cons.prems Cons m by (intro Cons.IH) simp_all
    moreover have "delim ('','' @ nl ind d @ ?J @ nl ind d' @ CHR ''}'' # rest)" by (rule delim_end)
    ultimately show ?thesis
      using Cons Cons.prems(1) n kv m
        member_head [of P C v "'','' @ nl ind d @ ?J @ nl ind d' @ CHR ''}'' # rest" ind k m]
      by (simp add: pobj_nl)
  qed
qed simp

lemma pval_Suc_first:
  assumes "value_first c" "c \<notin> {CHR 0x22, CHR ''['', CHR ''{'', CHR ''n'', CHR ''t'', CHR ''f''}"
  shows "pval (Suc n) (c # X) = map_option (apfst JNum) (num_lit (c # X))"
  using assms by (simp add: pval.simps value_first_def)

lemma skip_first:
  assumes "value_first c" shows "skip_ws (nl ind d @ c # X) = c # X"
  using assms by (simp add: value_first_def)

lemma join_first: "xs \<noteq> [] \<Longrightarrow> hd xs = c # cs \<Longrightarrow> \<exists>r. join sep xs = c # r"
  by (cases xs; cases "tl xs") auto

lemma print_reads: "json_ok t \<Longrightarrow> reads (print_json ind d) json_clean t"
proof (induction t arbitrary: d)
  case JNull
  show ?case unfolding reads_def
  proof (intro allI impI)
    fix n rest assume "2 * length (print_json ind d JNull) \<le> n"
    then show "pval n (print_json ind d JNull @ rest) = Some (json_clean JNull, rest)"
      by (cases n) (simp_all add: pval.simps expect_def)
  qed
next
  case (JBool b)
  show ?case unfolding reads_def
  proof (intro allI impI)
    fix n rest assume "2 * length (print_json ind d (JBool b)) \<le> n"
    then show "pval n (print_json ind d (JBool b) @ rest) = Some (json_clean (JBool b), rest)"
      by (cases n; cases b) (simp_all add: pval.simps expect_def)
  qed
next
  case (JNum s)
  then have ok: "num_ok s" by simp
  then obtain c cs where s: "s = c # cs" and c: "c = CHR ''-'' \<or> is_digit c" using num_first by blast
  show ?case unfolding reads_def
  proof (intro allI impI)
    fix n rest assume r: "delim rest" and "2 * length (print_json ind d (JNum s)) \<le> n"
    then obtain m where n: "n = Suc m" using s by (cases n) auto
    have "num_lit (s @ rest) = Some (s, rest)" using num_lit_ext [of s s "[]" rest] ok r by (simp add: num_ok_def)
    with digit_value_first [OF c] pval_Suc_first [of c m "cs @ rest"] s n
    show "pval n (print_json ind d (JNum s) @ rest) = Some (json_clean (JNum s), rest)" by simp
  qed
next
  case (JStr s)
  show ?case unfolding reads_def
  proof (intro allI impI)
    fix n rest assume "2 * length (print_json ind d (JStr s)) \<le> n"
    then show "pval n (print_json ind d (JStr s) @ rest) = Some (json_clean (JStr s), rest)"
      by (cases n) (simp_all add: quote_def pval.simps parse_quote)
  qed
next
  case (JArr xs)
  have el: "\<forall>x \<in> set xs. reads (print_json ind (Suc d)) json_clean x"
    using JArr by (simp add: list_all_iff)
  show ?case unfolding reads_def
  proof (intro allI impI)
    fix n rest assume n: "2 * length (print_json ind d (JArr xs)) \<le> n"
    show "pval n (print_json ind d (JArr xs) @ rest) = Some (json_clean (JArr xs), rest)"
    proof (cases "xs = []")
      case True
      with n show ?thesis by (cases n) (simp_all add: pval.simps)
    next
      case False
      let ?J = "join ('','' @ nl ind (Suc d)) (map (print_json ind (Suc d)) xs)"
      obtain c cs where c: "print_json ind (Suc d) (hd xs) = c # cs" "value_first c"
        using print_first [of "hd xs" ind "Suc d"] JArr.prems False by (auto simp: list_all_iff)
      obtain J' where J: "?J = c # J'" using join_first [of "map (print_json ind (Suc d)) xs" c cs] c False
        by (auto simp: hd_map)
      have "2 * length ?J + 4 \<le> n" using n False by simp
      then obtain m where m: "n = Suc m" "2 * length ?J + 1 \<le> m" by (cases n) auto
      have "parr m (?J @ nl ind d @ CHR '']'' # rest) = Some (map json_clean xs, rest)"
        using parr_print [OF el False m(2)] .
      moreover have "c \<noteq> CHR '']''" using c(2) by (auto simp: value_first_def)
      moreover have "skip_ws (nl ind (Suc d) @ ?J @ nl ind d @ CHR '']'' # rest) = c # J' @ nl ind d @ CHR '']'' # rest"
        using skip_first [OF c(2)] J by simp
      ultimately show ?thesis using False m(1) by (simp add: pval.simps parr_nl)
    qed
  qed
next
  case (JObj kvs)
  have el: "\<forall>kv \<in> set kvs. reads (print_json ind (Suc d)) json_clean (snd kv)"
    using JObj by (fastforce simp: list_all_iff)
  show ?case unfolding reads_def
  proof (intro allI impI)
    fix n rest assume n: "2 * length (print_json ind d (JObj kvs)) \<le> n"
    show "pval n (print_json ind d (JObj kvs) @ rest) = Some (json_clean (JObj kvs), rest)"
    proof (cases "kvs = []")
      case True
      with n show ?thesis by (cases n) (simp_all add: pval.simps)
    next
      case False
      let ?M = "member ind (print_json ind (Suc d))"
      let ?J = "join ('','' @ nl ind (Suc d)) (map ?M kvs)"
      have M: "(\<lambda>(k, v). quote k @ (if ind then '': '' else '':'') @ print_json ind (Suc d) v) = ?M"
        by (auto simp: member_def fun_eq_iff)
      have hd: "hd (map ?M kvs) = CHR 0x22 # tl (?M (hd kvs))"
        using False by (simp add: hd_map member_def quote_def)
      obtain J' where J: "?J = CHR 0x22 # J'" using join_first [OF _ hd] False by auto
      have p: "print_json ind d (JObj kvs) = CHR ''{'' # nl ind (Suc d) @ ?J @ nl ind d @ ''}''"
        using False by (simp add: M)
      with n have "2 * length ?J + 4 \<le> n" by simp
      then obtain m where m: "n = Suc m" "2 * length ?J + 1 \<le> m" by (cases n) auto
      have "pobj m (?J @ nl ind d @ CHR ''}'' # rest) = Some (map (\<lambda>(k, v). (utf8_clean k, json_clean v)) kvs, rest)"
        using pobj_print [OF el False m(2)] .
      moreover have "skip_ws (nl ind (Suc d) @ ?J @ nl ind d @ CHR ''}'' # rest) = CHR 0x22 # J' @ nl ind d @ CHR ''}'' # rest"
        using J by simp
      ultimately show ?thesis using m(1) unfolding p by (simp add: pval.simps pobj_nl)
    qed
  qed
qed

lemma parse_print_clean:
  assumes "json_ok t" shows "parse_json (print_json ind d t) = Some (json_clean t)"
  using readsD [OF print_reads [OF assms, of ind d] delim_end(4), of "2 * length (print_json ind d t) + 2"]
  by (simp add: parse_json_def skip_ws_def)

end
