(* ===== verification/Json_Values.thy ===== *)
theory Json_Values
  imports Json_Roundtrip
begin

text \<open>
  Values through JSON: the values \<open>Unmarshal\<close> into \<open>any\<close> can produce, in the
  canonical form of their maps (keys sorted, as \<open>Marshal\<close> writes them), come back from
  their own text, compact or indented.
\<close>

fun utf8_json :: "json \<Rightarrow> bool" where
  "utf8_json (JStr s) = valid_utf8 s"
| "utf8_json (JArr xs) = list_all utf8_json xs"
| "utf8_json (JObj kvs) = list_all (\<lambda>(k, v). valid_utf8 k \<and> utf8_json v) kvs"
| "utf8_json _ = True"

lemma json_clean_id: "utf8_json t \<Longrightarrow> json_clean t = t"
proof (induction t)
  case (JArr xs)
  then show ?case by (auto simp: list_all_iff intro: map_idI)
next
  case (JObj kvs)
  have "(\<lambda>(k, v). (utf8_clean k, json_clean v)) kv = kv" if "kv \<in> set kvs" for kv
    using JObj that by (cases kv) (fastforce simp: list_all_iff utf8_clean_valid)
  then show ?case by (simp add: map_idI)
qed (auto simp: utf8_clean_valid)

lemma parse_print: "json_ok t \<Longrightarrow> utf8_json t \<Longrightarrow> parse_json (print_json ind d t) = Some t"
  by (simp add: parse_print_clean json_clean_id)

text \<open>
  A float survives when its text is a number literal that reads back as the same float: so
  \<open>strconv\<close> formats every finite one.
\<close>

definition float_ok :: "fmt_float \<Rightarrow> parse_float \<Rightarrow> 64 word \<Rightarrow> bool" where
  "float_ok ff pf w = (case ff w of None \<Rightarrow> False | Some s \<Rightarrow> num_ok s \<and> pf s = Some w)"

fun plain :: "fmt_float \<Rightarrow> parse_float \<Rightarrow> gval \<Rightarrow> bool" where
  "plain ff pf GNil = True"
| "plain ff pf (GBool b) = True"
| "plain ff pf (GFloat w) = float_ok ff pf w"
| "plain ff pf (GStr s) = valid_utf8 s"
| "plain ff pf (GArr xs) = list_all (plain ff pf) xs"
| "plain ff pf (GObj kvs) =
     (list_all (\<lambda>(k, v). valid_utf8 k \<and> plain ff pf v) kvs \<and> sorted (map fst kvs) \<and> distinct (map fst kvs))"
| "plain ff pf _ = False"

lemma those_map_Some:
  "\<forall>x \<in> set xs. \<exists>y. f x = Some y \<and> Q x y \<Longrightarrow>
   \<exists>ys. those (map f xs) = Some ys \<and> list_all2 Q xs ys"
proof (induction xs)
  case (Cons x xs)
  then obtain y ys where "f x = Some y" "Q x y" "those (map f xs) = Some ys" "list_all2 Q xs ys"
    by auto
  then show ?case by simp
qed simp

lemma AList_update_new: "k \<notin> fst ` set m \<Longrightarrow> AList.update k v m = m @ [(k, v)]"
  by (induction m) auto

lemma foldl_update_distinct:
  "distinct (map fst m @ map fst kvs) \<Longrightarrow> foldl (\<lambda>m (k, v). AList.update k v m) m kvs = m @ kvs"
proof (induction kvs arbitrary: m)
  case (Cons kv kvs)
  obtain k v where kv: "kv = (k, v)" by fastforce
  with Cons.prems have "AList.update k v m = m @ [(k, v)]" by (intro AList_update_new) auto
  moreover have "distinct (map fst (m @ [(k, v)]) @ map fst kvs)" using Cons.prems kv by auto
  ultimately show ?case using Cons.IH [of "m @ [(k, v)]"] kv by simp
qed simp

definition reads_as :: "fmt_float \<Rightarrow> parse_float \<Rightarrow> gval \<Rightarrow> json \<Rightarrow> bool" where
  "reads_as ff pf v t \<longleftrightarrow> json_ok t \<and> utf8_json t \<and> in_range pf t \<and> any_of pf t = v"

lemma plain_tree: "plain ff pf v \<Longrightarrow> \<exists>t. tree_of ff v = Some t \<and> reads_as ff pf v t"
proof (induction v)
  case (GFloat w)
  then show ?case by (auto simp: float_ok_def reads_as_def split: option.splits)
next
  case (GArr xs)
  then have "\<forall>x \<in> set xs. \<exists>t. tree_of ff x = Some t \<and> reads_as ff pf x t" by (simp add: list_all_iff)
  from those_map_Some [OF this] obtain ts where ts: "those (map (tree_of ff) xs) = Some ts"
    "list_all2 (reads_as ff pf) xs ts" by blast
  from ts(2) have "list_all json_ok ts \<and> list_all utf8_json ts \<and> list_all (in_range pf) ts \<and> map (any_of pf) ts = xs"
    by (induction rule: list_all2_induct) (auto simp: reads_as_def)
  with ts(1) show ?case by (simp add: reads_as_def)
next
  case (GObj kvs)
  define R where "R = (\<lambda>(k, v) (k', t). k' = k \<and> valid_utf8 k \<and> reads_as ff pf v t)"
  have "\<forall>kv \<in> set kvs. \<exists>kt. (case kv of (k, v) \<Rightarrow> map_option (Pair k) (tree_of ff v)) = Some kt \<and> R kv kt"
    using GObj by (fastforce simp: list_all_iff R_def)
  from those_map_Some [OF this] obtain ts where
    ts: "those (map (\<lambda>(k, v). map_option (Pair k) (tree_of ff v)) kvs) = Some ts" "list_all2 R kvs ts" by blast
  from ts(2) have all: "list_all (\<lambda>(k, v). json_ok v) ts \<and> list_all (\<lambda>(k, v). valid_utf8 k \<and> utf8_json v) ts \<and>
      list_all (\<lambda>(k, v). in_range pf v) ts \<and> map (\<lambda>(k, v). (k, any_of pf v)) ts = kvs \<and> map fst ts = map fst kvs"
    by (induction rule: list_all2_induct) (auto simp: reads_as_def R_def)
  have "sort_key fst ts = ts" using all GObj.prems by (intro sort_key_id_if_sorted) simp
  moreover have "foldl (\<lambda>m (k, v). AList.update k v m) [] kvs = kvs"
    using foldl_update_distinct [of "[]" kvs] GObj.prems by simp
  ultimately show ?case using ts(1) all by (simp add: reads_as_def)
qed (auto simp: reads_as_def)

lemma marshal_roundtrip:
  assumes "plain ff pf v"
  shows "\<exists>s. json_marshal ff v = Some s \<and> json_unmarshal pf s = Some v"
    and "\<exists>s. json_marshal_indent ff v = Some s \<and> json_unmarshal pf s = Some v"
  using plain_tree [OF assms]
  by (auto simp: json_marshal_def json_marshal_indent_def json_unmarshal_def reads_as_def parse_print)

text \<open>Every value's text is read back, if its numbers are formatted as literals.\<close>

definition fmt_ok :: "fmt_float \<Rightarrow> bool" where
  "fmt_ok ff \<longleftrightarrow> (\<forall>w s. ff w = Some s \<longrightarrow> num_ok s)"

lemma digits_num_int:
  assumes "list_all is_digit s" "s \<noteq> []" "hd s = CHR ''0'' \<longrightarrow> s = ''0''"
  shows "num_unsigned s = Some (s, [])"
proof -
  have "num_int s = Some (s, [])"
    using assms by (cases s) (auto simp: num_int_def list_all_iff takeWhile_eq_all_conv dropWhile_eq_Nil_conv)
  then show ?thesis by (simp add: num_unsigned_def num_frac_def num_exp_def)
qed

lemma itoa_first: "itoa n \<noteq> ''0'' \<Longrightarrow> hd (itoa n) \<noteq> CHR ''0''"
proof (induction n rule: itoa.induct)
  case (1 n)
  show ?case
  proof (cases "n < 10")
    case True
    with 1 show ?thesis
      by (subst itoa.simps) (auto simp: itoa.simps [of n] char_of_eq_iff)
  next
    case False
    have "itoa 0 = ''0''" by code_simp
    with False have "itoa (n div 10) \<noteq> ''0''" using itoa_inj [of "n div 10" 0] by auto
    with 1 False have "hd (itoa (n div 10)) \<noteq> CHR ''0''" by simp
    with False show ?thesis by (subst itoa.simps) (simp add: hd_append)
  qed
qed

lemma itoa_num: "num_unsigned (itoa n) = Some (itoa n, [])"
  using itoa_digits [of _ n] itoa_first [of n] by (intro digits_num_int) (auto simp: list_all_iff)

lemma itoa_int_ok: "num_ok (itoa_int i)"
proof (cases "i < 0")
  case True
  then show ?thesis by (simp add: num_ok_def num_lit_def itoa_int_def itoa_num)
next
  case False
  obtain c cs where c: "itoa (nat i) = c # cs" using itoa_nonempty by (cases "itoa (nat i)") auto
  then have "is_digit c" using itoa_digits [of c "nat i"] by simp
  then have "c \<noteq> CHR ''-''" by (auto simp: is_digit_def)
  with False c itoa_num [of "nat i"] show ?thesis by (simp add: num_ok_def num_lit_def itoa_int_def)
qed

lemma those_ok: "those xs = Some ys \<Longrightarrow> xs = map Some ys"
  by (induction xs arbitrary: ys rule: those.induct) auto

lemma tree_of_ok: "fmt_ok ff \<Longrightarrow> tree_of ff v = Some t \<Longrightarrow> json_ok t"
proof (induction v arbitrary: t)
  case (GArr xs)
  then obtain ts where "those (map (tree_of ff) xs) = Some ts" "t = JArr ts" by auto
  with GArr show ?case by (auto simp: list_all_iff in_set_conv_nth dest!: those_ok) (metis length_map nth_map nth_mem)
next
  case (GSlice n xs)
  then obtain ts where "those (map (tree_of ff) xs) = Some ts" "t = JArr ts" by auto
  with GSlice show ?case by (auto simp: list_all_iff in_set_conv_nth dest!: those_ok) (metis length_map nth_map nth_mem)
next
  case (GObj kvs)
  then obtain ts where ts: "those (map (\<lambda>(k, v). map_option (Pair k) (tree_of ff v)) kvs) = Some ts"
    and t: "t = JObj (sort_key fst ts)" by auto
  have "json_ok u" if "(k, u) \<in> set ts" for k u
  proof -
    have "Some (k, u) \<in> set (map (\<lambda>(k, v). map_option (Pair k) (tree_of ff v)) kvs)"
      using those_ok [OF ts] that by simp
    then obtain v where "(k, v) \<in> set kvs" "tree_of ff v = Some u"
      by (auto dest!: sym [of "Some _"])
    with GObj.IH [of "(k, v)" v] GObj.prems(1) show ?thesis by simp
  qed
  with t show ?case by (auto simp: list_all_iff)
next
  case (GStruct n kvs)
  then obtain ts where ts: "those (map (\<lambda>(k, v). map_option (Pair k) (tree_of ff v)) kvs) = Some ts"
    and t: "t = JObj ts" by auto
  have "json_ok u" if "(k, u) \<in> set ts" for k u
  proof -
    have "Some (k, u) \<in> set (map (\<lambda>(k, v). map_option (Pair k) (tree_of ff v)) kvs)"
      using those_ok [OF ts] that by simp
    then obtain v where "(k, v) \<in> set kvs" "tree_of ff v = Some u"
      by (auto dest!: sym [of "Some _"])
    with GStruct.IH [of "(k, v)" v] GStruct.prems(1) show ?thesis by simp
  qed
  with t show ?case by (auto simp: list_all_iff)
qed (auto simp: fmt_ok_def itoa_int_ok)

end
