(* ===== verification/Memory.thy ===== *)
theory Memory
  imports Os_Files Json_Values
begin

text \<open>
  Package \<open>memory\<close>: the interface \<open>Store\<close> as a record of its methods over a
  state, its implementations \<open>FileMemoryStore\<close> (one JSON file per key) and
  \<open>InMemoryRedisStore\<close>, the keys and calls of the Redis store, and the choice of a
  backend. The locale \<open>memory_store\<close> is the contract of \<open>Store\<close>.

  The text of a JSON error is not modelled (\<open>json_error\<close>).
\<close>

record 's store =
  ms_get :: "string \<Rightarrow> string \<Rightarrow> 's \<Rightarrow> gval option res"   \<comment> \<open>\<open>None\<close>: not found\<close>
  ms_put :: "string \<Rightarrow> string \<Rightarrow> gval \<Rightarrow> 's \<Rightarrow> unit res \<times> 's"
  ms_list :: "string \<Rightarrow> 's \<Rightarrow> string list option res"

definition json_error :: gerr where
  "json_error = ErrMsg ''json'' []"

section \<open>\<open>FileMemoryStore\<close>\<close>

definition NewFileMemoryStore :: "string \<Rightarrow> os_state \<Rightarrow> string \<times> os_state" where
  "NewFileMemoryStore dir s =
     (let d = (if dir = '''' then ''./.memory'' else dir) in (d, snd (os_mkdir_all d s)))"

text \<open>The package has a copy of \<open>validatePathComponent\<close>.\<close>

definition store_validatePathComponent :: "string \<Rightarrow> string \<Rightarrow> gerr option" where
  "store_validatePathComponent v field =
     (if v = '''' then None
      else if is_abs v then Some (ErrMsg ''%s must not be an absolute path'' [field])
      else if contains_any [CHR ''/'', CHR 0x5C] v \<or> contains ''..'' v
        then Some (ErrMsg ''unsafe %s: %q'' [field, v])
      else let c = clean v in
        if c = ''.'' \<or> c = ''..'' \<or> prefix ''..'' c
          then Some (ErrMsg ''unsafe %s: %q'' [field, v])
        else None)"

lemma same_validatePathComponent [simp]: "store_validatePathComponent = validatePathComponent"
  by (intro ext) (simp only: store_validatePathComponent_def validatePathComponent_def)

definition fms_check :: "string \<Rightarrow> string \<Rightarrow> gerr option" where
  "fms_check ns key =
     (case store_validatePathComponent ns ''namespace'' of
        Some e \<Rightarrow> Some e
      | None \<Rightarrow> store_validatePathComponent key ''key'')"

definition fms_get :: "parse_float \<Rightarrow> string \<Rightarrow> string \<Rightarrow> string \<Rightarrow> os_state \<Rightarrow> gval option res" where
  "fms_get pf dir ns key s =
     (case fms_check ns key of
        Some e \<Rightarrow> Inl e
      | None \<Rightarrow>
          (case os_read_file (fjoin [dir, ns, key @ ''.json'']) s of
             Inl e \<Rightarrow> if is_not_exist e then Inr None else Inl e
           | Inr data \<Rightarrow>
               (case json_unmarshal pf data of
                  None \<Rightarrow> Inl json_error
                | Some v \<Rightarrow> Inr (Some v))))"

definition fms_put :: "fmt_float \<Rightarrow> string \<Rightarrow> string \<Rightarrow> string \<Rightarrow> gval \<Rightarrow> os_state \<Rightarrow> unit res \<times> os_state" where
  "fms_put ff dir ns key v s =
     (case fms_check ns key of
        Some e \<Rightarrow> (Inl e, s)
      | None \<Rightarrow>
          (let d = fjoin [dir, ns];
               s1 = snd (os_mkdir_all d s);
               path = fjoin [d, key @ ''.json'']
           in case json_marshal_indent ff v of
                None \<Rightarrow> (Inl json_error, s1)
              | Some data \<Rightarrow> os_write_file path data s1))"

definition fms_list :: "string \<Rightarrow> string \<Rightarrow> os_state \<Rightarrow> string list option res" where
  "fms_list dir ns s =
     (case store_validatePathComponent ns ''namespace'' of
        Some e \<Rightarrow> Inl e
      | None \<Rightarrow>
          (case os_read_dir (fjoin [dir, ns]) s of
             Inl e \<Rightarrow> if is_not_exist e then Inr (Some []) else Inl e
           | Inr es \<Rightarrow>
               (let keys = map fst (filter (\<lambda>e. \<not> snd e) es)
                in Inr (if keys = [] then None else Some keys))))"

definition fms_close :: "gerr option" where
  "fms_close = None"

definition file_store :: "fmt_float \<Rightarrow> parse_float \<Rightarrow> string \<Rightarrow> os_state store" where
  "file_store ff pf dir = \<lparr>ms_get = fms_get pf dir, ms_put = fms_put ff dir, ms_list = fms_list dir\<rparr>"

section \<open>\<open>InMemoryRedisStore\<close>\<close>

type_synonym mem_data = "(string \<times> (string \<times> gval) list) list"

definition NewInMemoryRedisStore :: mem_data where
  "NewInMemoryRedisStore = []"

definition imr_get :: "string \<Rightarrow> string \<Rightarrow> mem_data \<Rightarrow> gval option res" where
  "imr_get ns key m =
     (case map_of m ns of
        None \<Rightarrow> Inr None
      | Some kvs \<Rightarrow> (case map_of kvs key of None \<Rightarrow> Inr None | Some v \<Rightarrow> Inr (Some v)))"

definition imr_put :: "string \<Rightarrow> string \<Rightarrow> gval \<Rightarrow> mem_data \<Rightarrow> unit res \<times> mem_data" where
  "imr_put ns key v m =
     (let kvs = (case map_of m ns of None \<Rightarrow> [] | Some kvs \<Rightarrow> kvs)
      in (Inr (), AList.update ns (AList.update key v kvs) m))"

definition imr_list :: "string \<Rightarrow> mem_data \<Rightarrow> string list option res" where
  "imr_list ns m =
     (case map_of m ns of None \<Rightarrow> Inr (Some []) | Some kvs \<Rightarrow> Inr (Some (map fst kvs)))"

definition redis_inmemory :: "mem_data store" where
  "redis_inmemory = \<lparr>ms_get = imr_get, ms_put = imr_put, ms_list = imr_list\<rparr>"

section \<open>The Redis store\<close>

text \<open>
  The calls of \<open>redis_store.go\<close> on a client, which is a parameter: its \<open>Get\<close>
  (\<open>None\<close> is \<open>redis.Nil\<close>) and its \<open>Set\<close>.
\<close>

record 'w redis_client =
  rc_get :: "string \<Rightarrow> 'w \<Rightarrow> string option res"
  rc_set :: "string \<Rightarrow> string \<Rightarrow> 'w \<Rightarrow> unit res \<times> 'w"

definition redis_key :: "string \<Rightarrow> string \<Rightarrow> string" where
  "redis_key ns key = ns @ '':'' @ key"

definition redis_get :: "'w redis_client \<Rightarrow> parse_float \<Rightarrow> string \<Rightarrow> string \<Rightarrow> 'w \<Rightarrow> gval option res" where
  "redis_get rc pf ns key w =
     (case rc_get rc (redis_key ns key) w of
        Inl e \<Rightarrow> Inl e
      | Inr None \<Rightarrow> Inr None
      | Inr (Some data) \<Rightarrow>
          (case json_unmarshal pf data of None \<Rightarrow> Inl json_error | Some v \<Rightarrow> Inr (Some v)))"

definition redis_put :: "'w redis_client \<Rightarrow> fmt_float \<Rightarrow> string \<Rightarrow> string \<Rightarrow> gval \<Rightarrow> 'w \<Rightarrow> unit res \<times> 'w" where
  "redis_put rc ff ns key v w =
     (case json_marshal ff v of
        None \<Rightarrow> (Inl json_error, w)
      | Some data \<Rightarrow> rc_set rc (redis_key ns key) data w)"

section \<open>\<open>NewMemoryStore\<close>\<close>

text \<open>Which store a kind names in the default build; without their tags, SQLite and Redis are stubs.\<close>

datatype store_choice = FileStore string | RedisInMemory

definition newSQLiteStore :: "string \<Rightarrow> store_choice res" where
  "newSQLiteStore dsn = Inl (ErrMsg ''sqlite backend not enabled: build with -tags=sqlite to enable'' [])"

definition newRedisStore :: "string \<Rightarrow> store_choice res" where
  "newRedisStore dsn = Inl (ErrMsg ''redis backend not enabled: build with -tags=redis to enable'' [])"

definition NewMemoryStore :: "string \<Rightarrow> string \<Rightarrow> store_choice res" where
  "NewMemoryStore kind dsnOrDir =
     (if kind = '''' \<or> kind = ''file'' then Inr (FileStore dsnOrDir)
      else if kind = ''sqlite'' then newSQLiteStore dsnOrDir
      else if kind = ''redis'' then newRedisStore dsnOrDir
      else if kind = ''redis-inmemory'' \<or> kind = ''redis-inmem'' then Inr RedisInMemory
      else Inl (ErrMsg ''unknown memory backend kind: %s'' [kind]))"

section \<open>The contract of \<open>Store\<close>\<close>

text \<open>
  \<open>faithful v\<close>: the store keeps \<open>v\<close> as it is; \<open>apart\<close>: entries that do not
  share a place.
\<close>

locale memory_store =
  fixes S :: "'s store"
    and faithful :: "gval \<Rightarrow> bool"
    and apart :: "string \<times> string \<Rightarrow> string \<times> string \<Rightarrow> bool"
  assumes put_get: "ms_put S ns k v s = (Inr u, t) \<Longrightarrow> faithful v \<Longrightarrow> ms_get S ns k t = Inr (Some v)"
    and put_fail: "ms_put S ns k v s = (Inl e, t) \<Longrightarrow> ms_get S ns k s = Inr (Some x) \<Longrightarrow>
      ms_get S ns k t = Inr (Some x)"
    and put_kept: "ms_get S ns' k' s = Inr (Some x) \<Longrightarrow> apart (ns, k) (ns', k') \<Longrightarrow>
      ms_get S ns' k' (snd (ms_put S ns k v s)) = Inr (Some x)"
begin

fun put_all :: "(string \<times> string \<times> gval) list \<Rightarrow> 's \<Rightarrow> 's" where
  "put_all [] s = s"
| "put_all ((ns, k, v) # ps) s = put_all ps (snd (ms_put S ns k v s))"

lemma put_all_kept:
  "ms_get S ns k s = Inr (Some x) \<Longrightarrow> \<forall>(ns', k', v') \<in> set ps. apart (ns', k') (ns, k) \<Longrightarrow>
   ms_get S ns k (put_all ps s) = Inr (Some x)"
  by (induction ps arbitrary: s) (auto simp: put_kept)

text \<open>What was put last is found, whatever else is put elsewhere.\<close>

lemma put_persists:
  assumes "ms_put S ns k v s = (Inr u, t)" "faithful v" "\<forall>(ns', k', v') \<in> set ps. apart (ns', k') (ns, k)"
  shows "ms_get S ns k (put_all ps t) = Inr (Some v)"
  using put_all_kept [OF put_get [OF assms(1,2)] assms(3)] .

lemma put_again:
  assumes "ms_put S ns k v s = (Inr u, t)" "ms_put S ns k v' t = (r, t')" "faithful v" "faithful v'"
  shows "ms_get S ns k t' = Inr (Some (if is_ok r then v' else v))"
  using assms put_get put_fail [of ns k v' t] by (cases r) auto

end

section \<open>\<open>InMemoryRedisStore\<close> meets the contract\<close>

interpretation mr: memory_store redis_inmemory "\<lambda>v. True" "(\<noteq>)"
proof (unfold_locales, goal_cases)
  case (1 ns k v s u t)
  then show ?case by (auto simp: redis_inmemory_def imr_put_def imr_get_def Let_def)
next
  case (2 ns k v s e t x)
  then show ?case by (simp add: redis_inmemory_def imr_put_def Let_def)
next
  case (3 ns' k' s x ns k v)
  then show ?case
    by (auto simp: redis_inmemory_def imr_put_def imr_get_def Let_def split: option.splits)
qed

section \<open>\<open>FileMemoryStore\<close> meets the contract\<close>

lemma json_name_plain: "plain_elem k \<or> k = '''' \<Longrightarrow> plain_elem (k @ ''.json'')"
  by (rule plain_append) auto

definition name_elems :: "string \<Rightarrow> string list" where
  "name_elems ns = (if ns = '''' then [] else [ns])"

lemma plain_split: "plain_elem e \<Longrightarrow> split_on CHR ''/'' e = [e]"
  by (simp add: split_on_no_sep)

lemma fms_dir_elems:
  assumes "dir \<noteq> ''''" "plain_elem ns \<or> ns = ''''"
  shows "clean_elems (fjoin [dir, ns]) = clean_elems dir @ name_elems ns" "is_abs (fjoin [dir, ns]) = is_abs dir"
proof -
  have sn: "split_on CHR ''/'' ns = [ns]" using assms(2) by (auto simp: plain_split)
  have nd: "''..'' \<notin> set [ns]" using assms(2) by auto
  have "filter (\<lambda>e. e \<noteq> '''' \<and> e \<noteq> ''.'') [ns] = name_elems ns"
    using assms(2) by (auto simp: name_elems_def)
  then show "clean_elems (fjoin [dir, ns]) = clean_elems dir @ name_elems ns"
    using clean_elems_join_plain [OF assms(1), of ns] nd
    unfolding fjoin2 [OF assms(1)] clean_elems_clean sn by simp
  show "is_abs (fjoin [dir, ns]) = is_abs dir"
    using assms(1) by (simp add: fjoin2 is_abs_append)
qed

lemma fms_path_elems:
  assumes "dir \<noteq> ''''" "plain_elem ns \<or> ns = ''''" "plain_elem x"
  shows "clean_elems (fjoin [dir, ns, x]) = clean_elems dir @ name_elems ns @ [x]"
    and "fjoin [fjoin [dir, ns], x] = fjoin [dir, ns, x]"
proof -
  have sp: "split_on CHR ''/'' (ns @ CHR ''/'' # x) = [ns, x]"
    using assms by (auto simp: split_on_append plain_split)
  have nd: "''..'' \<notin> set [ns, x]" using assms(2,3) by auto
  have keep: "filter (\<lambda>e. e \<noteq> '''' \<and> e \<noteq> ''.'') [ns, x] = name_elems ns @ [x]"
    using assms(2,3) by (auto simp: name_elems_def)
  show 1: "clean_elems (fjoin [dir, ns, x]) = clean_elems dir @ name_elems ns @ [x]"
    using clean_elems_join_plain [OF assms(1), of "ns @ CHR ''/'' # x"] nd keep
    unfolding fjoin3 [OF assms(1)] clean_elems_clean sp by simp
  let ?d = "fjoin [dir, ns]"
  have d: "?d = clean (dir @ CHR ''/'' # ns)" by (rule fjoin2 [OF assms(1)])
  then have dne: "?d \<noteq> ''''" by simp
  note de = fms_dir_elems(1) [OF assms(1,2)]
  have "split_on CHR ''/'' x = [x]" using assms(3) by (rule plain_split)
  moreover have "filter (\<lambda>e. e \<noteq> '''' \<and> e \<noteq> ''.'') [x] = [x]" using assms(3) by simp
  ultimately have "clean_elems (?d @ CHR ''/'' # x) = clean_elems dir @ name_elems ns @ [x]"
    using clean_elems_join_plain [OF dne, of x] nd de by simp
  moreover have "is_abs (?d @ CHR ''/'' # x) = is_abs (dir @ CHR ''/'' # ns @ CHR ''/'' # x)"
    using assms(1) dne d by (simp add: is_abs_append)
  ultimately have "clean (?d @ CHR ''/'' # x) = clean (dir @ CHR ''/'' # ns @ CHR ''/'' # x)"
    using 1 unfolding fjoin3 [OF assms(1)] by (simp only: clean_eq_iff clean_elems_clean)
  then show "fjoin [?d, x] = fjoin [dir, ns, x]"
    unfolding fjoin2 [OF dne] fjoin3 [OF assms(1)] .
qed

lemma fms_check_None:
  "fms_check ns k = None \<Longrightarrow> (plain_elem ns \<or> ns = '''') \<and> plain_elem (k @ ''.json'')"
  using validate_plain [of ns "''namespace''"] validate_plain [of k "''key''"] json_name_plain [of k]
  by (auto simp: fms_check_def split: option.splits)

abbreviation entry_path :: "string \<Rightarrow> string \<Rightarrow> string \<Rightarrow> string" where
  "entry_path dir ns k \<equiv> fjoin [dir, ns, k @ ''.json'']"

lemma fms_get_Some:
  "fms_get pf dir ns k s = Inr (Some v) \<longleftrightarrow>
     fms_check ns k = None \<and>
     (\<exists>data. os_read_file (entry_path dir ns k) s = Inr data \<and> json_unmarshal pf data = Some v)"
  by (auto simp: fms_get_def split: option.splits sum.splits)

lemma fms_put_cases:
  assumes "fms_put ff dir ns k v s = (r, t)" "dir \<noteq> ''''"
  obtains (failed) e where "r = Inl e" "grows s t"
  | (written) data s1 u where "r = Inr u" "fms_check ns k = None" "json_marshal_indent ff v = Some data" "grows s s1"
      "os_write_file (entry_path dir ns k) data s1 = (Inr u, t)"
proof (cases "fms_check ns k")
  case (Some e)
  with assms(1) show ?thesis by (intro failed) (auto simp: fms_put_def)
next
  case None
  define s1 where "s1 = snd (os_mkdir_all (fjoin [dir, ns]) s)"
  have g: "grows s s1" unfolding s1_def by (rule os_mkdir_all_grows)
  have p: "fjoin [fjoin [dir, ns], k @ ''.json''] = entry_path dir ns k"
    using fms_check_None [OF None] by (intro fms_path_elems(2) assms(2)) auto
  show ?thesis
  proof (cases "json_marshal_indent ff v")
    case no: None
    with None assms(1) g show ?thesis by (intro failed) (auto simp: fms_put_def Let_def s1_def)
  next
    case (Some data)
    with None assms(1) p have w: "os_write_file (entry_path dir ns k) data s1 = (r, t)"
      by (simp add: fms_put_def Let_def s1_def)
    show ?thesis
    proof (cases r)
      case (Inl e)
      with os_write_file_err [of _ data s1 e t] w g show ?thesis by (intro failed) auto
    next
      case (Inr u)
      with written [OF Inr None Some g] w show ?thesis by simp
    qed
  qed
qed

definition file_store_apart :: "string \<times> string \<Rightarrow> string \<times> string \<Rightarrow> bool" where
  "file_store_apart a b \<longleftrightarrow> a \<noteq> b \<and> (fst a = '''') = (fst b = '''')"

lemma fms_put_kept:
  assumes "fms_get pf dir ns' k' s = Inr (Some x)" "file_store_apart (ns, k) (ns', k')" "dir \<noteq> ''''"
  shows "fms_get pf dir ns' k' (snd (fms_put ff dir ns k v s)) = Inr (Some x)"
proof -
  from assms(1) obtain old where c': "fms_check ns' k' = None"
    and old: "os_read_file (entry_path dir ns' k') s = Inr old" "json_unmarshal pf old = Some x"
    by (auto simp: fms_get_Some)
  obtain r t where put: "fms_put ff dir ns k v s = (r, t)" by fastforce
  have "os_read_file (entry_path dir ns' k') t = Inr old"
    using put assms(3)
  proof (cases rule: fms_put_cases)
    case (failed e)
    with old show ?thesis using os_read_file_grows by blast
  next
    case (written data s1 u)
    have "clean_elems (entry_path dir ns k) = clean_elems dir @ name_elems ns @ [k @ ''.json'']"
      "clean_elems (entry_path dir ns' k') = clean_elems dir @ name_elems ns' @ [k' @ ''.json'']"
      using fms_check_None [OF written(2)] fms_check_None [OF c']
      by (intro fms_path_elems(1) assms(3); simp)+
    then have "\<not> below (clean (entry_path dir ns k)) (entry_path dir ns' k')"
      using assms(2) by (intro not_below_same_length) (auto simp: name_elems_def file_store_apart_def)
    moreover have "same_outside {clean (entry_path dir ns k)} s1 t"
      using os_write_file_outside [of "entry_path dir ns k" s1 data] written(5) by simp
    ultimately have "os_read_file (entry_path dir ns' k') t = os_read_file (entry_path dir ns' k') s1"
      by (intro os_read_file_same) auto
    with old os_read_file_grows [OF old(1) written(4)] show ?thesis by simp
  qed
  with old c' put show ?thesis by (simp add: fms_get_Some)
qed

text \<open>The store \<open>NewFileMemoryStore\<close> returns is never one with an empty directory.\<close>

definition store_dir :: "string \<Rightarrow> string" where
  "store_dir dir = (if dir = '''' then ''./.memory'' else dir)"

lemma store_dir_nonempty [simp]: "store_dir dir \<noteq> ''''"
  by (simp add: store_dir_def)

lemma file_store_simps [simp]:
  "ms_get (file_store ff pf dir) = fms_get pf dir" "ms_put (file_store ff pf dir) = fms_put ff dir"
  by (simp_all add: file_store_def)

lemma NewFileMemoryStore_dir: "fst (NewFileMemoryStore dir s) = store_dir dir"
  by (simp add: NewFileMemoryStore_def store_dir_def Let_def)

lemma fms_put_ok:
  assumes "fms_put ff dir ns k v s = (Inr u, t)" "dir \<noteq> ''''" "plain ff pf v"
  shows "fms_get pf dir ns k t = Inr (Some v)"
proof -
  obtain r where put: "fms_put ff dir ns k v s = (r, t)" and r: "r = Inr u" using assms(1) by blast
  from put assms(2) show ?thesis
  proof (cases rule: fms_put_cases)
    case (failed e)
    with r show ?thesis by simp
  next
    case (written data s1 u')
    have "json_unmarshal pf data = Some v" using marshal_roundtrip(2) [OF assms(3)] written(3) by auto
    with written os_read_write [OF written(5)] show ?thesis by (simp add: fms_get_Some)
  qed
qed

lemma fms_put_failed:
  assumes "fms_put ff dir ns k v s = (Inl e, t)" "dir \<noteq> ''''" "fms_get pf dir ns k s = Inr (Some x)"
  shows "fms_get pf dir ns k t = Inr (Some x)"
proof -
  obtain r where put: "fms_put ff dir ns k v s = (r, t)" and r: "r = Inl e" using assms(1) by blast
  from put assms(2) show ?thesis
  proof (cases rule: fms_put_cases)
    case (failed e')
    with assms(3) os_read_file_grows [of "entry_path dir ns k" s _ t] show ?thesis
      by (auto simp: fms_get_Some)
  next
    case (written data s1 u')
    with r show ?thesis by simp
  qed
qed

interpretation mf: memory_store "file_store ff pf (store_dir dir)" "plain ff pf" file_store_apart for ff pf dir
proof (unfold_locales, goal_cases)
  case (1 ns k v s u t)
  then show ?case using fms_put_ok by simp
next
  case (2 ns k v s e t x)
  then show ?case using fms_put_failed by simp
next
  case (3 ns' k' s x ns k v)
  then show ?case using fms_put_kept by simp
qed

end
