(* ===== verification/Checkpointer.thy ===== *)
theory Checkpointer
  imports Graph Memory
begin

text \<open>
  \<open>agent/checkpointer.go\<close>: \<open>FileCheckpointer\<close> keeps the state of a thread as
  indented JSON in a file named after the thread. The locale \<open>checkpointer\<close> is the
  contract of \<open>Checkpointer\<close>: what was saved is loaded, other threads are untouched.
\<close>

section \<open>The JSON of a \<open>State\<close>\<close>

definition message_value :: "Message \<Rightarrow> gval" where
  "message_value m = GStruct ''agent.Message'' [(''role'', GStr (m_role m)), (''content'', GStr (m_content m))]"

definition state_value :: "State \<Rightarrow> gval" where
  "state_value st =
     GStruct ''agent.State''
       ([(''messages'', GSlice ''[]agent.Message'' (map message_value (st_messages st)))]
        @ (if st_tool_calls st = [] then [] else [(''tool_calls'', GArr (st_tool_calls st))])
        @ [(''thread_id'', GStr (st_thread st)), (''iteration'', GInt (st_iteration st))]
        @ opt_str ''final'' (st_final st))"

text \<open>
  Decoding, field by field in the order of the text: null leaves a string or a number alone
  and empties a list; a value of another type is an error (\<open>None\<close>).
\<close>

definition decode_string :: "string \<Rightarrow> json \<Rightarrow> string option" where
  "decode_string old v = (case v of JStr s \<Rightarrow> Some s | JNull \<Rightarrow> Some old | _ \<Rightarrow> None)"

fun decode_message :: "(string \<Rightarrow> string) \<Rightarrow> Message \<Rightarrow> (string \<times> json) list \<Rightarrow> Message option" where
  "decode_message ul m [] = Some m"
| "decode_message ul m ((k, v) # kvs) =
     (if key_matches ul ''role'' k then
        Option.bind (decode_string (m_role m) v) (\<lambda>s. decode_message ul (m\<lparr>m_role := s\<rparr>) kvs)
      else if key_matches ul ''content'' k then
        Option.bind (decode_string (m_content m) v) (\<lambda>s. decode_message ul (m\<lparr>m_content := s\<rparr>) kvs)
      else decode_message ul m kvs)"

definition zero_message :: Message where
  "zero_message = \<lparr>m_role = '''', m_content = ''''\<rparr>"

definition message_of :: "(string \<Rightarrow> string) \<Rightarrow> json \<Rightarrow> Message option" where
  "message_of ul v =
     (case v of JObj kvs \<Rightarrow> decode_message ul zero_message kvs | JNull \<Rightarrow> Some zero_message | _ \<Rightarrow> None)"

definition decode_messages :: "(string \<Rightarrow> string) \<Rightarrow> json \<Rightarrow> Message list option" where
  "decode_messages ul v =
     (case v of JArr xs \<Rightarrow> those (map (message_of ul) xs) | JNull \<Rightarrow> Some [] | _ \<Rightarrow> None)"

definition decode_anys :: "parse_float \<Rightarrow> json \<Rightarrow> gval list option" where
  "decode_anys pf v =
     (case v of
        JArr xs \<Rightarrow> if list_all (in_range pf) xs then Some (map (any_of pf) xs) else None
      | JNull \<Rightarrow> Some [] | _ \<Rightarrow> None)"

definition decode_int :: "int \<Rightarrow> json \<Rightarrow> int option" where
  "decode_int old v = (case v of JNum s \<Rightarrow> atoi s | JNull \<Rightarrow> Some old | _ \<Rightarrow> None)"

fun decode_state :: "(string \<Rightarrow> string) \<Rightarrow> parse_float \<Rightarrow> State \<Rightarrow> (string \<times> json) list \<Rightarrow> State option" where
  "decode_state ul pf st [] = Some st"
| "decode_state ul pf st ((k, v) # kvs) =
     (if key_matches ul ''messages'' k then
        Option.bind (decode_messages ul v) (\<lambda>x. decode_state ul pf (st\<lparr>st_messages := x\<rparr>) kvs)
      else if key_matches ul ''tool_calls'' k then
        Option.bind (decode_anys pf v) (\<lambda>x. decode_state ul pf (st\<lparr>st_tool_calls := x\<rparr>) kvs)
      else if key_matches ul ''thread_id'' k then
        Option.bind (decode_string (st_thread st) v) (\<lambda>x. decode_state ul pf (st\<lparr>st_thread := x\<rparr>) kvs)
      else if key_matches ul ''iteration'' k then
        Option.bind (decode_int (st_iteration st) v) (\<lambda>x. decode_state ul pf (st\<lparr>st_iteration := x\<rparr>) kvs)
      else if key_matches ul ''final'' k then
        Option.bind (decode_string (st_final st) v) (\<lambda>x. decode_state ul pf (st\<lparr>st_final := x\<rparr>) kvs)
      else decode_state ul pf st kvs)"

definition zero_state :: State where
  "zero_state = \<lparr>st_messages = [], st_tool_calls = [], st_thread = '''', st_iteration = 0, st_final = ''''\<rparr>"

definition unmarshal_state :: "(string \<Rightarrow> string) \<Rightarrow> parse_float \<Rightarrow> string \<Rightarrow> State option" where
  "unmarshal_state ul pf data =
     (case parse_json data of
        Some (JObj kvs) \<Rightarrow> decode_state ul pf zero_state kvs
      | Some JNull \<Rightarrow> Some zero_state
      | _ \<Rightarrow> None)"

section \<open>\<open>FileCheckpointer\<close>\<close>

definition NewFileCheckpointer :: "string \<Rightarrow> os_state \<Rightarrow> string \<times> os_state" where
  "NewFileCheckpointer dir s =
     (let d = (if dir = '''' then ''./.checkpoints'' else dir) in (d, snd (os_mkdir_all d s)))"

definition fc_save :: "fmt_float \<Rightarrow> string \<Rightarrow> string \<Rightarrow> State \<Rightarrow> os_state \<Rightarrow> unit res \<times> os_state" where
  "fc_save ff dir threadID st s =
     (case validatePathComponent threadID ''thread_id'' of
        Some e \<Rightarrow> (Inl e, s)
      | None \<Rightarrow>
          (case json_marshal_indent ff (state_value st) of
             None \<Rightarrow> (Inl json_error, s)
           | Some data \<Rightarrow> os_write_file (fjoin [dir, threadID @ ''.json'']) data s))"

definition fc_load ::
  "(string \<Rightarrow> string) \<Rightarrow> parse_float \<Rightarrow> string \<Rightarrow> string \<Rightarrow> os_state \<Rightarrow> State option res" where
  "fc_load ul pf dir threadID s =
     (case validatePathComponent threadID ''thread_id'' of
        Some e \<Rightarrow> Inl e
      | None \<Rightarrow>
          (case os_read_file (fjoin [dir, threadID @ ''.json'']) s of
             Inl e \<Rightarrow> if is_not_exist e then Inr None else Inl e
           | Inr data \<Rightarrow>
               (case unmarshal_state ul pf data of
                  None \<Rightarrow> Inl json_error
                | Some st \<Rightarrow> Inr (Some st))))"

section \<open>The contract of \<open>Checkpointer\<close>\<close>

locale checkpointer =
  fixes save :: "string \<Rightarrow> State \<Rightarrow> 's \<Rightarrow> unit res \<times> 's"
    and load :: "string \<Rightarrow> 's \<Rightarrow> State option res"
    and keeps :: "State \<Rightarrow> bool"
  assumes save_load: "save tid st s = (Inr u, t) \<Longrightarrow> keeps st \<Longrightarrow> load tid t = Inr (Some st)"
    and save_fail: "save tid st s = (Inl e, t) \<Longrightarrow> t = s"
    and save_other: "tid \<noteq> tid' \<Longrightarrow> load tid' (snd (save tid st s)) = load tid' s"
begin

fun save_all :: "(string \<times> State) list \<Rightarrow> 's \<Rightarrow> 's" where
  "save_all [] s = s"
| "save_all ((tid, st) # ss) s = save_all ss (snd (save tid st s))"

lemma save_all_other: "tid \<notin> fst ` set ss \<Longrightarrow> load tid (save_all ss s) = load tid s"
  by (induction ss arbitrary: s) (auto simp: save_other)

text \<open>After any saves, a thread's last successful save is what a load returns.\<close>

lemma last_save_loaded:
  assumes "save tid st s = (Inr u, t)" "keeps st" "tid \<notin> fst ` set ss"
  shows "load tid (save_all ss t) = Inr (Some st)"
  using save_all_other [OF assms(3)] save_load [OF assms(1,2)] by simp

lemma failed_save_keeps:
  assumes "save tid st s = (Inl e, t)" shows "load tid t = load tid s"
  using save_fail [OF assms] by simp

end

section \<open>\<open>FileCheckpointer\<close> meets the contract\<close>

text \<open>A state that JSON keeps as it is: valid UTF-8, plain values, an iteration of 64 bits.\<close>

definition keeps_state :: "fmt_float \<Rightarrow> parse_float \<Rightarrow> State \<Rightarrow> bool" where
  "keeps_state ff pf st \<longleftrightarrow>
     list_all (\<lambda>m. valid_utf8 (m_role m) \<and> valid_utf8 (m_content m)) (st_messages st) \<and>
     plain ff pf (GArr (st_tool_calls st)) \<and> valid_utf8 (st_thread st) \<and> valid_utf8 (st_final st) \<and>
     - (2 ^ 63) \<le> st_iteration st \<and> st_iteration st < 2 ^ 63"

definition message_tree :: "Message \<Rightarrow> json" where
  "message_tree m = JObj [(''role'', JStr (m_role m)), (''content'', JStr (m_content m))]"

lemma those_all_Some: "those (map (\<lambda>x. Some (f x)) xs) = Some (map f xs)"
  by (induction xs) auto

lemma those_map_comp: "(\<And>x. x \<in> set xs \<Longrightarrow> f x = Some (h x)) \<Longrightarrow> those (map f xs) = Some (map h xs)"
  by (induction xs) auto

lemma key_matches_same [simp]: "key_matches ul k k"
  by (simp add: key_matches_def)

lemma key_names:
  "\<not> key_matches ul ''role'' ''content''"
  "\<not> key_matches ul ''messages'' ''tool_calls''" "\<not> key_matches ul ''messages'' ''thread_id''"
  "\<not> key_matches ul ''messages'' ''iteration''" "\<not> key_matches ul ''messages'' ''final''"
  "\<not> key_matches ul ''tool_calls'' ''thread_id''" "\<not> key_matches ul ''tool_calls'' ''iteration''"
  "\<not> key_matches ul ''tool_calls'' ''final''" "\<not> key_matches ul ''thread_id'' ''iteration''"
  "\<not> key_matches ul ''thread_id'' ''final''" "\<not> key_matches ul ''iteration'' ''final''"
  by (simp_all add: key_matches_def to_lower_def is_ascii_def ascii_lower_def is_upper_def)

lemma message_roundtrip: "message_of ul (message_tree m) = Some m"
  by (simp add: message_of_def message_tree_def key_names decode_string_def zero_message_def)

definition state_tree :: "State \<Rightarrow> json list \<Rightarrow> json" where
  "state_tree st ts =
     JObj ([(''messages'', JArr (map message_tree (st_messages st)))]
       @ (if st_tool_calls st = [] then [] else [(''tool_calls'', JArr ts)])
       @ [(''thread_id'', JStr (st_thread st)), (''iteration'', JNum (itoa_int (st_iteration st)))]
       @ (if st_final st = '''' then [] else [(''final'', JStr (st_final st))]))"

lemma state_value_tree:
  assumes "tree_of ff (GArr (st_tool_calls st)) = Some (JArr ts)"
  shows "tree_of ff (state_value st) = Some (state_tree st ts)"
proof -
  have "those (map (tree_of ff \<circ> message_value) (st_messages st)) = Some (map message_tree (st_messages st))"
    by (rule those_map_comp) (simp add: message_value_def message_tree_def)
  then have "tree_of ff (GSlice ''[]agent.Message'' (map message_value (st_messages st))) =
      Some (JArr (map message_tree (st_messages st)))" by (simp add: comp_def)
  with assms show ?thesis by (simp add: state_value_def state_tree_def opt_str_def)
qed

lemma state_roundtrip:
  assumes "keeps_state ff pf st"
  shows "\<exists>data. json_marshal_indent ff (state_value st) = Some data \<and> unmarshal_state ul pf data = Some st"
proof -
  obtain ts where ts: "tree_of ff (GArr (st_tool_calls st)) = Some (JArr ts)"
    and bk: "reads_as ff pf (GArr (st_tool_calls st)) (JArr ts)"
  proof -
    obtain t where t: "tree_of ff (GArr (st_tool_calls st)) = Some t" "reads_as ff pf (GArr (st_tool_calls st)) t"
      using plain_tree [of ff pf "GArr (st_tool_calls st)"] assms by (auto simp: keeps_state_def)
    then obtain ts where "t = JArr ts" by auto
    with t that show ?thesis by blast
  qed
  note tr = state_value_tree [OF ts]
  let ?d = "print_json True 0 (state_tree st ts)"
  have "json_ok (state_tree st ts)" "utf8_json (state_tree st ts)"
    using assms bk
    by (auto simp: state_tree_def keeps_state_def reads_as_def message_tree_def itoa_int_ok list_all_iff
        valid_utf8_ascii is_ascii_def)
  then have p: "parse_json ?d = Some (state_tree st ts)" by (rule parse_print)
  have ms: "decode_messages ul (JArr (map message_tree (st_messages st))) = Some (st_messages st)"
    using those_map_comp [of "st_messages st" "message_of ul \<circ> message_tree" id]
    by (simp add: decode_messages_def message_roundtrip comp_def)
  have an: "decode_anys pf (JArr ts) = Some (st_tool_calls st)"
    using bk by (simp add: decode_anys_def reads_as_def)
  have it: "decode_int 0 (JNum (itoa_int (st_iteration st))) = Some (st_iteration st)"
    using assms by (simp add: decode_int_def atoi_itoa_int keeps_state_def)
  have "unmarshal_state ul pf ?d = Some st"
    unfolding unmarshal_state_def p
    using ms an it by (simp add: state_tree_def key_names decode_string_def zero_state_def)
  with tr show ?thesis by (simp add: json_marshal_indent_def)
qed

abbreviation thread_path :: "string \<Rightarrow> string \<Rightarrow> string" where
  "thread_path dir tid \<equiv> fjoin [dir, tid @ ''.json'']"

lemma thread_path_elems:
  assumes "dir \<noteq> ''''" "validatePathComponent tid f = None"
  shows "clean_elems (thread_path dir tid) = clean_elems dir @ [tid @ ''.json'']"
proof -
  have p: "plain_elem (tid @ ''.json'')"
    using validate_plain [OF assms(2)] json_name_plain [of tid] by auto
  then have sp: "split_on CHR ''/'' (tid @ ''.json'') = [tid @ ''.json'']" by (rule plain_split)
  have nd: "''..'' \<notin> set [tid @ ''.json'']"
    and k: "filter (\<lambda>e. e \<noteq> '''' \<and> e \<noteq> ''.'') [tid @ ''.json''] = [tid @ ''.json'']"
    using p by (auto simp only: plain_elem.simps set_simps filter.simps split: if_split)
  show ?thesis
    using clean_elems_join_plain [OF assms(1), of "tid @ ''.json''"] nd
    unfolding fjoin2 [OF assms(1)] clean_elems_clean sp k by blast
qed

lemma fc_save_ok:
  assumes "fc_save ff dir tid st s = (Inr u, t)"
  shows "validatePathComponent tid ''thread_id'' = None \<and>
    (\<exists>data. json_marshal_indent ff (state_value st) = Some data \<and>
       os_write_file (thread_path dir tid) data s = (Inr u, t))"
  using assms by (auto simp: fc_save_def split: option.splits)

lemma fc_save_load:
  assumes "fc_save ff dir tid st s = (Inr u, t)" "keeps_state ff pf st"
  shows "fc_load ul pf dir tid t = Inr (Some st)"
proof -
  from fc_save_ok [OF assms(1)] obtain data where v: "validatePathComponent tid ''thread_id'' = None"
    and d: "json_marshal_indent ff (state_value st) = Some data"
    and w: "os_write_file (thread_path dir tid) data s = (Inr u, t)" by blast
  from state_roundtrip [OF assms(2), of ul] d have "unmarshal_state ul pf data = Some st" by simp
  with v os_read_write [OF w] show ?thesis by (simp add: fc_load_def)
qed

lemma fc_save_fail: "fc_save ff dir tid st s = (Inl e, t) \<Longrightarrow> t = s"
  using os_write_file_err by (auto simp: fc_save_def split: option.splits)

lemma fc_save_other:
  assumes "tid \<noteq> tid'" "dir \<noteq> ''''"
  shows "fc_load ul pf dir tid' (snd (fc_save ff dir tid st s)) = fc_load ul pf dir tid' s"
proof -
  obtain r t where sv: "fc_save ff dir tid st s = (r, t)" by fastforce
  show ?thesis
  proof (cases "validatePathComponent tid' ''thread_id''")
    case (Some e)
    then show ?thesis by (simp add: fc_load_def)
  next
    case ok': None
    show ?thesis
    proof (cases r)
      case (Inl e)
      with sv fc_save_fail show ?thesis by fastforce
    next
      case (Inr u)
      with fc_save_ok [of ff dir tid st s u t] sv obtain data
        where v: "validatePathComponent tid ''thread_id'' = None"
          and w: "os_write_file (thread_path dir tid) data s = (Inr u, t)" by auto
      have "\<not> below (clean (thread_path dir tid)) (thread_path dir tid')"
        using assms(1) thread_path_elems [OF assms(2) v] thread_path_elems [OF assms(2) ok']
        by (intro not_below_same_length) simp_all
      moreover have "same_outside {clean (thread_path dir tid)} s t"
        using os_write_file_outside [of "thread_path dir tid" s data] w by simp
      ultimately have "os_read_file (thread_path dir tid') t = os_read_file (thread_path dir tid') s"
        by (intro os_read_file_same) auto
      with sv ok' show ?thesis by (simp add: fc_load_def)
    qed
  qed
qed

definition checkpoint_dir :: "string \<Rightarrow> string" where
  "checkpoint_dir dir = (if dir = '''' then ''./.checkpoints'' else dir)"

lemma NewFileCheckpointer_dir: "fst (NewFileCheckpointer dir s) = checkpoint_dir dir"
  by (simp add: NewFileCheckpointer_def checkpoint_dir_def Let_def)

lemma checkpoint_dir_nonempty: "checkpoint_dir dir \<noteq> ''''"
  by (simp add: checkpoint_dir_def)

interpretation fck: checkpointer "fc_save ff (checkpoint_dir dir)" "fc_load ul pf (checkpoint_dir dir)"
    "keeps_state ff pf" for ff pf ul dir
proof (unfold_locales, goal_cases)
  case (1 tid st s u t)
  then show ?case by (rule fc_save_load)
next
  case (2 tid st s e t)
  then show ?case by (rule fc_save_fail)
next
  case (3 tid tid' st s)
  then show ?case by (rule fc_save_other [OF _ checkpoint_dir_nonempty])
qed

section \<open>The checkpointer of a graph\<close>

text \<open>
  A graph whose world has the file system as its first part checkpoints through these;
  \<open>q\<close> is \<open>strconv.Quote\<close>.
\<close>

definition graph_save ::
  "(string \<Rightarrow> string) \<Rightarrow> fmt_float \<Rightarrow> string \<Rightarrow> string \<Rightarrow> State \<Rightarrow> os_state \<times> 'x \<Rightarrow> string option \<times> (os_state \<times> 'x)" where
  "graph_save q ff dir tid st w =
     (case fc_save ff dir tid st (fst w) of
        (Inl e, s) \<Rightarrow> (Some (err_text q e), (s, snd w))
      | (Inr _, s) \<Rightarrow> (None, (s, snd w)))"

definition graph_load ::
  "(string \<Rightarrow> string) \<Rightarrow> (string \<Rightarrow> string) \<Rightarrow> parse_float \<Rightarrow> string \<Rightarrow> string \<Rightarrow> os_state \<times> 'x \<Rightarrow>
   (string + State option) \<times> (os_state \<times> 'x)" where
  "graph_load q ul pf dir tid w =
     (case fc_load ul pf dir tid (fst w) of
        Inl e \<Rightarrow> (Inl (err_text q e), w)
      | Inr st \<Rightarrow> (Inr st, w))"

lemma graph_save_load:
  assumes "fst (graph_save q ff (checkpoint_dir dir) tid st w) = None" "keeps_state ff pf st"
  shows "graph_load q ul pf (checkpoint_dir dir) tid (snd (graph_save q ff (checkpoint_dir dir) tid st w)) =
    (Inr (Some st), snd (graph_save q ff (checkpoint_dir dir) tid st w))"
proof -
  obtain r s where sv: "fc_save ff (checkpoint_dir dir) tid st (fst w) = (r, s)" by fastforce
  with assms(1) obtain u where "r = Inr u" by (cases r) (auto simp: graph_save_def)
  with sv fck.save_load assms(2) have "fc_load ul pf (checkpoint_dir dir) tid s = Inr (Some st)" by blast
  with sv \<open>r = Inr u\<close> show ?thesis by (simp add: graph_save_def graph_load_def)
qed

end
