(* ===== verification/Store_Claims.thy ===== *)
theory Store_Claims
  imports Checkpointer Graph_Claims
begin

text \<open>
  The properties of the persistent parts: checkpoints, the memory stores, and a conversation
  that is resumed from its checkpoint.
\<close>

section \<open>Checkpoints\<close>

text \<open>
  C22: a state that was saved is loaded again, field for field, whatever is saved for other
  threads in between; the states this holds for are those of valid UTF-8, plain values and a
  64-bit iteration. The JSON text is printed and parsed for real.
\<close>

theorem checkpoint_roundtrip:
  assumes "fc_save ff (checkpoint_dir dir) tid st s = (Inr u, t)" and "keeps_state ff pf st"
    and "tid \<notin> fst ` set ss"
  shows "fc_load ul pf (checkpoint_dir dir) tid
      (foldl (\<lambda>t (tid', st'). snd (fc_save ff (checkpoint_dir dir) tid' st' t)) t ss) = Inr (Some st)"
proof -
  have "foldl (\<lambda>t (tid', st'). snd (fc_save ff (checkpoint_dir dir) tid' st' t)) t ss = fck.save_all ff dir ss t"
    for t by (induction ss arbitrary: t) auto
  with fck.last_save_loaded [OF assms] show ?thesis by simp
qed

definition demo_dir :: os_state where
  "demo_dir = \<lparr>nodes = [(''/c'', Dir)], faulty = (\<lambda>_. False)\<rparr>"

lemma checkpoint_roundtrip_witness:
  "\<exists>t. fc_load id (\<lambda>_. None) (checkpoint_dir ''/c'') ''t'' t = Inr (Some (demo_state 3))"
proof -
  let ?s = "fc_save (\<lambda>_. None) (checkpoint_dir ''/c'') ''t'' (demo_state 3) demo_dir"
  have "is_ok (fst ?s)"
    by (simp add: fc_save_def validatePathComponent_def contains.simps) code_simp
  then obtain u where s: "?s = (Inr u, snd ?s)" by (cases "fst ?s") (auto simp: prod_eq_iff is_ok_def)
  have k: "keeps_state (\<lambda>_. None) (\<lambda>_. None) (demo_state 3)"
    by (simp add: keeps_state_def demo_state_def valid_utf8_ascii is_ascii_def)
  show ?thesis using checkpoint_roundtrip [OF s k, of "[]" id] by auto
qed

section \<open>Resuming a conversation\<close>

fun save_errors :: "effect list \<Rightarrow> string option list" where
  "save_errors [] = []"
| "save_errors (Saved _ _ err # es) = err # save_errors es"
| "save_errors (_ # es) = save_errors es"

lemma save_errors_append [simp]: "save_errors (a @ b) = save_errors a @ save_errors b"
  by (induction a rule: save_errors.induct) auto





section \<open>Memory stores\<close>



text \<open>
  The keys \<open>FileMemoryStore.List\<close> returns are file names: every entry that
  \<open>Get\<close> finds is listed under its key with \<open>.json\<close> appended, so a listed name is
  not the key to get it with.
\<close>

theorem file_memory_lists_file_names:
  assumes "fms_get pf (store_dir dir) ns k s = Inr (Some v)" and "fms_list (store_dir dir) ns s = Inr keys"
    and "ns \<noteq> ''''"
  shows "\<exists>ks. keys = Some ks \<and> k @ ''.json'' \<in> set ks"
proof -
  let ?p = "entry_path (store_dir dir) ns k" and ?d = "fjoin [store_dir dir, ns]"
  from assms(1) obtain data where c: "fms_check ns k = None" and rd: "os_read_file ?p s = Inr data"
    by (auto simp: fms_get_Some)
  have pl: "plain_elem ns \<or> ns = ''''" "plain_elem (k @ ''.json'')" using fms_check_None [OF c] by auto
  note pe = fms_path_elems(1) [OF store_dir_nonempty pl]
  have cl: "clean ?p = ?p" unfolding fjoin3 [OF store_dir_nonempty] by simp
  from rd have "lookup_node s ?p = Some (File data)"
    by (auto simp: os_read_file_def os_get_def cl split: sum.splits node.splits option.splits if_splits)
  then have mem: "(?p, File data) \<in> set (nodes s)"
    by (auto simp: lookup_node_def map_of_SomeD split: if_splits)
  have de: "clean_elems ?d = clean_elems (store_dir dir) @ [ns]" "is_abs ?d = is_abs (store_dir dir)"
    using fms_dir_elems [OF store_dir_nonempty pl(1)] assms(3) by (simp_all add: name_elems_def)
  have ap: "is_abs ?p = is_abs (store_dir dir)" by (simp add: fjoin3 is_abs_append)
  have pe: "clean_elems ?p = clean_elems ?d @ [k @ ''.json'']"
    using pe de(1) assms(3) by (simp add: name_elems_def)
  then have "parent_of ?p = clean ?d" using ap de(2) by (simp add: parent_of_def clean_def)
  with mem pe have ent: "(k @ ''.json'', False) \<in> set (dir_entries s (clean ?d))"
    by (force simp: dir_entries_def)
  obtain n where "os_get s ?p = Inr n" using rd by (auto simp: os_read_file_def split: sum.splits)
  from os_get_parent [OF this pe] ap de
  have "os_get s ?d = (if faulty s (clean ?d) then Inl EIO else Inr Dir)" by simp
  with assms(2) have "keys = (let ks = map fst (filter (\<lambda>e. \<not> snd e) (dir_entries s (clean ?d)))
      in if ks = [] then None else Some ks)"
    by (auto simp: fms_list_def os_read_dir_def Let_def split: option.splits if_splits)
  with ent show ?thesis by (force simp: Let_def filter_empty_conv)
qed

definition listed_dir :: os_state where
  "listed_dir = \<lparr>nodes = [(''/c'', Dir), (''/c/n'', Dir), (''/c/n/k.json'', File ''true'')], faulty = (\<lambda>_. False)\<rparr>"

lemma file_memory_lists_file_names_witness:
  "\<exists>ks. Some [''k.json''] = Some ks \<and> ''k'' @ ''.json'' \<in> set ks"
proof -
  have g: "fms_get (\<lambda>_. None) (store_dir ''/c'') ''n'' ''k'' listed_dir = Inr (Some (GBool True))" by code_simp
  have l: "fms_list (store_dir ''/c'') ''n'' listed_dir = Inr (Some [''k.json''])" by code_simp
  show ?thesis by (rule file_memory_lists_file_names [OF g l]) simp
qed

end
