(* ===== verification/Json_Structs.thy ===== *)
theory Json_Structs
  imports Hitl Json_Values
begin

text \<open>
  Structs through JSON: the tree of a struct from the trees of its fields, field by field, so
  that optional fields do not multiply the cases; and values that settle under JSON.
\<close>

section \<open>Fields\<close>

definition str_field :: "string \<Rightarrow> string \<Rightarrow> (string \<times> json) list" where
  "str_field k s = (if s = '''' then [] else [(k, JStr s)])"

lemma those_append:
  "those (xs @ ys) = (case those xs of None \<Rightarrow> None | Some as \<Rightarrow> map_option ((@) as) (those ys))"
  by (induction xs rule: those.induct; cases "those ys") (auto split: option.splits)

definition tree_fields :: "fmt_float \<Rightarrow> (string \<times> gval) list \<Rightarrow> (string \<times> json) list option" where
  "tree_fields ff kvs = those (map (\<lambda>(k, v). map_option (Pair k) (tree_of ff v)) kvs)"

lemma tree_fields_simps [simp]:
  "tree_fields ff [] = Some []"
  "tree_fields ff [(k, GStr s)] = Some [(k, JStr s)]"
  "tree_fields ff (opt_str k s) = Some (str_field k s)"
  "tree_fields ff (opt_int k i) = Some (if i = 0 then [] else [(k, JNum (itoa_int i))])"
  "tree_fields ff [(k, GBool b)] = Some [(k, JBool b)]"
  by (simp_all add: tree_fields_def opt_str_def opt_int_def str_field_def)

lemma tree_fields_append:
  "tree_fields ff as = Some a \<Longrightarrow> tree_fields ff bs = Some b \<Longrightarrow> tree_fields ff (as @ bs) = Some (a @ b)"
  by (simp add: tree_fields_def those_append)

lemma tree_of_struct: "tree_of ff (GStruct n kvs) = map_option JObj (tree_fields ff kvs)"
  by (simp add: tree_fields_def)

section \<open>Values that settle\<close>

text \<open>A value whose JSON, read and written again, is the same JSON.\<close>

definition settled :: "fmt_float \<Rightarrow> parse_float \<Rightarrow> gval \<Rightarrow> bool" where
  "settled ff pf v =
     (case tree_of ff v of
        None \<Rightarrow> False
      | Some t \<Rightarrow> json_ok t \<and> utf8_json t \<and> in_range pf t \<and> tree_of ff (any_of pf t) = Some t)"

lemma tree_JNull: "tree_of ff v = Some JNull \<longleftrightarrow> v = GNil"
  by (cases v) auto

lemma settledE:
  assumes "settled ff pf v"
  obtains t where "tree_of ff v = Some t" "json_ok t" "utf8_json t" "in_range pf t"
    "tree_of ff (any_of pf t) = Some t" "any_of pf t = GNil \<longleftrightarrow> v = GNil"
proof -
  from assms obtain t where t: "tree_of ff v = Some t" "json_ok t" "utf8_json t" "in_range pf t"
    "tree_of ff (any_of pf t) = Some t" by (auto simp: settled_def split: option.splits)
  moreover from t(1,5) have "any_of pf t = GNil \<longleftrightarrow> v = GNil" by (metis option.inject tree_JNull)
  ultimately show ?thesis using that by blast
qed

end
