(* ===== verification/Model_Adapters.thy ===== *)
theory Model_Adapters
  imports Checkpointer Json_Structs
begin

text \<open>
  The model adapters under \<open>llms/\<close>: the Anthropic client, written against
  \<open>net/http\<close>, the OpenAI one against a client library, and Groq and Ollama, which are the
  OpenAI one at another address.

  Parameters: \<open>send\<close>, the HTTP client; \<open>create\<close>, the OpenAI client library;
  \<open>url_err\<close>, \<open>derr\<close> and \<open>merr\<close>, the texts of errors of \<open>net/http\<close> and
  \<open>encoding/json\<close>; the float conversions and the Unicode case table.
\<close>

section \<open>Tools in OpenAI's format\<close>

definition ConvertToOpenAITools :: "llm_tool list \<Rightarrow> gval list" where
  "ConvertToOpenAITools tools =
     map (\<lambda>t. GObj [(''type'', GStr ''function''),
       (''function'', GObj [(''name'', GStr (lt_name t)), (''description'', GStr (lt_description t)),
          (''parameters'', GObj (GenerateParametersSchema (lt_parameters t)))])]) tools"

text \<open>A marshal error leaves the empty text.\<close>

definition marshal_text :: "fmt_float \<Rightarrow> gval \<Rightarrow> string" where
  "marshal_text ff v = (case json_marshal ff v of Some b \<Rightarrow> b | None \<Rightarrow> '''')"

definition MarshalParametersSchema :: "fmt_float \<Rightarrow> llm_tool \<Rightarrow> string" where
  "MarshalParametersSchema ff t = marshal_text ff (GObj (GenerateParametersSchema (lt_parameters t)))"

section \<open>Anthropic\<close>

record Anthropic =
  an_api_key :: string
  an_model :: string
  an_base_url :: string
  an_version :: string
  an_max_tokens :: int

definition trim_right :: "char \<Rightarrow> string \<Rightarrow> string" where
  "trim_right c s = rev (dropWhile (\<lambda>x. x = c) (rev s))"

definition NewAnthropic :: "string \<Rightarrow> string \<Rightarrow> string \<Rightarrow> Anthropic" where
  "NewAnthropic apiKey model baseURL =
     (let url = (if trim_space baseURL = '''' then ''https://api.anthropic.com'' else baseURL)
      in \<lparr>an_api_key = apiKey, an_model = model, an_base_url = trim_right (CHR ''/'') url,
          an_version = ''2023-06-01'', an_max_tokens = 2048\<rparr>)"

definition text_block :: "string \<Rightarrow> gval" where
  "text_block s = GObj [(''type'', GStr ''text''), (''text'', GStr s)]"

text \<open>
  The text of a tool result: its data as JSON, or its error. \<open>payload\<close> is the decoded
  tool message; a message that is no JSON object, or null, gives no block.
\<close>

definition result_text :: "fmt_float \<Rightarrow> args \<Rightarrow> string" where
  "result_text ff payload =
     (if Option.bind (map_of payload ''ok'') as_bool = Some True then
        (case map_of payload ''data'' of Some data \<Rightarrow> marshal_text ff data | None \<Rightarrow> ''ok'')
      else (case arg_string payload ''error'' of
              Some e \<Rightarrow> if trim_space e \<noteq> '''' then e else ''tool execution failed''
            | None \<Rightarrow> ''tool execution failed''))"

definition parseToolResultBlock :: "fmt_float \<Rightarrow> parse_float \<Rightarrow> string \<Rightarrow> args option" where
  "parseToolResultBlock ff pf content =
     (case json_unmarshal pf content of
        Some (GObj payload) \<Rightarrow>
          (let toolUseID = (case arg_string payload ''tool_call_id'' of Some s \<Rightarrow> s | None \<Rightarrow> '''')
           in if trim_space toolUseID = '''' then None
              else Some [(''type'', GStr ''tool_result''), (''tool_use_id'', GStr toolUseID),
                (''content'', GSlice ''[]map[string]interface {}'' [text_block (result_text ff payload)])])
      | _ \<Rightarrow> None)"

text \<open>One message of the conversation: system messages are joined, other roles are dropped.\<close>

definition add_request_message ::
  "fmt_float \<Rightarrow> parse_float \<Rightarrow> string \<times> (string \<times> gval list) list \<Rightarrow> Message \<Rightarrow>
     string \<times> (string \<times> gval list) list" where
  "add_request_message ff pf acc m =
     (case acc of (system, msgs) \<Rightarrow>
        if m_role m = ''system'' then
          (if system = '''' then m_content m else system @ [CHR 0x0A] @ m_content m, msgs)
        else if m_role m = ''assistant'' \<or> m_role m = ''user'' then
          (system, msgs @ [(m_role m, [text_block (m_content m)])])
        else if m_role m = ''tool'' then
          (system, msgs @ [(''user'',
             [case parseToolResultBlock ff pf (m_content m) of
                Some block \<Rightarrow> GObj block
              | None \<Rightarrow> text_block (''Tool result: '' @ m_content m)])])
        else (system, msgs))"

definition request_messages :: "fmt_float \<Rightarrow> parse_float \<Rightarrow> Message list \<Rightarrow> string \<times> (string \<times> gval list) list" where
  "request_messages ff pf messages = foldl (add_request_message ff pf) ('''', []) messages"

text \<open>The request as JSON; a nil slice of messages is null.\<close>

definition anthropic_request :: "fmt_float \<Rightarrow> parse_float \<Rightarrow> Anthropic \<Rightarrow> Message list \<Rightarrow> llm_tool list \<Rightarrow> gval" where
  "anthropic_request ff pf a messages tools =
     (case request_messages ff pf messages of (system, msgs) \<Rightarrow>
        GStruct ''anthropic.messageRequest''
          ([(''model'', GStr (an_model a))] @ opt_str ''system'' system
           @ [(''max_tokens'', GInt (an_max_tokens a)),
              (''messages'', if msgs = [] then GNil else GSlice ''[]anthropic.requestMessage''
                 (map (\<lambda>(role, content). GStruct ''anthropic.requestMessage''
                    [(''role'', GStr role), (''content'', GSlice ''[]map[string]interface {}'' content)]) msgs))]
           @ (if tools = [] then []
              else [(''tools'', GSlice ''[]anthropic.requestTool''
                 (map (\<lambda>t. GStruct ''anthropic.requestTool''
                    ([(''name'', GStr (lt_name t))] @ opt_str ''description'' (lt_description t)
                     @ [(''input_schema'', GObj (GenerateParametersSchema (lt_parameters t)))])) tools))])))"

text \<open>The response: a block, decoded field by field in the order of the text.\<close>

record content_block =
  cb_type :: string
  cb_text :: string
  cb_id :: string
  cb_name :: string
  cb_input :: "args option"

definition zero_block :: content_block where
  "zero_block = \<lparr>cb_type = '''', cb_text = '''', cb_id = '''', cb_name = '''', cb_input = None\<rparr>"

definition decode_map :: "parse_float \<Rightarrow> args option \<Rightarrow> json \<Rightarrow> args option option" where
  "decode_map pf old v =
     (case v of
        JObj kvs \<Rightarrow>
          (if in_range pf v
           then Some (Some (foldl (\<lambda>m (k, x). AList.update k (any_of pf x) m) (case old of Some m \<Rightarrow> m | None \<Rightarrow> []) kvs))
           else None)
      | JNull \<Rightarrow> Some None
      | _ \<Rightarrow> None)"

fun decode_block :: "(string \<Rightarrow> string) \<Rightarrow> parse_float \<Rightarrow> content_block \<Rightarrow> (string \<times> json) list \<Rightarrow> content_block option" where
  "decode_block ul pf b [] = Some b"
| "decode_block ul pf b ((k, v) # kvs) =
     (let next = (\<lambda>b1. decode_block ul pf b1 kvs) in
      if key_matches ul ''type'' k then Option.bind (decode_string (cb_type b) v) (\<lambda>s. next (b\<lparr>cb_type := s\<rparr>))
      else if key_matches ul ''text'' k then Option.bind (decode_string (cb_text b) v) (\<lambda>s. next (b\<lparr>cb_text := s\<rparr>))
      else if key_matches ul ''id'' k then Option.bind (decode_string (cb_id b) v) (\<lambda>s. next (b\<lparr>cb_id := s\<rparr>))
      else if key_matches ul ''name'' k then Option.bind (decode_string (cb_name b) v) (\<lambda>s. next (b\<lparr>cb_name := s\<rparr>))
      else if key_matches ul ''input'' k then
        Option.bind (decode_map pf (cb_input b) v) (\<lambda>m. next (b\<lparr>cb_input := m\<rparr>))
      else next b)"

definition decode_blocks :: "(string \<Rightarrow> string) \<Rightarrow> parse_float \<Rightarrow> json \<Rightarrow> content_block list option" where
  "decode_blocks ul pf v =
     (case v of
        JArr xs \<Rightarrow> those (map (\<lambda>x. case x of JObj kvs \<Rightarrow> decode_block ul pf zero_block kvs
                                          | JNull \<Rightarrow> Some zero_block | _ \<Rightarrow> None) xs)
      | JNull \<Rightarrow> Some [] | _ \<Rightarrow> None)"

fun decode_content :: "(string \<Rightarrow> string) \<Rightarrow> parse_float \<Rightarrow> content_block list \<Rightarrow> (string \<times> json) list \<Rightarrow> content_block list option" where
  "decode_content ul pf bs [] = Some bs"
| "decode_content ul pf bs ((k, v) # kvs) =
     (if key_matches ul ''content'' k
      then Option.bind (decode_blocks ul pf v) (\<lambda>xs. decode_content ul pf xs kvs)
      else decode_content ul pf bs kvs)"

definition messageResponse :: "(string \<Rightarrow> string) \<Rightarrow> parse_float \<Rightarrow> string \<Rightarrow> content_block list option" where
  "messageResponse ul pf body =
     (case parse_json body of
        Some (JObj kvs) \<Rightarrow> decode_content ul pf [] kvs
      | Some JNull \<Rightarrow> Some []
      | _ \<Rightarrow> None)"

text \<open>The tool calls and the texts of the blocks; with a tool call the texts are dropped.\<close>

definition tool_use_call :: "fmt_float \<Rightarrow> content_block \<Rightarrow> ToolCall" where
  "tool_use_call ff b =
     \<lparr>tc_id = cb_id b, tc_name = cb_name b,
      tc_arguments = marshal_text ff (case cb_input b of None \<Rightarrow> GNil | Some m \<Rightarrow> GObj m)\<rparr>"

definition answer_of_blocks :: "fmt_float \<Rightarrow> content_block list \<Rightarrow> string \<times> ToolCall list" where
  "answer_of_blocks ff bs =
     (let toolCalls = map (tool_use_call ff) (filter (\<lambda>b. cb_type b = ''tool_use'') bs);
          textParts = map cb_text (filter (\<lambda>b. cb_type b = ''text'' \<and> cb_text b \<noteq> '''') bs)
      in if toolCalls \<noteq> [] then ('''', toolCalls) else (join [CHR 0x0A] textParts, []))"

definition anthropic_invoke ::
  "(string \<Rightarrow> string) \<Rightarrow> fmt_float \<Rightarrow> parse_float \<Rightarrow> (string \<Rightarrow> string option) \<Rightarrow> (string \<Rightarrow> string) \<Rightarrow> (gval \<Rightarrow> string) \<Rightarrow>
   (http_request \<Rightarrow> 'w \<Rightarrow> http_result \<times> 'w) \<Rightarrow> Anthropic \<Rightarrow>
   Message list \<Rightarrow> llm_tool list \<Rightarrow> 'w \<Rightarrow> (string + (string \<times> ToolCall list)) \<times> 'w" where
  "anthropic_invoke ul ff pf url_err derr merr send a messages tools w =
     (if trim_space (an_api_key a) = '''' then (Inl ''anthropic api key is required'', w)
      else let req = anthropic_request ff pf a messages tools; url = an_base_url a @ ''/v1/messages'' in
        case json_marshal ff req of
          None \<Rightarrow> (Inl (merr req), w)
        | Some payload \<Rightarrow>
            (case url_err url of
               Some e \<Rightarrow> (Inl e, w)
             | None \<Rightarrow>
                 (case send \<lparr>rq_url = url, rq_body = payload,
                     rq_headers = [(''content-type'', ''application/json''), (''x-api-key'', an_api_key a),
                       (''anthropic-version'', an_version a)], rq_timeout = 0\<rparr> w of
                    (TransportError e, w1) \<Rightarrow> (Inl e, w1)
                  | (HttpResponse code status body, w1) \<Rightarrow>
                      (if code < 200 \<or> 300 \<le> code
                       then Inl (''anthropic api error: '' @ status @ '' ('' @ trim_space body @ '')'')
                       else (case messageResponse ul pf body of
                               None \<Rightarrow> Inl (derr body)
                             | Some bs \<Rightarrow> Inr (answer_of_blocks ff bs)), w1))))"

section \<open>OpenAI, Groq and Ollama\<close>

text \<open>A client of the library: the API key and the address, if it is not the default one.\<close>

record OpenAI =
  oa_key :: string
  oa_base_url :: "string option"
  oa_model :: string

record chat_request =
  cr_model :: string
  cr_messages :: "(string \<times> string) list"
  cr_tools :: "(string \<times> string \<times> args) list"
  cr_tool_choice :: string

definition NewOpenAI :: "string \<Rightarrow> string \<Rightarrow> OpenAI" where
  "NewOpenAI apiKey model = \<lparr>oa_key = apiKey, oa_base_url = None, oa_model = model\<rparr>"

definition NewWithBaseURL :: "string \<Rightarrow> string \<Rightarrow> string \<Rightarrow> OpenAI" where
  "NewWithBaseURL apiKey model baseURL =
     \<lparr>oa_key = apiKey, oa_base_url = (if baseURL \<noteq> '''' then Some baseURL else None), oa_model = model\<rparr>"

definition chat_request_of :: "OpenAI \<Rightarrow> Message list \<Rightarrow> llm_tool list \<Rightarrow> chat_request" where
  "chat_request_of o1 msgs tools =
     \<lparr>cr_model = oa_model o1, cr_messages = map (\<lambda>m. (m_role m, m_content m)) msgs,
      cr_tools = map (\<lambda>t. (lt_name t, lt_description t, GenerateParametersSchema (lt_parameters t))) tools,
      cr_tool_choice = (if tools = [] then '''' else ''auto'')\<rparr>"

text \<open>
  The library answers an error or the choices, each its content and tool calls. \<open>None\<close>
  is the panic of \<open>Choices[0]\<close> on a response without choices.
\<close>

definition openai_invoke ::
  "(OpenAI \<Rightarrow> chat_request \<Rightarrow> 'w \<Rightarrow> (string + (string \<times> ToolCall list) list) \<times> 'w) \<Rightarrow> OpenAI \<Rightarrow>
   Message list \<Rightarrow> llm_tool list \<Rightarrow> 'w \<Rightarrow> (string + (string \<times> ToolCall list)) option \<times> 'w" where
  "openai_invoke create o1 msgs tools w =
     (case create o1 (chat_request_of o1 msgs tools) w of
        (Inl e, w1) \<Rightarrow> (Some (Inl e), w1)
      | (Inr [], w1) \<Rightarrow> (None, w1)
      | (Inr ((content, calls) # _), w1) \<Rightarrow>
          (Some (Inr (if calls \<noteq> [] then ('''', calls) else (content, []))), w1))"

definition NewGroq :: "string \<Rightarrow> string \<Rightarrow> string \<Rightarrow> OpenAI" where
  "NewGroq apiKey model baseURL =
     NewWithBaseURL apiKey model (if trim_space baseURL = '''' then ''https://api.groq.com/openai/v1'' else baseURL)"

definition NewOllama :: "string \<Rightarrow> string \<Rightarrow> OpenAI" where
  "NewOllama model baseURL =
     NewWithBaseURL ''ollama'' model (if trim_space baseURL = '''' then ''http://localhost:11434/v1'' else baseURL)"

text \<open>\<open>Groq\<close> and \<open>Ollama\<close> hold such a client and hand every call on to it.\<close>

definition groq_invoke ::
  "(OpenAI \<Rightarrow> chat_request \<Rightarrow> 'w \<Rightarrow> (string + (string \<times> ToolCall list) list) \<times> 'w) \<Rightarrow> OpenAI \<Rightarrow>
   Message list \<Rightarrow> llm_tool list \<Rightarrow> 'w \<Rightarrow> (string + (string \<times> ToolCall list)) option \<times> 'w" where
  "groq_invoke create inner messages tools w = openai_invoke create inner messages tools w"

definition ollama_invoke ::
  "(OpenAI \<Rightarrow> chat_request \<Rightarrow> 'w \<Rightarrow> (string + (string \<times> ToolCall list) list) \<times> 'w) \<Rightarrow> OpenAI \<Rightarrow>
   Message list \<Rightarrow> llm_tool list \<Rightarrow> 'w \<Rightarrow> (string + (string \<times> ToolCall list)) option \<times> 'w" where
  "ollama_invoke create inner messages tools w = openai_invoke create inner messages tools w"

end
