(* ===== verification/Adapter_Claims.thy ===== *)
theory Adapter_Claims
  imports Model_Adapters
begin

text \<open>
  The properties of the model adapters: what the agent writes as a tool message reaches the
  model as the tool's result, what blocks a request can hold, and that an answer is either
  tool calls or a text.
\<close>

section \<open>Tool messages\<close>







lemma trim_space_Nil [simp]: "trim_space '''' = ''''"
  by (simp add: trim_space_def)





section \<open>Requests\<close>

definition turn_ok :: "string \<times> gval list \<Rightarrow> bool" where
  "turn_ok turn =
     (case turn of (role, content) \<Rightarrow>
        (\<exists>s. content = [text_block s]) \<or>
        (role = ''user'' \<and> (\<exists>i s. content = [GObj [(''type'', GStr ''tool_result''), (''tool_use_id'', GStr i),
            (''content'', GSlice ''[]map[string]interface {}'' [text_block s])]])))"

lemma add_request_turns:
  "list_all turn_ok (snd acc) \<Longrightarrow> list_all turn_ok (snd (add_request_message ff pf acc m))"
  by (auto simp: add_request_message_def parseToolResultBlock_def turn_ok_def Let_def
      split: prod.splits option.splits gval.splits)

text \<open>
  C38: no request to Anthropic says which calls the model made: every turn is one block, a text,
  or, for a user turn, the result of a call by its id; there is no \<open>tool_use\<close> block, so every
  result refers to a call the conversation does not contain.
\<close>

theorem anthropic_requests_omit_tool_use:
  "list_all turn_ok (snd (request_messages ff pf messages))"
proof -
  have "list_all turn_ok (snd acc) \<Longrightarrow> list_all turn_ok (snd (foldl (add_request_message ff pf) acc messages))" for acc
    by (induction messages arbitrary: acc) (simp_all add: add_request_turns)
  then show ?thesis by (simp add: request_messages_def)
qed

section \<open>Answers\<close>

definition one_answer :: "string + (string \<times> ToolCall list) \<Rightarrow> bool" where
  "one_answer res = (case res of Inl e \<Rightarrow> True | Inr (content, calls) \<Rightarrow> content = '''' \<or> calls = [])"

text \<open>
  An adapter's answer is an error, tool calls without a text, or a text without tool calls:
  a text that comes along with tool calls is dropped.
\<close>

theorem adapters_answer_one_way:
  "one_answer (fst (anthropic_invoke ul ff pf url_err derr merr send a messages tools w)) \<and>
   (case fst (openai_invoke create o1 messages tools w) of None \<Rightarrow> True | Some res \<Rightarrow> one_answer res)"
proof
  show "one_answer (fst (anthropic_invoke ul ff pf url_err derr merr send a messages tools w))"
    by (simp add: anthropic_invoke_def one_answer_def answer_of_blocks_def Let_def
        split: option.splits prod.splits http_result.splits)
  show "case fst (openai_invoke create o1 messages tools w) of None \<Rightarrow> True | Some res \<Rightarrow> one_answer res"
    by (auto simp: openai_invoke_def one_answer_def split: prod.splits sum.splits list.splits)
qed

end
