(* ===== verification/Audit_Log.thy ===== *)
theory Audit_Log
  imports Checkpointer Json_Structs
begin

text \<open>
  \<open>agent/hitl_audit.go\<close>: the audit log of human approvals, a file of one JSON entry per
  line, each with the hash of the entry before it; appending an entry, and verifying a file.

  Parameters (\<open>audit_env\<close>): the hex digest of SHA-256, the two time formats and the time
  parser, the float conversions, the Unicode case table. \<open>now\<close> is the clock.
\<close>

record audit_env =
  au_hash :: "string \<Rightarrow> string"        \<comment> \<open>\<open>fmt.Sprintf("%x", sha256.Sum256 _)\<close>\<close>
  au_utc :: "int \<Rightarrow> string"            \<comment> \<open>\<open>UTC().Format(time.RFC3339Nano)\<close>\<close>
  au_time :: "int \<Rightarrow> string"           \<comment> \<open>the text of \<open>Time.MarshalJSON\<close>\<close>
  au_parse_time :: "string \<Rightarrow> int option"
  au_ff :: fmt_float
  au_pf :: parse_float
  au_ul :: "string \<Rightarrow> string"

section \<open>Entries as JSON\<close>

definition opt_bool :: "string \<Rightarrow> bool \<Rightarrow> (string \<times> gval) list" where
  "opt_bool k b = (if b then [(k, GBool True)] else [])"

definition opt_any :: "string \<Rightarrow> gval \<Rightarrow> (string \<times> gval) list" where
  "opt_any k v = (if v = GNil then [] else [(k, v)])"

text \<open>The fields between the timestamp and the hash, as both structs list them.\<close>

definition entry_fields :: "HITLAuditEntry \<Rightarrow> (string \<times> gval) list" where
  "entry_fields e =
     [(''event'', GStr (ha_event e))] @ opt_str ''tool'' (ha_tool e) @ opt_str ''tool_call_id'' (ha_call_id e)
     @ opt_str ''thread_id'' (ha_thread e) @ opt_str ''request_id'' (ha_request e)
     @ opt_int ''iteration'' (ha_iteration e) @ opt_any ''arguments'' (ha_arguments e)
     @ opt_str ''args_hash'' (ha_args_hash e) @ opt_str ''decision'' (ha_decision e)
     @ opt_bool ''approved'' (ha_approved e) @ opt_str ''error'' (ha_error e)
     @ opt_str ''prev_hash'' (ha_prev_hash e)"

definition entry_value :: "audit_env \<Rightarrow> HITLAuditEntry \<Rightarrow> gval" where
  "entry_value env e =
     GStruct ''agent.HITLAuditEntry''
       ([(''timestamp'', GStr (au_time env (ha_timestamp e)))] @ entry_fields e @ opt_str ''hash'' (ha_hash e))"

definition hash_payload :: "audit_env \<Rightarrow> HITLAuditEntry \<Rightarrow> gval" where
  "hash_payload env e =
     GStruct ''struct'' ([(''timestamp'', GStr (au_utc env (ha_timestamp e)))] @ entry_fields e)"

text \<open>The marshal error is dropped: the hash is then that of the empty text.\<close>

definition payload_text :: "audit_env \<Rightarrow> HITLAuditEntry \<Rightarrow> string" where
  "payload_text env e =
     (case json_marshal (au_ff env) (hash_payload env e) of Some b \<Rightarrow> b | None \<Rightarrow> '''')"

definition computeHITLAuditHash :: "audit_env \<Rightarrow> HITLAuditEntry \<Rightarrow> string" where
  "computeHITLAuditHash env e = au_hash env (payload_text env e)"

text \<open>Decoding a JSON object into a struct, key by key; \<open>set_field\<close> decodes one.\<close>

fun decode_fields :: "(string \<Rightarrow> json \<Rightarrow> 'a \<Rightarrow> 'a option) \<Rightarrow> (string \<times> json) list \<Rightarrow> 'a \<Rightarrow> 'a option" where
  "decode_fields f [] e = Some e"
| "decode_fields f ((k, v) # kvs) e = Option.bind (f k v e) (decode_fields f kvs)"

definition decode_bool :: "bool \<Rightarrow> json \<Rightarrow> bool option" where
  "decode_bool old v = (case v of JBool b \<Rightarrow> Some b | JNull \<Rightarrow> Some old | _ \<Rightarrow> None)"

definition decode_time :: "audit_env \<Rightarrow> int \<Rightarrow> json \<Rightarrow> int option" where
  "decode_time env old v = (case v of JStr s \<Rightarrow> au_parse_time env s | JNull \<Rightarrow> Some old | _ \<Rightarrow> None)"

definition decode_any :: "parse_float \<Rightarrow> json \<Rightarrow> gval option" where
  "decode_any pf v = (if in_range pf v then Some (any_of pf v) else None)"

definition set_field :: "audit_env \<Rightarrow> string \<Rightarrow> json \<Rightarrow> HITLAuditEntry \<Rightarrow> HITLAuditEntry option" where
  "set_field env k v e =
     (let is = (\<lambda>n. key_matches (au_ul env) n k) in
      if is ''timestamp'' then map_option (\<lambda>x. e\<lparr>ha_timestamp := x\<rparr>) (decode_time env (ha_timestamp e) v)
      else if is ''event'' then map_option (\<lambda>x. e\<lparr>ha_event := x\<rparr>) (decode_string (ha_event e) v)
      else if is ''tool'' then map_option (\<lambda>x. e\<lparr>ha_tool := x\<rparr>) (decode_string (ha_tool e) v)
      else if is ''tool_call_id'' then map_option (\<lambda>x. e\<lparr>ha_call_id := x\<rparr>) (decode_string (ha_call_id e) v)
      else if is ''thread_id'' then map_option (\<lambda>x. e\<lparr>ha_thread := x\<rparr>) (decode_string (ha_thread e) v)
      else if is ''request_id'' then map_option (\<lambda>x. e\<lparr>ha_request := x\<rparr>) (decode_string (ha_request e) v)
      else if is ''iteration'' then map_option (\<lambda>x. e\<lparr>ha_iteration := x\<rparr>) (decode_int (ha_iteration e) v)
      else if is ''arguments'' then map_option (\<lambda>x. e\<lparr>ha_arguments := x\<rparr>) (decode_any (au_pf env) v)
      else if is ''args_hash'' then map_option (\<lambda>x. e\<lparr>ha_args_hash := x\<rparr>) (decode_string (ha_args_hash e) v)
      else if is ''decision'' then map_option (\<lambda>x. e\<lparr>ha_decision := x\<rparr>) (decode_string (ha_decision e) v)
      else if is ''approved'' then map_option (\<lambda>x. e\<lparr>ha_approved := x\<rparr>) (decode_bool (ha_approved e) v)
      else if is ''error'' then map_option (\<lambda>x. e\<lparr>ha_error := x\<rparr>) (decode_string (ha_error e) v)
      else if is ''prev_hash'' then map_option (\<lambda>x. e\<lparr>ha_prev_hash := x\<rparr>) (decode_string (ha_prev_hash e) v)
      else if is ''hash'' then map_option (\<lambda>x. e\<lparr>ha_hash := x\<rparr>) (decode_string (ha_hash e) v)
      else Some e)"

definition unmarshal_entry :: "audit_env \<Rightarrow> string \<Rightarrow> HITLAuditEntry option" where
  "unmarshal_entry env text =
     (case parse_json text of
        Some (JObj kvs) \<Rightarrow> decode_fields (set_field env) kvs blank_entry
      | Some JNull \<Rightarrow> Some blank_entry
      | _ \<Rightarrow> None)"

section \<open>Reading lines\<close>

text \<open>
  \<open>bufio.Scanner\<close> with its default buffer: the lines without their line feed and one
  carriage return; a line of 65536 bytes or more stops the scan with an error.
\<close>

definition max_token :: int where "max_token = 65536"

definition drop_cr :: "string \<Rightarrow> string" where
  "drop_cr l = (if l \<noteq> [] \<and> last l = CHR 0x0D then butlast l else l)"

definition raw_lines :: "string \<Rightarrow> string list" where
  "raw_lines data = (let ls = split_on (CHR 0x0A) data in if last ls = [] then butlast ls else ls)"

definition scan_lines :: "string \<Rightarrow> string list" where
  "scan_lines data = map drop_cr (takeWhile (\<lambda>l. int (length l) < max_token) (raw_lines data))"

definition scan_error :: "string \<Rightarrow> gerr option" where
  "scan_error data =
     (if list_all (\<lambda>l. int (length l) < max_token) (raw_lines data) then None
      else Some (ErrMsg ''bufio.Scanner: token too long'' []))"

section \<open>\<open>FileHITLAuditLogger\<close>\<close>

record audit_logger =
  al_path :: string
  al_loaded :: bool
  al_last_hash :: string

definition parent_dir :: "string \<Rightarrow> string" where
  "parent_dir path = clean (rev (dropWhile (\<lambda>c. c \<noteq> CHR ''/'') (rev path)))"

definition NewFileHITLAuditLogger :: "string \<Rightarrow> os_state \<Rightarrow> audit_logger res \<times> os_state" where
  "NewFileHITLAuditLogger path s =
     (let lg = \<lparr>al_path = path, al_loaded = False, al_last_hash = ''''\<rparr>; dir = parent_dir path
      in if dir \<noteq> '''' \<and> dir \<noteq> ''.''
         then (case os_mkdir_all dir s of (Inl e, t) \<Rightarrow> (Inl e, t) | (Inr _, t) \<Rightarrow> (Inr lg, t))
         else (Inr lg, s))"

text \<open>The logger remembers that it has loaded before it knows that it could.\<close>

definition loadLastHashLocked :: "audit_env \<Rightarrow> audit_logger \<Rightarrow> os_state \<Rightarrow> gerr option \<times> audit_logger" where
  "loadLastHashLocked env lg s =
     (if al_loaded lg then (None, lg)
      else let lg1 = lg\<lparr>al_loaded := True\<rparr> in
        case os_read_file (al_path lg) s of
          Inl e \<Rightarrow> (if is_not_exist e then None else Some e, lg1)
        | Inr data \<Rightarrow>
            (case scan_error data of
               Some e \<Rightarrow> (Some e, lg1)
             | None \<Rightarrow>
                 let lastLine = (if scan_lines data = [] then '''' else last (scan_lines data)) in
                 if lastLine = '''' then (None, lg1)
                 else (case unmarshal_entry env lastLine of
                   None \<Rightarrow> (Some json_error, lg1)
                 | Some e \<Rightarrow> (None, lg1\<lparr>al_last_hash := ha_hash e\<rparr>))))"

definition sealed_entry :: "audit_env \<Rightarrow> int \<Rightarrow> string \<Rightarrow> HITLAuditEntry \<Rightarrow> HITLAuditEntry" where
  "sealed_entry env now prev entry =
     (let e1 = (if ha_timestamp entry = 0 then entry\<lparr>ha_timestamp := now\<rparr> else entry);
          e2 = e1\<lparr>ha_prev_hash := prev\<rparr>
      in e2\<lparr>ha_hash := computeHITLAuditHash env e2\<rparr>)"

definition LogHITLEvent ::
  "audit_env \<Rightarrow> int \<Rightarrow> HITLAuditEntry \<Rightarrow> audit_logger \<times> os_state \<Rightarrow> gerr option \<times> (audit_logger \<times> os_state)" where
  "LogHITLEvent env now entry st =
     (case st of (lg, s) \<Rightarrow>
        (case loadLastHashLocked env lg s of
           (Some e, lg1) \<Rightarrow> (Some e, (lg1, s))
         | (None, lg1) \<Rightarrow>
             let e = sealed_entry env now (al_last_hash lg1) entry in
             (case json_marshal (au_ff env) (entry_value env e) of
                None \<Rightarrow> (Some json_error, (lg1, s))
              | Some b \<Rightarrow>
                  (case os_append_file (al_path lg1) (b @ [CHR 0x0A]) s of
                     (Inl err, t) \<Rightarrow> (Some err, (lg1, t))
                   | (Inr _, t) \<Rightarrow> (None, (lg1\<lparr>al_last_hash := ha_hash e\<rparr>, t))))))"

section \<open>Verification\<close>

definition validateHITLAuditEntryStrict :: "HITLAuditEntry \<Rightarrow> int \<Rightarrow> gerr option" where
  "validateHITLAuditEntryStrict e prevTS =
     (let ev = ha_event e;
          call = (ev = ''hitl_request'' \<or> ev = ''hitl_decision'')
      in if ev = '''' then Some (ErrMsg ''event is required'' [])
         else if ha_timestamp e = 0 then Some (ErrMsg ''timestamp is required'' [])
         else if prevTS \<noteq> 0 \<and> ha_timestamp e < prevTS then Some (ErrMsg ''timestamp is not monotonic'' [])
         else if call \<and> ha_tool e = '''' then Some (ErrMsg ''tool is required for %s'' [ev])
         else if call \<and> ha_call_id e = '''' then Some (ErrMsg ''tool_call_id is required for %s'' [ev])
         else if call \<and> ha_thread e = '''' then Some (ErrMsg ''thread_id is required for %s'' [ev])
         else if call \<and> ha_request e = '''' then Some (ErrMsg ''request_id is required for %s'' [ev])
         else if call \<and> ha_iteration e \<le> 0 then Some (ErrMsg ''iteration must be > 0 for %s'' [ev])
         else if ev = ''hitl_decision'' \<and> ha_decision e = ''''
         then Some (ErrMsg ''decision is required for hitl_decision'' [])
         else None)"

text \<open>The hash is recomputed over a copy of the entry without its hash.\<close>

fun verify_lines :: "audit_env \<Rightarrow> bool \<Rightarrow> nat \<Rightarrow> string \<Rightarrow> int \<Rightarrow> string list \<Rightarrow> gerr option" where
  "verify_lines env strict line prevHash prevTS [] = None"
| "verify_lines env strict line prevHash prevTS (text # ls) =
     (let n = itoa (Suc line) in
      if text = '''' then verify_lines env strict (Suc line) prevHash prevTS ls
      else (case unmarshal_entry env text of
         None \<Rightarrow> Some (ErrWrap ''invalid json on line %d: %w'' json_error [n])
       | Some e \<Rightarrow>
           if ha_prev_hash e \<noteq> prevHash
           then Some (ErrMsg ''hash chain mismatch on line %d: prev_hash=%q expected=%q'' [n, ha_prev_hash e, prevHash])
           else if ha_hash e \<noteq> computeHITLAuditHash env (e\<lparr>ha_hash := ''''\<rparr>)
           then Some (ErrMsg ''entry hash mismatch on line %d'' [n])
           else (case (if strict then validateHITLAuditEntryStrict e prevTS else None) of
                   Some err \<Rightarrow> Some (ErrWrap ''strict validation failed on line %d: %w'' err [n])
                 | None \<Rightarrow> verify_lines env strict (Suc line) (ha_hash e) (ha_timestamp e) ls)))"

definition verify_data :: "audit_env \<Rightarrow> bool \<Rightarrow> string \<Rightarrow> gerr option" where
  "verify_data env strict data =
     (case verify_lines env strict 0 '''' 0 (scan_lines data) of
        Some e \<Rightarrow> Some e
      | None \<Rightarrow> scan_error data)"

definition verifyHITLAuditFileChain :: "audit_env \<Rightarrow> bool \<Rightarrow> string \<Rightarrow> os_state \<Rightarrow> gerr option" where
  "verifyHITLAuditFileChain env strict path s =
     (case os_read_file path s of Inl e \<Rightarrow> Some e | Inr data \<Rightarrow> verify_data env strict data)"

definition VerifyHITLAuditFileChain :: "audit_env \<Rightarrow> string \<Rightarrow> os_state \<Rightarrow> gerr option" where
  "VerifyHITLAuditFileChain env path s = verifyHITLAuditFileChain env False path s"

definition VerifyHITLAuditFileChainStrict :: "audit_env \<Rightarrow> string \<Rightarrow> os_state \<Rightarrow> gerr option" where
  "VerifyHITLAuditFileChainStrict env path s = verifyHITLAuditFileChain env True path s"

end
