(* ===== verification/Builtin_Tools.thy ===== *)
theory Builtin_Tools
  imports Fs_Tools Utf8
begin

text \<open>
  \<open>tools/builtin/write_todos.go\<close>, \<open>tools/builtin/skills.go\<close>, and from
  \<open>agent/subagent.go\<close> the choice of the file a subagent's result goes to.
\<close>

section \<open>\<open>write_todos\<close>\<close>

text \<open>The list is fixed: the arguments are not looked at.\<close>

definition todo :: "string \<Rightarrow> string \<Rightarrow> string \<Rightarrow> gval" where
  "todo i d st = GStruct ''builtin.Todo'' [(''id'', GStr i), (''description'', GStr d), (''status'', GStr st)]"

definition NewWriteTodosTool :: "'w tool" where
  "NewWriteTodosTool =
     NewToolWithParameters ''write_todos''
       ''Break down complex task into a trackable todo list. Return structured JSON.''
       (PMap [(''type'', GStr ''object''), (''properties'', GObj []), (''additionalProperties'', GBool True)])
       (\<lambda>as w. (Inr (GSlice ''[]builtin.Todo''
          [todo ''1'' ''Analyze task'' ''done'', todo ''2'' ''Execute subtasks'' ''pending'']), w))"

section \<open>Skills\<close>

record SkillsLoader =
  sk_dir :: string
  sk_skills :: "(string \<times> string) list"

text \<open>
  \<open>filepath.Glob(dir/*.md)\<close> on a directory without pattern characters: its entries with
  that suffix, sorted, whatever they are; a directory that cannot be read has none.
  \<open>glob\<close> stands for the other directories.
\<close>

definition pattern_chars :: string where
  "pattern_chars = ''*?['' @ [CHR 0x5C]"

definition skill_files :: "(string \<Rightarrow> os_state \<Rightarrow> string list) \<Rightarrow> string \<Rightarrow> os_state \<Rightarrow> string list" where
  "skill_files glob dir s =
     (if contains_any pattern_chars dir then glob (fjoin [dir, ''*.md'']) s
      else case os_read_dir (clean dir) s of
        Inl _ \<Rightarrow> []
      | Inr es \<Rightarrow> map (\<lambda>e. fjoin [clean dir, fst e]) (filter (\<lambda>e. has_suffix ''.md'' (fst e)) es))"

definition base_name :: "string \<Rightarrow> string" where
  "base_name path = (case clean_elems path of [] \<Rightarrow> if is_abs path then ''/'' else ''.'' | es \<Rightarrow> last es)"

text \<open>A file that cannot be read is a skill with no content.\<close>

definition load_skill_file :: "os_state \<Rightarrow> (string \<times> string) list \<Rightarrow> string \<Rightarrow> (string \<times> string) list" where
  "load_skill_file s skills f =
     AList.update (trim_suffix ''.md'' (base_name f))
       (case os_read_file f s of Inr content \<Rightarrow> content | Inl _ \<Rightarrow> '''') skills"

definition loadAll :: "(string \<Rightarrow> os_state \<Rightarrow> string list) \<Rightarrow> string \<Rightarrow> os_state \<Rightarrow> (string \<times> string) list" where
  "loadAll glob dir s = foldl (load_skill_file s) [] (skill_files glob dir s)"

definition NewSkillsLoader ::
  "(string \<Rightarrow> os_state \<Rightarrow> string list) \<Rightarrow> string \<Rightarrow> os_state \<Rightarrow> SkillsLoader \<times> os_state" where
  "NewSkillsLoader glob dir s =
     (let d = (if dir = '''' then ''./skills'' else dir); s1 = snd (os_mkdir_all d s)
      in (\<lparr>sk_dir = d, sk_skills = loadAll glob d s1\<rparr>, s1))"

definition load_skill_call :: "SkillsLoader \<Rightarrow> args option \<Rightarrow> gval res" where
  "load_skill_call loader as =
     (case arg_string (args_of as) ''name'' of
        None \<Rightarrow> Inl (ErrMsg ''skill name is required'' [])
      | Some name \<Rightarrow>
          if name = '''' then Inl (ErrMsg ''skill name is required'' [])
          else (case map_of (sk_skills loader) name of
             Some content \<Rightarrow> Inr (GObj [(''name'', GStr name), (''content'', GStr content)])
           | None \<Rightarrow> Inl (ErrMsg ''skill %s not found'' [name])))"

definition NewLoadSkillsTool :: "(string \<Rightarrow> string) \<Rightarrow> SkillsLoader \<Rightarrow> 'w tool" where
  "NewLoadSkillsTool q loader =
     NewToolWithParameters ''load_skill'' ''Load a skill from the skills directory by name.''
       (string_schema [''name''] [''name'']) (\<lambda>as w. of_res q (load_skill_call loader as, w))"

text \<open>Go enumerates the map in any order; here it is the order of the association list.\<close>

definition GetAllSkillsContext :: "SkillsLoader \<Rightarrow> string" where
  "GetAllSkillsContext loader =
     concat (map (\<lambda>(name, content). ''=== Skill: '' @ name @ '' ==='' @ [CHR 0x0A] @ content @ [CHR 0x0A, CHR 0x0A])
       (sk_skills loader))"

section \<open>The file of a subagent's result\<close>

text \<open>
  \<open>letter r\<close> is \<open>unicode.IsLetter(r) || unicode.IsNumber(r)\<close> beyond ASCII, where a
  letter is dropped and anything else becomes a dash.
\<close>

fun slug_runes :: "(nat \<Rightarrow> bool) \<Rightarrow> bool \<Rightarrow> nat list \<Rightarrow> string" where
  "slug_runes letter lastDash [] = []"
| "slug_runes letter lastDash (r # rs) =
     (if r < 128 \<and> is_alnum (char_of r) then char_of r # slug_runes letter False rs
      else if 128 \<le> r \<and> letter r then slug_runes letter lastDash rs
      else if \<not> lastDash then CHR ''-'' # slug_runes letter True rs
      else slug_runes letter lastDash rs)"

definition slugify :: "(string \<Rightarrow> string) \<Rightarrow> (nat \<Rightarrow> bool) \<Rightarrow> string \<Rightarrow> string" where
  "slugify ul letter s =
     (let t = trim_space (to_lower ul s)
      in if t = '''' then '''' else trim_char (CHR ''-'') (slug_runes letter False (runes_of t)))"

definition slug_base :: "(string \<Rightarrow> string) \<Rightarrow> (nat \<Rightarrow> bool) \<Rightarrow> string \<Rightarrow> string" where
  "slug_base ul letter description =
     (let base = slugify ul letter description;
          base1 = (if base = '''' then ''task'' else base)
      in if length base1 > 40 then trim_char (CHR ''-'') (take 40 base1) else base1)"

text \<open>The numbered names that are tried after the plain one.\<close>

definition numbered :: "string \<Rightarrow> nat \<Rightarrow> string" where
  "numbered base i = ''subagent_'' @ base @ ''_'' @ itoa i @ ''.md''"

definition nextSubagentResultFile ::
  "(string \<Rightarrow> string) \<Rightarrow> (nat \<Rightarrow> bool) \<Rightarrow> 's backend \<Rightarrow> string \<Rightarrow> 's \<Rightarrow> string res" where
  "nextSubagentResultFile ul letter B description s =
     (let base = slug_base ul letter description in
      case be_list B ''.'' s of
        Inl e \<Rightarrow> Inl e
      | Inr files \<Rightarrow>
          (let exists = (case files of None \<Rightarrow> [] | Some xs \<Rightarrow> xs);
               candidate = ''subagent_'' @ base @ ''.md''
           in if candidate \<notin> set exists then Inr candidate
              else case find (\<lambda>i. numbered base i \<notin> set exists) [2..<10000] of
                Some i \<Rightarrow> Inr (numbered base i)
              | None \<Rightarrow> Inl (ErrMsg ''failed to allocate subagent result filename for description: %q'' [description])))"

section \<open>Lemmas\<close>

definition slug_char :: "char \<Rightarrow> bool" where
  "slug_char c \<longleftrightarrow> is_alnum c \<or> c = CHR ''-''"

lemma slug_runes_chars: "list_all slug_char (slug_runes letter b rs)"
  by (induction letter b rs rule: slug_runes.induct) (auto simp: slug_char_def)

lemma trim_char_sub: "set (trim_char c s) \<subseteq> set s"
  by (auto simp: trim_char_def dest!: set_dropWhileD)

lemma slug_base_chars: "list_all slug_char (slug_base ul letter d)"
proof -
  have sl: "list_all slug_char (slugify ul letter d)"
    using slug_runes_chars trim_char_sub by (fastforce simp: slugify_def Let_def list_all_iff)
  have "list_all slug_char ''task''" by (simp add: slug_char_def is_alnum_def is_lower_def)
  then have b: "list_all slug_char (if slugify ul letter d = '''' then ''task'' else slugify ul letter d)"
    using sl by simp
  have "list_all slug_char (trim_char (CHR ''-'') (take 40 s))" if "list_all slug_char s" for s
    using that trim_char_sub [of "CHR ''-''" "take 40 s"] set_take_subset [of 40 s] by (auto simp: list_all_iff)
  with b show ?thesis by (simp add: slug_base_def Let_def)
qed

lemma trim_char_length: "length (trim_char c s) \<le> length s"
  unfolding trim_char_def by (metis length_rev length_dropWhile_le le_trans)

lemma slug_base_length: "length (slug_base ul letter d) \<le> 40"
  using trim_char_length [of "CHR ''-''" "take 40 (slugify ul letter d)"] by (auto simp: slug_base_def Let_def)

text \<open>Only a listing with every one of the 9,999 names leaves no name free.\<close>

lemma numbered_inj: "inj (numbered base)"
  by (auto simp: inj_def numbered_def itoa_inj)

lemma free_name:
  assumes "length xs < n - 1" "''subagent_'' @ base @ ''.md'' \<in> set xs"
  shows "find (\<lambda>i. numbered base i \<notin> set xs) [2..<n] \<noteq> None"
proof
  assume "find (\<lambda>i. numbered base i \<notin> set xs) [2..<n] = None"
  then have sub: "numbered base ` {2..<n} \<subseteq> set xs" by (auto simp: find_None_iff)
  have "''subagent_'' @ base @ ''.md'' \<notin> numbered base ` {2..<n}" by (auto simp: numbered_def)
  moreover have "card (numbered base ` {2..<n}) = n - 2"
    by (simp add: card_image inj_on_subset [OF numbered_inj])
  ultimately have "card (insert (''subagent_'' @ base @ ''.md'') (numbered base ` {2..<n})) = Suc (n - 2)" by simp
  moreover have "insert (''subagent_'' @ base @ ''.md'') (numbered base ` {2..<n}) \<subseteq> set xs"
    using sub assms(2) by simp
  ultimately have "Suc (n - 2) \<le> card (set xs)" by (metis card_mono List.finite_set)
  with card_length [of xs] assms(1) show False by linarith
qed

end
