(* ===== verification/Agent.thy ===== *)
theory Agent
  imports Audit_Log Model_Adapters Sandbox Builtin_Tools
begin

text \<open>
  \<open>agent/deepagent.go\<close>, \<open>agent/options.go\<close> and the task tool of
  \<open>agent/subagent.go\<close>: choosing a model client, filling in the defaults, registering the
  tools, and agents that run inside a tool call of another agent.

  The world holds what agents share: the file system, the in-memory backends and the audit
  loggers that were made (an object is an index into a list), and a rest \<open>'b\<close> of the model's
  and the tools' own.
\<close>

section \<open>The world\<close>

record 'b world =
  w_os :: os_state
  w_mems :: "InMemoryBackend list"
  w_logs :: "audit_logger list"
  w_rest :: 'b

definition on_os :: "(os_state \<Rightarrow> 'a \<times> os_state) \<Rightarrow> 'b world \<Rightarrow> 'a \<times> 'b world" where
  "on_os f w = (case f (w_os w) of (r, s) \<Rightarrow> (r, w\<lparr>w_os := s\<rparr>))"

definition on_mem :: "nat \<Rightarrow> (InMemoryBackend \<Rightarrow> 'a \<times> InMemoryBackend) \<Rightarrow> 'b world \<Rightarrow> 'a \<times> 'b world" where
  "on_mem i f w = (case f (w_mems w ! i) of (r, b) \<Rightarrow> (r, w\<lparr>w_mems := (w_mems w)[i := b]\<rparr>))"

text \<open>The in-memory backend at an index, and making one.\<close>

definition mem_backend :: "nat \<Rightarrow> 'b world backend" where
  "mem_backend i =
     \<lparr>be_list = (\<lambda>p w. be_list inmem_backend p (w_mems w ! i)), be_read = (\<lambda>p w. be_read inmem_backend p (w_mems w ! i)),
      be_write = (\<lambda>p c. on_mem i (be_write inmem_backend p c)),
      be_edit = (\<lambda>p c. on_mem i (be_edit inmem_backend p c))\<rparr>"

definition new_mem :: "'b world \<Rightarrow> 'b world backend \<times> 'b world" where
  "new_mem w = (mem_backend (length (w_mems w)), w\<lparr>w_mems := w_mems w @ [NewInMemoryBackend]\<rparr>)"

text \<open>The audit logger at an index; \<open>clock\<close> reads the time.\<close>

definition log_event ::
  "(string \<Rightarrow> string) \<Rightarrow> audit_env \<Rightarrow> ('b world \<Rightarrow> int) \<Rightarrow> nat \<Rightarrow> HITLAuditEntry \<Rightarrow> 'b world \<Rightarrow> string option \<times> 'b world" where
  "log_event q env clock i entry w =
     (case LogHITLEvent env (clock w) entry (w_logs w ! i, w_os w) of
        (err, (lg, s)) \<Rightarrow> (map_option (err_text q) err, w\<lparr>w_logs := (w_logs w)[i := lg], w_os := s\<rparr>))"

section \<open>Options\<close>

type_synonym 'w llm = "Message list \<Rightarrow> llm_tool list \<Rightarrow> 'w \<Rightarrow> (string + (string \<times> ToolCall list)) \<times> 'w"

record 'w checkpoints =
  cp_load :: "string \<Rightarrow> 'w \<Rightarrow> (string + State option) \<times> 'w"
  cp_save :: "string \<Rightarrow> State \<Rightarrow> 'w \<Rightarrow> string option \<times> 'w"

text \<open>
  A backend that is a \<open>*SandboxBackend\<close> comes with its configuration, which the execute
  tool looks for. Of the memory store a graph only calls \<open>Put\<close>. The name and the logger
  are left out: no decision of the agent depends on them.
\<close>

record 'w Options =
  op_model :: string
  op_provider :: string
  op_api_key :: string
  op_base_url :: string
  op_llm :: "'w llm option"
  op_tools :: "'w tool list"
  op_prompt :: string
  op_backend :: "('w backend \<times> ExecuteConfig option) option"
  op_checkpointer :: "'w checkpoints option"
  op_memory :: "(string \<Rightarrow> string \<Rightarrow> gval \<Rightarrow> 'w \<Rightarrow> string option \<times> 'w) option"
  op_skills_dir :: string
  op_hitl :: "InterruptConfig option"
  op_approver :: "(approvalMetadata \<Rightarrow> string \<Rightarrow> string \<Rightarrow> 'w \<Rightarrow> approval \<times> 'w) option"
  op_audit :: "(HITLAuditEntry \<Rightarrow> 'w \<Rightarrow> string option \<times> 'w) option"
  op_include_args :: bool
  op_verify :: bool
  op_execute :: "ExecuteConfig option"

section \<open>Choosing a model client\<close>

datatype llm_client =
    ClientOpenAI OpenAI
  | ClientAnthropic Anthropic
  | ClientGroq OpenAI
  | ClientOllama OpenAI

definition inferProviderFromModel :: "(string \<Rightarrow> string) \<Rightarrow> string \<Rightarrow> string" where
  "inferProviderFromModel ul model =
     (let m = to_lower ul (trim_space model)
      in if prefix ''claude'' m then ''anthropic''
         else if prefix ''groq/'' m then ''groq''
         else if prefix ''ollama/'' m then ''ollama''
         else ''openai'')"

text \<open>An option, trimmed, or the environment variable, trimmed.\<close>

definition option_or_env :: "(string \<Rightarrow> string) \<Rightarrow> string \<Rightarrow> string \<Rightarrow> string" where
  "option_or_env getenv opt key =
     (let v = trim_space opt in if v = '''' then trim_space (getenv key) else v)"

definition chosen_provider :: "(string \<Rightarrow> string) \<Rightarrow> (string \<Rightarrow> string) \<Rightarrow> 'w Options \<Rightarrow> string \<Rightarrow> string" where
  "chosen_provider ul getenv opts model =
     (let p = to_lower ul (trim_space (op_provider opts));
          p1 = (if p = '''' then to_lower ul (trim_space (getenv ''DEEPAGENT_PROVIDER'')) else p)
      in if p1 = '''' then inferProviderFromModel ul model else p1)"

definition buildDefaultLLM :: "(string \<Rightarrow> string) \<Rightarrow> (string \<Rightarrow> string) \<Rightarrow> 'w Options \<Rightarrow> llm_client res" where
  "buildDefaultLLM ul getenv opts =
     (let model = (if trim_space (op_model opts) = '''' then ''gpt-4o'' else trim_space (op_model opts));
          provider = chosen_provider ul getenv opts model;
          key = (\<lambda>k. option_or_env getenv (op_api_key opts) k);
          url = (\<lambda>k. option_or_env getenv (op_base_url opts) k)
      in if provider = '''' \<or> provider = ''openai'' then
           (let apiKey = key ''OPENAI_API_KEY''; baseURL = url ''OPENAI_BASE_URL''
            in if apiKey = '''' then Inl (ErrMsg ''OPENAI_API_KEY is required when provider is openai'' [])
               else Inr (ClientOpenAI (if baseURL \<noteq> '''' then NewWithBaseURL apiKey model baseURL
                                       else NewOpenAI apiKey model)))
         else if provider = ''anthropic'' then
           (let apiKey = key ''ANTHROPIC_API_KEY''
            in if apiKey = '''' then Inl (ErrMsg ''ANTHROPIC_API_KEY is required when provider is anthropic'' [])
               else Inr (ClientAnthropic (NewAnthropic apiKey model (url ''ANTHROPIC_BASE_URL''))))
         else if provider = ''groq'' then
           (let apiKey = key ''GROQ_API_KEY''
            in if apiKey = '''' then Inl (ErrMsg ''GROQ_API_KEY is required when provider is groq'' [])
               else Inr (ClientGroq (NewGroq apiKey model (url ''GROQ_BASE_URL''))))
         else if provider = ''ollama'' then Inr (ClientOllama (NewOllama model (url ''OLLAMA_BASE_URL'')))
         else Inl (ErrMsg ''unsupported provider: %s (expected one of openai, anthropic, groq, ollama)'' [provider]))"

section \<open>Creating an agent\<close>

text \<open>
  What an agent's construction takes from outside: the environment variables, the behaviour of
  a client (\<open>anthropic_invoke\<close> or \<open>openai_invoke\<close> over the libraries), the clocks,
  and the functions of the standard library that are parameters elsewhere.
\<close>

record 'b agent_env =
  ev_getenv :: "string \<Rightarrow> string"
  ev_ul :: "string \<Rightarrow> string"
  ev_client :: "llm_client \<Rightarrow> 'b world llm"
  ev_audit :: audit_env
  ev_now :: "'b world \<Rightarrow> int"
  ev_nano :: "'b world \<Rightarrow> nat"
  ev_quote :: "string \<Rightarrow> string"
  ev_marshal_error :: "gval \<Rightarrow> string"
  ev_glob :: "string \<Rightarrow> os_state \<Rightarrow> string list"
  ev_letter :: "nat \<Rightarrow> bool"
  ev_duration :: "string \<Rightarrow> int option"
  ev_os :: "'b world os_env"
  ev_console :: "'b world \<Rightarrow> console_input \<times> 'b world"

text \<open>\<open>strings.EqualFold(strings.TrimSpace(v), "true")\<close>: no other letter folds to these.\<close>

definition env_true :: "(string \<Rightarrow> string) \<Rightarrow> string \<Rightarrow> bool" where
  "env_true getenv key = (map ascii_lower (trim_space (getenv key)) = ''true'')"

definition default_llm ::
  "'b agent_env \<Rightarrow> 'b world Options \<Rightarrow> 'b world llm res" where
  "default_llm env opts =
     (case op_llm opts of
        Some llm \<Rightarrow> Inr llm
      | None \<Rightarrow> map_sum id (ev_client env) (buildDefaultLLM (ev_ul env) (ev_getenv env) opts))"

definition default_backend ::
  "'b world Options \<Rightarrow> 'b world \<Rightarrow> ('b world backend \<times> ExecuteConfig option) \<times> 'b world" where
  "default_backend opts w =
     (case op_backend opts of
        Some b \<Rightarrow> (b, w)
      | None \<Rightarrow> (case new_mem w of (b, w1) \<Rightarrow> ((b, None), w1)))"

definition file_checkpoints :: "'b agent_env \<Rightarrow> string \<Rightarrow> 'b world checkpoints" where
  "file_checkpoints env dir =
     \<lparr>cp_load = (\<lambda>tid w. (map_sum (err_text (ev_quote env)) id
         (fc_load (ev_ul env) (au_pf (ev_audit env)) dir tid (w_os w)), w)),
      cp_save = (\<lambda>tid st w. case on_os (fc_save (au_ff (ev_audit env)) dir tid st) w of
         (Inl e, w1) \<Rightarrow> (Some (err_text (ev_quote env) e), w1) | (Inr _, w1) \<Rightarrow> (None, w1))\<rparr>"

definition default_checkpointer :: "'b agent_env \<Rightarrow> 'b world Options \<Rightarrow> 'b world \<Rightarrow> 'b world checkpoints \<times> 'b world" where
  "default_checkpointer env opts w =
     (case op_checkpointer opts of
        Some c \<Rightarrow> (c, w)
      | None \<Rightarrow> (case on_os (NewFileCheckpointer '''') w of (dir, w1) \<Rightarrow> (file_checkpoints env dir, w1)))"

definition file_memory_put :: "'b agent_env \<Rightarrow> string \<Rightarrow> string \<Rightarrow> string \<Rightarrow> gval \<Rightarrow> 'b world \<Rightarrow> string option \<times> 'b world" where
  "file_memory_put env dir ns k v w =
     (case on_os (fms_put (au_ff (ev_audit env)) dir ns k v) w of
        (Inl e, w1) \<Rightarrow> (Some (err_text (ev_quote env) e), w1) | (Inr _, w1) \<Rightarrow> (None, w1))"

definition default_memory ::
  "'b agent_env \<Rightarrow> 'b world Options \<Rightarrow> 'b world \<Rightarrow>
   (string \<Rightarrow> string \<Rightarrow> gval \<Rightarrow> 'b world \<Rightarrow> string option \<times> 'b world) \<times> 'b world" where
  "default_memory env opts w =
     (case op_memory opts of
        Some m \<Rightarrow> (m, w)
      | None \<Rightarrow> (case on_os (NewFileMemoryStore '''') w of (dir, w1) \<Rightarrow> (file_memory_put env dir, w1)))"

text \<open>The audit logger: the given one, or one for the file of the environment, verified first on demand.\<close>

definition make_audit_logger ::
  "'b agent_env \<Rightarrow> string \<Rightarrow> 'b world \<Rightarrow> (HITLAuditEntry \<Rightarrow> 'b world \<Rightarrow> string option \<times> 'b world) option res \<times> 'b world" where
  "make_audit_logger env path w =
     (case on_os (NewFileHITLAuditLogger path) w of
        (Inl e, w1) \<Rightarrow> (Inl (ErrWrap ''failed to initialize hitl audit logger: %w'' e []), w1)
      | (Inr lg, w1) \<Rightarrow>
          (Inr (Some (log_event (ev_quote env) (ev_audit env) (ev_now env) (length (w_logs w1)))),
           w1\<lparr>w_logs := w_logs w1 @ [lg]\<rparr>))"

definition default_audit ::
  "'b agent_env \<Rightarrow> 'b world Options \<Rightarrow> 'b world \<Rightarrow>
   (HITLAuditEntry \<Rightarrow> 'b world \<Rightarrow> string option \<times> 'b world) option res \<times> 'b world" where
  "default_audit env opts w =
     (let verify = op_verify opts \<or> env_true (ev_getenv env) ''DEEPAGENT_HITL_AUDIT_VERIFY_ON_START'';
          path = trim_space (ev_getenv env ''DEEPAGENT_HITL_AUDIT_FILE'')
      in case op_audit opts of
           Some lg \<Rightarrow> (Inr (Some lg), w)
         | None \<Rightarrow>
             if path = [] then (Inr None, w)
             else (case (if verify then VerifyHITLAuditFileChain (ev_audit env) path (w_os w) else None) of
                 None \<Rightarrow> make_audit_logger env path w
               | Some err \<Rightarrow>
                   if is_not_exist err then make_audit_logger env path w
                   else (Inl (ErrWrap ''hitl audit chain verification failed: %w'' err []), w)))"

text \<open>
  The execute tool of an agent: the given configuration, the sandbox's, or the default one. (A
  given configuration also replaces that of the sandbox object, for agents made later.)
\<close>

definition execute_config :: "'b agent_env \<Rightarrow> ExecuteConfig option \<Rightarrow> ExecuteConfig option \<Rightarrow> ExecuteConfig" where
  "execute_config env sandbox cfg =
     (case cfg of
        Some c \<Rightarrow> c
      | None \<Rightarrow> (case sandbox of
          Some c \<Rightarrow> c
        | None \<Rightarrow> DefaultExecuteConfig (ev_ul env) (ev_duration env) (ev_getenv env)))"

definition agent_execute_tool :: "'b agent_env \<Rightarrow> ExecuteConfig \<Rightarrow> 'b world tool" where
  "agent_execute_tool env cfg =
     (let t = NewExecuteToolWithConfig (ev_quote env) (ev_os env) cfg
      in NewToolWithParameters (t_name t) (t_description t) (t_parameters t)
           (\<lambda>as w. case t_call t as ([], w) of (res, (cmds, w1)) \<Rightarrow> (res, w1)))"

text \<open>The console approver reads a line from the console.\<close>

definition agent_approver ::
  "'b agent_env \<Rightarrow> 'b world Options \<Rightarrow> approvalMetadata \<Rightarrow> string \<Rightarrow> string \<Rightarrow> 'b world \<Rightarrow> approval \<times> 'b world" where
  "agent_approver env opts =
     (case op_approver opts of
        Some a \<Rightarrow> a
      | None \<Rightarrow> (\<lambda>meta tool args w. case ev_console env w of (inp, w1) \<Rightarrow> (consoleApprover (ev_ul env) inp, w1)))"

text \<open>
  The tools, in the order they are registered. \<open>task\<close> makes the task tool from the options
  with the defaults filled in.
\<close>

definition agent_tools ::
  "'b agent_env \<Rightarrow> 'b world tool \<Rightarrow> 'b world Options \<Rightarrow> 'b world backend \<Rightarrow> ExecuteConfig option \<Rightarrow> SkillsLoader \<Rightarrow>
     'b world tool list" where
  "agent_tools env task opts B sandbox skills =
     op_tools opts
     @ [NewWriteTodosTool, task, NewLSTool (ev_quote env) B, NewReadFileTool (ev_quote env) B,
        NewWriteFileTool (ev_quote env) B, NewEditFileTool (ev_quote env) B,
        NewLoadSkillsTool (ev_quote env) skills,
        agent_execute_tool env (execute_config env sandbox (op_execute opts))]"

text \<open>
  The graph, with its tools by name and no audit logger. The functions of the standard library a
  graph calls come from the environment; the choice of a default logger is \<open>graph_logger\<close>.
\<close>

definition buildGraph ::
  "'b agent_env \<Rightarrow> 'b world llm \<Rightarrow> 'b world tool list \<Rightarrow> string \<Rightarrow> 'b world checkpoints \<Rightarrow>
   (string \<Rightarrow> string \<Rightarrow> gval \<Rightarrow> 'b world \<Rightarrow> string option \<times> 'b world) \<Rightarrow> InterruptConfig \<Rightarrow>
   (approvalMetadata \<Rightarrow> string \<Rightarrow> string \<Rightarrow> 'b world \<Rightarrow> approval \<times> 'b world) \<Rightarrow> 'b world graph" where
  "buildGraph env llm toolList prompt cp mem hitl approver =
     \<lparr>g_llm = llm, g_tools = tool_map toolList, g_prompt = prompt, g_load = cp_load cp, g_save = cp_save cp,
      g_put = mem, g_hitl = hitl, g_approver = approver, g_audit = None, g_include_args = False,
      g_sink = False, g_hash = au_hash (ev_audit env), g_quote = ev_quote env,
      g_fmt = au_ff (ev_audit env), g_parse = au_pf (ev_audit env), g_marshal_error = ev_marshal_error env\<rparr>"

definition CreateDeepAgent ::
  "('b world Options \<Rightarrow> 'b world tool) \<Rightarrow> 'b agent_env \<Rightarrow> 'b world Options \<Rightarrow> 'b world \<Rightarrow>
     'b world graph res \<times> 'b world" where
  "CreateDeepAgent task env opts w =
     (case default_llm env opts of
        Inl e \<Rightarrow> (Inl e, w)
      | Inr llm \<Rightarrow>
          (case default_backend opts w of (bx, w1) \<Rightarrow>
           case default_checkpointer env opts w1 of (cp, w2) \<Rightarrow>
           case default_memory env opts w2 of (mem, w3) \<Rightarrow>
           case default_audit env opts w3 of
             (Inl e, w4) \<Rightarrow> (Inl e, w4)
           | (Inr audit, w4) \<Rightarrow>
               (case on_os (NewSkillsLoader (ev_glob env) (op_skills_dir opts)) w4 of (skills, w5) \<Rightarrow>
                let hitl = NewHumanInTheLoop_config (op_hitl opts);
                    opts1 = opts\<lparr>op_llm := Some llm, op_backend := Some bx, op_checkpointer := Some cp,
                              op_memory := Some mem, op_hitl := Some hitl, op_audit := audit\<rparr>
                in (Inr ((buildGraph env llm (agent_tools env (task opts1) opts1 (fst bx) (snd bx) skills)
                       (op_prompt opts @ [CHR 0x0A, CHR 0x0A] @ GetAllSkillsContext skills) cp mem hitl
                       (agent_approver env opts1))
                     \<lparr>g_audit := audit,
                      g_include_args := op_include_args opts \<or> env_true (ev_getenv env) ''DEEPAGENT_HITL_AUDIT_INCLUDE_ARGS''\<rparr>),
                    w5))))"

section \<open>The task tool\<close>

definition output_value :: "Output \<Rightarrow> gval" where
  "output_value out =
     GObj [(''messages'', GSlice ''[]agent.Message'' (map message_value (out_messages out))),
       (''final'', GStr (out_final out)), (''thread_id'', GStr (out_thread out)),
       (''request_id'', GStr (out_request out))]"

text \<open>
  \<open>invoke\<close> creates an agent from options and invokes it. The subagent gets an empty
  in-memory backend; everything else, the checkpointer among it, is its parent's.
\<close>

definition sub_options :: "'b world Options \<Rightarrow> string \<Rightarrow> 'b world \<Rightarrow> 'b world Options \<times> 'b world" where
  "sub_options parent description w =
     (case new_mem w of (b, w1) \<Rightarrow>
        (parent\<lparr>op_prompt := ''You are a focused sub-agent. Task: '' @ description, op_backend := Some (b, None)\<rparr>, w1))"

definition merge_content :: "string \<Rightarrow> string \<Rightarrow> string" where
  "merge_content description final =
     ''# Subagent Result: '' @ description @ [CHR 0x0A, CHR 0x0A] @ final @ [CHR 0x0A]"

definition task_call ::
  "'b agent_env \<Rightarrow> ('b world Options \<Rightarrow> Input \<Rightarrow> 'b world \<Rightarrow> (string + Output) \<times> 'b world) \<Rightarrow>
   'b world Options \<Rightarrow> 'b world backend \<Rightarrow> args option \<Rightarrow> 'b world \<Rightarrow> (string + gval) \<times> 'b world" where
  "task_call env invoke parent B as w =
     (case arg_string (args_of as) ''description'' of
        None \<Rightarrow> (Inl ''description is required'', w)
      | Some description \<Rightarrow>
          if description = '''' then (Inl ''description is required'', w)
          else (case sub_options parent description w of (sub, w1) \<Rightarrow>
            case invoke sub \<lparr>in_messages = [\<lparr>m_role = ''user'', m_content = description\<rparr>], in_thread = ''''\<rparr> w1 of
              (Inl e, w2) \<Rightarrow> (Inl e, w2)
            | (Inr out, w2) \<Rightarrow>
                (case nextSubagentResultFile (ev_ul env) (ev_letter env) B description w2 of
                   Inl e \<Rightarrow> (Inl (err_text (ev_quote env) e), w2)
                 | Inr resultFile \<Rightarrow>
                     (Inr (GObj [(''task'', GStr description), (''result_file'', GStr resultFile),
                         (''status'', GStr ''merged''), (''output'', output_value out)]),
                      snd (be_write B resultFile (merge_content description (out_final out)) w2)))))"

definition NewTaskTool ::
  "'b agent_env \<Rightarrow> ('b world Options \<Rightarrow> Input \<Rightarrow> 'b world \<Rightarrow> (string + Output) \<times> 'b world) \<Rightarrow>
   'b world Options \<Rightarrow> 'b world tool" where
  "NewTaskTool env invoke parent =
     NewToolWithParameters ''task''
       ''Spawn a subagent for a subtask. Results will be automatically merged into parent filesystem.''
       (string_schema [''description''] [''description''])
       (case op_backend parent of
          Some (B, _) \<Rightarrow> task_call env invoke parent B
        | None \<Rightarrow> (\<lambda>as w. (Inl ''invalid memory address or nil pointer dereference'', w)))"

text \<open>
  Creating an agent and invoking it. An agent's task tool runs agents of its own, without a
  bound; \<open>agents deep n\<close> unfolds this \<open>n\<close> times, and \<open>deep\<close> is whatever the
  agents below do, so a statement for every \<open>deep\<close> and \<open>n\<close> is one about the program.
\<close>

definition invoke_agent ::
  "('b world Options \<Rightarrow> Input \<Rightarrow> 'b world \<Rightarrow> (string + Output) \<times> 'b world) \<Rightarrow> 'b agent_env \<Rightarrow>
   'b world Options \<Rightarrow> Input \<Rightarrow> 'b world \<Rightarrow> (string + Output) \<times> 'b world" where
  "invoke_agent invoke env opts input w =
     (case CreateDeepAgent (NewTaskTool env invoke) env opts w of
        (Inl e, w1) \<Rightarrow> (Inl (err_text (ev_quote env) e), w1)
      | (Inr g, w1) \<Rightarrow>
          (case Run g (ev_nano env w1) input w1 of
             (Inl e, r) \<Rightarrow> (Inl (AgentError_Error e), r_world r)
           | (Inr out, r) \<Rightarrow> (Inr out, r_world r)))"

fun agents ::
  "('b world Options \<Rightarrow> Input \<Rightarrow> 'b world \<Rightarrow> (string + Output) \<times> 'b world) \<Rightarrow> 'b agent_env \<Rightarrow> nat \<Rightarrow>
   'b world Options \<Rightarrow> Input \<Rightarrow> 'b world \<Rightarrow> (string + Output) \<times> 'b world" where
  "agents deep env 0 = deep"
| "agents deep env (Suc n) = invoke_agent (agents deep env n) env"

end
