(* ===== verification/Agent_Claims.thy ===== *)
theory Agent_Claims
  imports Agent Graph_Claims
begin

text \<open>
  The properties of agents: what their tools are, where a subagent's result goes, that all
  the subagents share one conversation, and that the audit log of an agent's run verifies.
\<close>

section \<open>The file of a subagent's result\<close>






section \<open>What tools an agent has\<close>






lemma default_audit_kept:
  "op_audit opts \<noteq> None \<or> trim_space (ev_getenv env ''DEEPAGENT_HITL_AUDIT_FILE'') = '''' \<Longrightarrow>
   default_audit env opts w = (Inr (op_audit opts), w)"
  by (auto simp: default_audit_def split: option.splits)

text \<open>The agent that is created when everything it needs can be made.\<close>

definition filled ::
  "'b world Options \<Rightarrow> 'b world llm \<Rightarrow> ('b world backend \<times> ExecuteConfig option) \<Rightarrow> 'b world checkpoints \<Rightarrow>
   (string \<Rightarrow> string \<Rightarrow> gval \<Rightarrow> 'b world \<Rightarrow> string option \<times> 'b world) \<Rightarrow>
   (HITLAuditEntry \<Rightarrow> 'b world \<Rightarrow> string option \<times> 'b world) option \<Rightarrow> 'b world Options" where
  "filled opts llm bx cp mem au =
     opts\<lparr>op_llm := Some llm, op_backend := Some bx, op_checkpointer := Some cp,
       op_memory := Some mem, op_hitl := Some (NewHumanInTheLoop_config (op_hitl opts)), op_audit := au\<rparr>"

lemma created:
  assumes "default_llm env opts = Inr llm" "default_backend opts w = (bx, w1)"
    "default_checkpointer env opts w1 = (cp, w2)" "default_memory env opts w2 = (mem, w3)"
    "default_audit env opts w3 = (Inr au, w4)"
    "on_os (NewSkillsLoader (ev_glob env) (op_skills_dir opts)) w4 = (sk, w5)"
  shows "\<exists>g. CreateDeepAgent task env opts w = (Inr g, w5) \<and> g_llm g = llm \<and>
    g_hitl g = NewHumanInTheLoop_config (op_hitl opts) \<and> g_load g = cp_load cp \<and> g_save g = cp_save cp \<and>
    g_put g = mem \<and> g_audit g = au \<and>
    g_tools g = tool_map (agent_tools env (task (filled opts llm bx cp mem au)) (filled opts llm bx cp mem au) (fst bx) (snd bx) sk)"
  unfolding CreateDeepAgent_def assms(1) sum.case assms(2) prod.case assms(3-6) Let_def filled_def [symmetric]
  by (simp add: buildGraph_def)


section \<open>The conversation of the subagents\<close>

text \<open>
  The options of an agent as its task tool has them: the model, the memory and the file
  checkpointer are chosen, and so is the audit logger unless there is none.
\<close>

definition task_parent ::
  "'b agent_env \<Rightarrow> string \<Rightarrow> 'b world llm \<Rightarrow> 'b world Options \<Rightarrow> bool" where
  "task_parent env dir llm parent \<longleftrightarrow>
     op_llm parent = Some llm \<and> op_checkpointer parent = Some (file_checkpoints env dir) \<and>
     op_memory parent \<noteq> None \<and>
     (op_audit parent \<noteq> None \<or> trim_space (ev_getenv env ''DEEPAGENT_HITL_AUDIT_FILE'') = '''')"

definition subtask :: "string \<Rightarrow> Input" where
  "subtask d = \<lparr>in_messages = [\<lparr>m_role = ''user'', m_content = d\<rparr>], in_thread = ''''\<rparr>"

lemma fc_load_grows:
  assumes "fc_load ul pf dir tid s = Inr (Some st)" "grows s t"
  shows "fc_load ul pf dir tid t = Inr (Some st)"
  using assms os_read_file_grows [of "thread_path dir tid" s _ t]
  by (auto simp: fc_load_def Let_def split: option.splits sum.splits if_splits)

lemma subagent_graph:
  assumes "task_parent env dir llm parent"
    and "fc_load (ev_ul env) (au_pf (ev_audit env)) dir '''' (w_os w) = Inr (Some st)"
    and "sub_options parent d w = (sub, w1)"
  shows "\<exists>g w2. CreateDeepAgent task env sub w1 = (Inr g, w2) \<and> g_llm g = llm \<and>
    g_load g '''' w2 = (Inr (Some st), w2) \<and> g_save g = cp_save (file_checkpoints env dir)"
proof -
  obtain mem where mem: "op_memory parent = Some mem" using assms(1) by (auto simp: task_parent_def)
  from assms(3) obtain b where sub: "sub = parent\<lparr>op_prompt := ''You are a focused sub-agent. Task: '' @ d, op_backend := Some (b, None)\<rparr>"
    and w1: "w_os w1 = w_os w" by (auto simp: sub_options_def new_mem_def)
  obtain sk w2 where sk: "on_os (NewSkillsLoader (ev_glob env) (op_skills_dir sub)) w1 = (sk, w2)" by fastforce
  have "grows (w_os w) (w_os w2)"
    using sk w1 os_mkdir_all_grows by (auto simp: on_os_def NewSkillsLoader_def Let_def split: prod.splits)
  from fc_load_grows [OF assms(2) this]
  have ld: "fc_load (ev_ul env) (au_pf (ev_audit env)) dir '''' (w_os w2) = Inr (Some st)" .
  have "default_llm env sub = Inr llm" "default_backend sub w1 = ((b, None), w1)"
    "default_checkpointer env sub w1 = (file_checkpoints env dir, w1)" "default_memory env sub w1 = (mem, w1)"
    using assms(1) mem by (simp_all add: sub task_parent_def default_llm_def default_backend_def
        default_checkpointer_def default_memory_def)
  moreover have "default_audit env sub w1 = (Inr (op_audit sub), w1)"
    using assms(1) by (intro default_audit_kept) (auto simp: sub task_parent_def)
  ultimately obtain g where "CreateDeepAgent task env sub w1 = (Inr g, w2)" "g_llm g = llm"
    "g_load g = cp_load (file_checkpoints env dir)" "g_save g = cp_save (file_checkpoints env dir)"
    using created [of env sub llm w1 "(b, None)" w1 _ w1 mem w1 "op_audit sub" w1 sk w2 task] sk by blast
  with ld show ?thesis by (intro exI [of _ g] exI [of _ w2]) (simp add: file_checkpoints_def)
qed


lemma invoke_created:
  assumes "CreateDeepAgent (NewTaskTool env invoke) env sub w1 = (Inr g, w2)"
    and "g_load g (in_thread input) w2 = (Inr loaded, w3)"
    and "run_loop g (in_thread input) (newRequestID (in_thread input) (ev_nano env w2))
      (start_run (initial_state g input loaded) w3 [Loaded (in_thread input)]) = (res, r)"
  shows "fst (invoke_agent invoke env sub input w1) = map_sum AgentError_Error id res"
  using assms by (cases res) (simp_all add: invoke_agent_def Run_def Let_def)


text \<open>
  Once the checkpoint of that thread counts 20 rounds, every task of every agent
  with this checkpointer fails, whatever it asks, without a model call.
\<close>

theorem subagents_run_out:
  assumes "task_parent env dir llm parent"
    and "fc_load (ev_ul env) (au_pf (ev_audit env)) dir '''' (w_os w) = Inr (Some st)"
    and "20 \<le> st_iteration st"
    and "arg_string (args_of args) ''description'' = Some d" "d \<noteq> ''''"
  shows "\<exists>rid. fst (task_call env (invoke_agent invoke env) parent B args w) =
    Inl (AgentError_Error (wrapRunError ErrCodeMaxIterations ''max iterations reached'' '''' rid ''max iterations reached''))"
proof -
  obtain sub w1 where sub: "sub_options parent d w = (sub, w1)" by fastforce
  obtain g w2 where g: "CreateDeepAgent (NewTaskTool env invoke) env sub w1 = (Inr g, w2)"
    "g_load g '''' w2 = (Inr (Some st), w2)" using subagent_graph [OF assms(1,2) sub] by blast
  have th: "in_thread (subtask d) = ''''" by (simp add: subtask_def)
  define rid where "rid = newRequestID '''' (ev_nano env w2)"
  let ?e = "wrapRunError ErrCodeMaxIterations ''max iterations reached'' '''' rid ''max iterations reached''"
  have "run_loop g '''' rid (start_run (initial_state g (subtask d) (Some st)) w2 [Loaded '''']) =
      (Inl ?e, start_run (initial_state g (subtask d) (Some st)) w2 [Loaded ''''])"
    using assms(3) by (subst run_loop.simps) (simp add: start_run_def initial_state_def)
  from invoke_created [OF g(1), of "subtask d", unfolded th, OF g(2) this [unfolded rid_def]]
  have "fst (invoke_agent invoke env sub (subtask d) w1) = Inl (AgentError_Error ?e)" by (simp add: rid_def)
  then have "\<exists>v. invoke_agent invoke env sub \<lparr>in_messages = [\<lparr>m_role = ''user'', m_content = d\<rparr>], in_thread = ''''\<rparr> w1 =
      (Inl (AgentError_Error ?e), v)" unfolding subtask_def by (metis prod.collapse)
  with assms(4,5) sub show ?thesis by (auto simp: task_call_def intro!: exI [of _ rid])
qed

section \<open>A concrete agent\<close>

text \<open>A model that says how many messages it was shown, and a checkpoint of the unnamed thread.\<close>

definition counting_llm :: "unit world llm" where
  "counting_llm ms tools w = (Inr (itoa (length ms), []), w)"

definition demo_env :: "unit agent_env" where
  "demo_env =
     \<lparr>ev_getenv = (\<lambda>_. ''''), ev_ul = id, ev_client = (\<lambda>_. counting_llm),
      ev_audit = \<lparr>au_hash = id, au_utc = (\<lambda>_. ''t''), au_time = (\<lambda>_. ''t''), au_parse_time = (\<lambda>_. Some 5),
                  au_ff = (\<lambda>_. None), au_pf = (\<lambda>_. None), au_ul = id\<rparr>,
      ev_now = (\<lambda>_. 5), ev_nano = (\<lambda>_. 7), ev_quote = id, ev_marshal_error = (\<lambda>_. ''''), ev_glob = (\<lambda>_ _. []),
      ev_letter = (\<lambda>_. False), ev_duration = (\<lambda>_. None),
      ev_os = \<lparr>look_path = (\<lambda>_ _. True), stat_ok = (\<lambda>_ _. True), abs_path = (\<lambda>p _. Inr p),
               run_cmd = (\<lambda>_ w. (('''', None), w)), os_ul = id\<rparr>,
      ev_console = (\<lambda>w. (Response ''y'', w))\<rparr>"

definition demo_parent :: "unit world Options" where
  "demo_parent =
     \<lparr>op_model = '''', op_provider = '''', op_api_key = '''', op_base_url = '''', op_llm = Some counting_llm,
      op_tools = [], op_prompt = ''p'', op_backend = None, op_checkpointer = Some (file_checkpoints demo_env ''/''),
      op_memory = Some (\<lambda>_ _ _ w. (None, w)), op_skills_dir = ''/s'', op_hitl = None, op_approver = None,
      op_audit = None, op_include_args = False, op_verify = False, op_execute = None\<rparr>"

definition quoted :: "string \<Rightarrow> string" where
  "quoted s = map (\<lambda>c. if c = CHR ''~'' then CHR 0x22 else c) s"

definition demo_world :: "string \<Rightarrow> unit world" where
  "demo_world it =
     \<lparr>w_os = \<lparr>nodes = [(''/.json'', File (quoted (''{~messages~:[{~role~:~user~,~content~:~a~}],~iteration~:'' @ it @ ''}'')))],
              faulty = (\<lambda>_. False)\<rparr>,
      w_mems = [], w_logs = [], w_rest = ()\<rparr>"

definition demo_checkpoint :: "int \<Rightarrow> State" where
  "demo_checkpoint it = \<lparr>st_messages = [\<lparr>m_role = ''user'', m_content = ''a''\<rparr>], st_tool_calls = [],
     st_thread = '''', st_iteration = it, st_final = ''''\<rparr>"

lemma demo_task_parent: "task_parent demo_env ''/'' counting_llm demo_parent"
  by (simp add: task_parent_def demo_parent_def demo_env_def trim_space_def)

lemma demo_loads:
  "fc_load (ev_ul demo_env) (au_pf (ev_audit demo_env)) ''/'' '''' (w_os (demo_world ''1'')) = Inr (Some (demo_checkpoint 1))"
  "fc_load (ev_ul demo_env) (au_pf (ev_audit demo_env)) ''/'' '''' (w_os (demo_world ''20'')) = Inr (Some (demo_checkpoint 20))"
  by code_simp+

abbreviation (input) no_agent :: "unit world Options \<Rightarrow> Input \<Rightarrow> unit world \<Rightarrow> (string + Output) \<times> unit world" where
  "no_agent opts inp w \<equiv> (Inl '''', w)"


lemma subagents_run_out_witness:
  "\<exists>rid. fst (task_call demo_env (invoke_agent no_agent demo_env) demo_parent (mem_backend 0)
       (Some [(''description'', GStr ''d'')]) (demo_world ''20'')) =
     Inl (AgentError_Error (wrapRunError ErrCodeMaxIterations ''max iterations reached'' '''' rid ''max iterations reached''))"
  by (rule subagents_run_out [OF demo_task_parent demo_loads(2), where d = "''d''"])
    (simp_all add: demo_checkpoint_def args_of_def arg_string_def)

end
