(* ===== verification/Audit_Lines.thy ===== *)
theory Audit_Lines
  imports Audit_Log Utf8_Lemmas
begin

text \<open>
  The lines of an audit file: a compact JSON text has no control characters, so an entry
  is one line; a file of such lines scans back into them.
\<close>

section \<open>Compact JSON has no control characters\<close>

definition printable :: "string \<Rightarrow> bool" where
  "printable s = list_all (\<lambda>c. 32 \<le> byte_of c) s"

lemma printable_simps [simp]:
  "printable []" "printable (c # s) = (32 \<le> byte_of c \<and> printable s)"
  "printable (s @ t) = (printable s \<and> printable t)"
  by (simp_all add: printable_def)

lemma printable_join: "printable sep \<Longrightarrow> list_all printable ss \<Longrightarrow> printable (join sep ss)"
  by (induction sep ss rule: join.induct) simp_all

lemma hex_digit_printable: "n < 16 \<Longrightarrow> 32 \<le> byte_of (hex_digit n)"
  by (simp add: hex_digit_def)

lemma esc_byte_printable: "is_ascii c \<Longrightarrow> printable (esc_byte c)"
proof -
  assume "is_ascii c"
  then have "byte_of c div 16 < 16" "byte_of c mod 16 < 16" by (simp_all add: is_ascii_def)
  then show ?thesis
    using hex_digit_printable by (simp add: esc_byte_def html_safe_def)
qed

lemma rune_bytes_printable:
  assumes "\<not> is_ascii c" "read_ok (decode_rune (c # cs))"
  shows "printable (take (snd (decode_rune (c # cs))) (c # cs))"
proof -
  let ?bs = "map byte_of (take 4 (c # cs))"
  define bs where "bs = ?bs"
  have ne: "bs \<noteq> []" and hd: "hd bs = byte_of c" by (simp_all add: bs_def)
  have r: "read_ok (decode_bytes bs)" using assms(2) by (simp add: decode_rune_def bs_def)
  from r ne have "\<forall>b \<in> set (take (snd (decode_bytes bs)) bs). 32 \<le> b"
  proof (cases rule: decode_bytes_cases)
    case (one b bs')
    with assms(1) hd show ?thesis by (simp add: is_ascii_def)
  qed (auto simp del: decode_bytes.simps simp: cont_def second_lo_def split: if_splits)
  then have "\<forall>b \<in> set (take (snd (decode_bytes ?bs)) ?bs). 32 \<le> b" unfolding bs_def .
  moreover have "(\<forall>b \<in> set (take w (map byte_of xs)). 32 \<le> b) = (\<forall>x \<in> set (take w xs). 32 \<le> byte_of x)"
    for w xs by (simp add: take_map)
  ultimately have "\<forall>x \<in> set (take (snd (decode_bytes ?bs)) (take 4 (c # cs))). 32 \<le> byte_of x" by blast
  then show ?thesis
    unfolding printable_def list_all_iff decode_rune_def take_take min_absorb1 [OF decode_bytes_width4] .
qed

lemma quote_body_printable: "printable (quote_body s)"
proof (induction s rule: quote_body.induct)
  case (2 c cs)
  obtain r w where rw: "decode_rune (c # cs) = (r, w)" by fastforce
  show ?case
  proof (cases "is_ascii c")
    case True
    with 2 show ?thesis by (simp add: quote_body.simps(2) esc_byte_printable)
  next
    case False
    have "read_ok (decode_rune (c # cs)) \<Longrightarrow> printable (take w (c # cs))"
      using rune_bytes_printable [OF False, of cs] rw by simp
    with False rw "2.IH"(2) [OF False rw [symmetric] refl] show ?thesis
      by (auto simp: quote_body.simps(2))
  qed
qed simp

lemma digits_printable: "list_all is_digit s \<Longrightarrow> printable s"
  by (induction s) (auto simp: is_digit_def)

lemma num_parts_printable:
  "num_int s = Some (a, b) \<Longrightarrow> printable a" "num_digits s = Some (a, b) \<Longrightarrow> printable a"
  "num_frac s = Some (a, b) \<Longrightarrow> printable a" "num_exp s = Some (a, b) \<Longrightarrow> printable a"
proof -
  have d: "printable (takeWhile is_digit t)" for t
    by (rule digits_printable) (auto simp: list_all_iff dest: set_takeWhileD)
  then show nd: "num_digits s = Some (a, b) \<Longrightarrow> printable a" for s a b
    by (auto simp: num_digits_def split: if_splits)
  have g: "is_digit c \<Longrightarrow> 32 \<le> byte_of c" for c by (simp add: is_digit_def)
  show "num_int s = Some (a, b) \<Longrightarrow> printable a"
    using d g by (auto simp: num_int_def split: list.splits if_splits)
  show "num_frac s = Some (a, b) \<Longrightarrow> printable a"
    using nd by (auto simp: num_frac_def split: list.splits if_splits)
  show "num_exp s = Some (a, b) \<Longrightarrow> printable a"
    using nd by (auto simp: num_exp_def split: list.splits if_splits)
qed

lemma num_ok_printable: "num_ok s \<Longrightarrow> printable s"
proof -
  have u: "num_unsigned t = Some (a, b) \<Longrightarrow> printable a" for t a b
    by (auto simp: num_unsigned_def num_parts_printable split: option.splits)
  assume "num_ok s"
  then show ?thesis
    using u [of s s "[]"] u by (auto simp: num_ok_def num_lit_def simp del: printable_simps(2) split: list.splits if_splits) simp
qed

lemma print_json_printable: "json_ok t \<Longrightarrow> printable (print_json False d t)"
proof (induction t arbitrary: d)
  case (JArr xs)
  then have "list_all printable (map (print_json False (Suc d)) xs)" by (auto simp: list_all_iff)
  then show ?case by (simp add: nl_def printable_join)
next
  case (JObj kvs)
  have "list_all printable (map (\<lambda>(k, v). quote k @ '':'' @ print_json False (Suc d) v) kvs)"
    using JObj by (fastforce simp: list_all_iff quote_def quote_body_printable)
  then show ?case by (simp add: nl_def printable_join)
qed (simp_all add: num_ok_printable quote_def quote_body_printable)

lemma print_json_nonempty: "json_ok t \<Longrightarrow> print_json ind d t \<noteq> []"
  using print_first [of t ind d] by auto

section \<open>How long a JSON text can be\<close>

lemma quote_body_length: "length (quote_body s) \<le> 6 * length s"
proof (induction s rule: quote_body.induct)
  case (2 c cs)
  obtain r w where rw: "decode_rune (c # cs) = (r, w)" by fastforce
  show ?case
  proof (cases "is_ascii c")
    case True
    have "length (esc_byte c) \<le> 6" by (simp add: esc_byte_def)
    with 2 True show ?thesis by (simp add: quote_body.simps(2))
  next
    case False
    note ih = "2.IH"(2) [OF False rw [symmetric] refl]
    have "length (take w (c # cs)) + 6 * (length cs - (w - 1)) \<le> 6 * length (c # cs)"
      by (cases "w \<le> length (c # cs)") (auto simp: min_def)
    with False rw ih show ?thesis by (auto simp: quote_body.simps(2))
  qed
qed simp

fun json_bound :: "json \<Rightarrow> nat" where
  "json_bound (JStr s) = 6 * length s + 2"
| "json_bound (JNum s) = length s"
| "json_bound (JArr xs) = 2 + sum_list (map (\<lambda>x. json_bound x + 1) xs)"
| "json_bound (JObj kvs) = 2 + sum_list (map (\<lambda>(k, v). 6 * length k + json_bound v + 4) kvs)"
| "json_bound _ = 5"

lemma join_length:
  "length (join sep ss) \<le> sum_list (map (\<lambda>s. length s + length sep) ss)"
  by (induction sep ss rule: join.induct) auto

lemma print_json_length: "length (print_json False d t) \<le> json_bound t"
proof (induction t arbitrary: d)
  case (JStr s)
  then show ?case using quote_body_length [of s] by (simp add: quote_def)
next
  case (JArr xs)
  have "sum_list (map (\<lambda>s. length s + 1) (map (print_json False (Suc d)) xs)) \<le>
      sum_list (map (\<lambda>x. json_bound x + 1) xs)"
    unfolding list.map_comp comp_def by (rule sum_list_mono) (use JArr in simp)
  with join_length [of "'',''" "map (print_json False (Suc d)) xs"] show ?case by (simp add: nl_def)
next
  case (JObj kvs)
  let ?p = "\<lambda>(k, v). quote k @ '':'' @ print_json False (Suc d) v"
  have "sum_list (map (\<lambda>s. length s + 1) (map ?p kvs)) \<le> sum_list (map (\<lambda>(k, v). 6 * length k + json_bound v + 4) kvs)"
    unfolding list.map_comp comp_def
  proof (rule sum_list_mono)
    fix kv assume kv: "kv \<in> set kvs"
    obtain k v where kv': "kv = (k, v)" by fastforce
    have "length (print_json False (Suc d) v) \<le> json_bound v" using JObj kv kv' by auto
    then show "length (?p kv) + 1 \<le> (case kv of (k, v) \<Rightarrow> 6 * length k + json_bound v + 4)"
      using quote_body_length [of k] by (simp add: kv' quote_def)
  qed
  with join_length [of "'',''" "map ?p kvs"] show ?case by (simp add: nl_def)
qed simp_all

lemma marshal_short:
  "tree_of ff v = Some t \<Longrightarrow> int (json_bound t) < max_token \<Longrightarrow>
   case json_marshal ff v of None \<Rightarrow> False | Some b \<Rightarrow> int (length b) < max_token"
  using print_json_length [of 0 t] by (simp add: json_marshal_def)
section \<open>Files of lines\<close>

definition file_of :: "string list \<Rightarrow> string" where
  "file_of ls = concat (map (\<lambda>l. l @ [CHR 0x0A]) ls)"

lemma file_of_append [simp]: "file_of (ls @ ms) = file_of ls @ file_of ms"
  by (simp add: file_of_def)

lemma split_file_of:
  "\<forall>l \<in> set ls. CHR 0x0A \<notin> set l \<Longrightarrow> split_on (CHR 0x0A) (file_of ls) = ls @ [[]]"
proof (induction ls)
  case (Cons l ls)
  then show ?case
    using split_on_append [of "CHR 0x0A" l "file_of ls"] by (simp add: file_of_def split_on_no_sep)
qed (simp add: file_of_def)

definition line_ok :: "string \<Rightarrow> bool" where
  "line_ok l \<longleftrightarrow> l \<noteq> '''' \<and> printable l \<and> int (length l) < max_token"

lemma line_ok_no_lf: "line_ok l \<Longrightarrow> CHR 0x0A \<notin> set l"
  by (auto simp: line_ok_def printable_def list_all_iff)

lemma line_ok_cr: "line_ok l \<Longrightarrow> drop_cr l = l"
  by (auto simp: line_ok_def printable_def list_all_iff drop_cr_def dest!: last_in_set)

lemma scan_file_of:
  assumes "\<forall>l \<in> set ls. line_ok l"
  shows "scan_lines (file_of ls) = ls" "scan_error (file_of ls) = None"
proof -
  have r: "raw_lines (file_of ls) = ls"
    using split_file_of [of ls] assms line_ok_no_lf by (simp add: raw_lines_def)
  then show "scan_error (file_of ls) = None"
    using assms by (simp add: scan_error_def list_all_iff line_ok_def)
  have "takeWhile (\<lambda>l. int (length l) < max_token) ls = ls"
    using assms by (simp add: takeWhile_eq_all_conv line_ok_def)
  then show "scan_lines (file_of ls) = ls"
    unfolding scan_lines_def r using assms line_ok_cr by (simp only: map_idI)
qed

end
