(* ===== verification/Audit_Chain.thy ===== *)
theory Audit_Chain
  imports Audit_Lines
begin

text \<open>
  The audit chain: entries through JSON, the chain as a property of the list of entries of a
  file, and what appending and verifying make of it.
\<close>

section \<open>An entry through its line\<close>

definition storable :: "audit_env \<Rightarrow> HITLAuditEntry \<Rightarrow> bool" where
  "storable env e \<longleftrightarrow>
     list_all valid_utf8
       [ha_event e, ha_tool e, ha_call_id e, ha_thread e, ha_request e, ha_args_hash e, ha_decision e,
        ha_error e, ha_prev_hash e, ha_hash e, au_time env (ha_timestamp e)] \<and>
     au_parse_time env (au_time env (ha_timestamp e)) = Some (ha_timestamp e) \<and>
     - (2 ^ 63) \<le> ha_iteration e \<and> ha_iteration e < 2 ^ 63 \<and>
     settled (au_ff env) (au_pf env) (ha_arguments e)"

definition reread :: "audit_env \<Rightarrow> HITLAuditEntry \<Rightarrow> HITLAuditEntry" where
  "reread env e = e\<lparr>ha_arguments :=
     (case tree_of (au_ff env) (ha_arguments e) of Some t \<Rightarrow> any_of (au_pf env) t | None \<Rightarrow> GNil)\<rparr>"

definition fields_tree :: "HITLAuditEntry \<Rightarrow> json \<Rightarrow> (string \<times> json) list" where
  "fields_tree e ta =
     [(''event'', JStr (ha_event e))] @ str_field ''tool'' (ha_tool e) @ str_field ''tool_call_id'' (ha_call_id e)
     @ str_field ''thread_id'' (ha_thread e) @ str_field ''request_id'' (ha_request e)
     @ (if ha_iteration e = 0 then [] else [(''iteration'', JNum (itoa_int (ha_iteration e)))])
     @ (if ha_arguments e = GNil then [] else [(''arguments'', ta)])
     @ str_field ''args_hash'' (ha_args_hash e) @ str_field ''decision'' (ha_decision e)
     @ (if ha_approved e then [(''approved'', JBool True)] else []) @ str_field ''error'' (ha_error e)
     @ str_field ''prev_hash'' (ha_prev_hash e)"

definition entry_tree :: "audit_env \<Rightarrow> HITLAuditEntry \<Rightarrow> json \<Rightarrow> json" where
  "entry_tree env e ta =
     JObj ([(''timestamp'', JStr (au_time env (ha_timestamp e)))] @ fields_tree e ta @ str_field ''hash'' (ha_hash e))"

definition payload_tree :: "audit_env \<Rightarrow> HITLAuditEntry \<Rightarrow> json \<Rightarrow> json" where
  "payload_tree env e ta = JObj ([(''timestamp'', JStr (au_utc env (ha_timestamp e)))] @ fields_tree e ta)"

lemma tree_fields_bool [simp]:
  "tree_fields ff (opt_bool k b) = Some (if b then [(k, JBool True)] else [])"
  by (simp add: tree_fields_def opt_bool_def)

lemma tree_fields_any:
  "v = GNil \<or> tree_of ff v = Some t \<Longrightarrow> tree_fields ff (opt_any k v) = Some (if v = GNil then [] else [(k, t)])"
  by (auto simp: tree_fields_def opt_any_def)

lemma tree_fields_entry:
  assumes "ha_arguments e = GNil \<or> tree_of ff (ha_arguments e) = Some ta"
  shows "tree_fields ff (entry_fields e) = Some (fields_tree e ta)"
  unfolding entry_fields_def fields_tree_def
  by (intro tree_fields_append) (simp_all add: tree_fields_any [OF assms])

lemma entry_value_tree:
  assumes "ha_arguments e = GNil \<or> tree_of (au_ff env) (ha_arguments e) = Some ta"
  shows "tree_of (au_ff env) (entry_value env e) = Some (entry_tree env e ta)"
proof -
  have "tree_fields (au_ff env) ([(''timestamp'', GStr (au_time env (ha_timestamp e)))] @ entry_fields e @ opt_str ''hash'' (ha_hash e)) =
     Some ([(''timestamp'', JStr (au_time env (ha_timestamp e)))] @ fields_tree e ta @ str_field ''hash'' (ha_hash e))"
    by (intro tree_fields_append tree_fields_entry assms) simp_all
  then show ?thesis unfolding entry_value_def entry_tree_def tree_of_struct by simp
qed

lemma hash_payload_tree:
  assumes "ha_arguments e = GNil \<or> tree_of (au_ff env) (ha_arguments e) = Some ta"
  shows "tree_of (au_ff env) (hash_payload env e) = Some (payload_tree env e ta)"
proof -
  have "tree_fields (au_ff env) ([(''timestamp'', GStr (au_utc env (ha_timestamp e)))] @ entry_fields e) =
     Some ([(''timestamp'', JStr (au_utc env (ha_timestamp e)))] @ fields_tree e ta)"
    by (intro tree_fields_append tree_fields_entry assms) simp_all
  then show ?thesis unfolding hash_payload_def payload_tree_def tree_of_struct by simp
qed

section \<open>Decoding\<close>

lemma decode_fields_append:
  "decode_fields f (xs @ ys) e = Option.bind (decode_fields f xs e) (decode_fields f ys)"
  by (induction f xs e rule: decode_fields.induct) (auto split: bind_splits)

lemma key_lower: "list_all (\<lambda>c. is_ascii c \<and> \<not> is_upper c) k \<Longrightarrow> key_matches ul n k = (k = n)"
proof -
  assume k: "list_all (\<lambda>c. is_ascii c \<and> \<not> is_upper c) k"
  then have "map ascii_lower k = k" by (induction k) (auto simp: ascii_lower_def)
  moreover have "list_all is_ascii k" using k by (auto simp: list_all_iff)
  ultimately show ?thesis by (simp add: key_matches_def to_lower_def)
qed

lemma set_field_simps:
  "set_field env ''timestamp'' v e = map_option (\<lambda>x. e\<lparr>ha_timestamp := x\<rparr>) (decode_time env (ha_timestamp e) v)"
  "set_field env ''event'' v e = map_option (\<lambda>x. e\<lparr>ha_event := x\<rparr>) (decode_string (ha_event e) v)"
  "set_field env ''tool'' v e = map_option (\<lambda>x. e\<lparr>ha_tool := x\<rparr>) (decode_string (ha_tool e) v)"
  "set_field env ''tool_call_id'' v e = map_option (\<lambda>x. e\<lparr>ha_call_id := x\<rparr>) (decode_string (ha_call_id e) v)"
  "set_field env ''thread_id'' v e = map_option (\<lambda>x. e\<lparr>ha_thread := x\<rparr>) (decode_string (ha_thread e) v)"
  "set_field env ''request_id'' v e = map_option (\<lambda>x. e\<lparr>ha_request := x\<rparr>) (decode_string (ha_request e) v)"
  "set_field env ''iteration'' v e = map_option (\<lambda>x. e\<lparr>ha_iteration := x\<rparr>) (decode_int (ha_iteration e) v)"
  "set_field env ''arguments'' v e = map_option (\<lambda>x. e\<lparr>ha_arguments := x\<rparr>) (decode_any (au_pf env) v)"
  "set_field env ''args_hash'' v e = map_option (\<lambda>x. e\<lparr>ha_args_hash := x\<rparr>) (decode_string (ha_args_hash e) v)"
  "set_field env ''decision'' v e = map_option (\<lambda>x. e\<lparr>ha_decision := x\<rparr>) (decode_string (ha_decision e) v)"
  "set_field env ''approved'' v e = map_option (\<lambda>x. e\<lparr>ha_approved := x\<rparr>) (decode_bool (ha_approved e) v)"
  "set_field env ''error'' v e = map_option (\<lambda>x. e\<lparr>ha_error := x\<rparr>) (decode_string (ha_error e) v)"
  "set_field env ''prev_hash'' v e = map_option (\<lambda>x. e\<lparr>ha_prev_hash := x\<rparr>) (decode_string (ha_prev_hash e) v)"
  "set_field env ''hash'' v e = map_option (\<lambda>x. e\<lparr>ha_hash := x\<rparr>) (decode_string (ha_hash e) v)"
  by (simp_all add: set_field_def key_lower is_ascii_def is_upper_def)

text \<open>An optional field that is left out leaves the blank it stands for.\<close>

lemma decode_str_field:
  assumes "\<And>v e. set_field env k v e = map_option (\<lambda>x. upd x e) (decode_string (get e) v)"
    and "get e = ''''" and "upd '''' e = e"
  shows "decode_fields (set_field env) (str_field k s) e = Some (upd s e)"
  using assms by (simp add: str_field_def decode_string_def)

text \<open>The blank entry of \<open>Unmarshal\<close> filled in, field by field in the order of the text.\<close>

lemma entry_decoded:
  assumes "au_parse_time env ts = Some t" and "- (2 ^ 63) \<le> ha_iteration e" "ha_iteration e < 2 ^ 63"
    and "ha_arguments e = GNil \<or> decode_any (au_pf env) ta = Some v"
  shows "decode_fields (set_field env)
     ([(''timestamp'', JStr ts)] @ fields_tree e ta @ str_field ''hash'' (ha_hash e)) blank_entry =
     Some (e\<lparr>ha_timestamp := t, ha_arguments := (if ha_arguments e = GNil then GNil else v)\<rparr>)"
proof -
  note f = set_field_simps
  let ?D = "decode_fields (set_field env)"
  have it: "?D (if ha_iteration e = 0 then [] else [(''iteration'', JNum (itoa_int (ha_iteration e)))]) x =
      Some (x\<lparr>ha_iteration := ha_iteration e\<rparr>)" if "ha_iteration x = 0" for x
    using assms(2,3) that by (simp add: f decode_int_def atoi_itoa_int)
  have ar: "?D (if ha_arguments e = GNil then [] else [(''arguments'', ta)]) x =
      Some (x\<lparr>ha_arguments := (if ha_arguments e = GNil then GNil else v)\<rparr>)" if "ha_arguments x = GNil" for x
    using assms(4) that by (auto simp: f)
  have ap: "?D (if ha_approved e then [(''approved'', JBool True)] else []) x =
      Some (x\<lparr>ha_approved := ha_approved e\<rparr>)" if "\<not> ha_approved x" for x
    using that by (simp add: f decode_bool_def)
  have ts: "?D [(''timestamp'', JStr ts)] x = Some (x\<lparr>ha_timestamp := t\<rparr>)" for x
    using assms(1) by (simp add: f decode_time_def)
  have ev: "?D [(''event'', JStr s)] x = Some (x\<lparr>ha_event := s\<rparr>)" for s x
    by (simp add: f decode_string_def)
  show ?thesis
    unfolding fields_tree_def decode_fields_append append.assoc
    by (simp add: ts ev it ar ap blank_entry_def del: decode_fields.simps
        add: decode_str_field [OF f(3)] decode_str_field [OF f(4)] decode_str_field [OF f(5)]
          decode_str_field [OF f(6)] decode_str_field [OF f(9)] decode_str_field [OF f(10)]
          decode_str_field [OF f(12)] decode_str_field [OF f(13)] decode_str_field [OF f(14)])
qed

text \<open>The line of a storable entry reads back as the entry, with the same hash.\<close>

lemma storable_line:
  assumes "storable env e"
  shows "\<exists>b. json_marshal (au_ff env) (entry_value env e) = Some b \<and> b \<noteq> '''' \<and> printable b \<and>
    unmarshal_entry env b = Some (reread env e)"
    and "payload_text env (reread env e) = payload_text env e"
proof -
  from assms obtain ta where ta: "tree_of (au_ff env) (ha_arguments e) = Some ta" "json_ok ta" "utf8_json ta"
    "in_range (au_pf env) ta" "tree_of (au_ff env) (any_of (au_pf env) ta) = Some ta"
    by (auto simp: storable_def settled_def split: option.splits)
  let ?t = "entry_tree env e ta" and ?v = "any_of (au_pf env) ta"
  have tr: "tree_of (au_ff env) (entry_value env e) = Some ?t" using ta(1) by (intro entry_value_tree) simp
  have nil: "?v = GNil \<longleftrightarrow> ha_arguments e = GNil" using ta(1,5) by (metis option.inject tree_JNull)
  then have rr: "reread env e = e\<lparr>ha_arguments := (if ha_arguments e = GNil then GNil else ?v)\<rparr>"
    using ta(1) by (auto simp: reread_def)
  have ok: "json_ok ?t" "utf8_json ?t"
    using assms ta(2,3)
    by (auto simp: entry_tree_def fields_tree_def str_field_def storable_def itoa_int_ok valid_utf8_ascii is_ascii_def)
  have "unmarshal_entry env (print_json False 0 ?t) = Some (reread env e)"
    unfolding unmarshal_entry_def parse_print [OF ok] rr
    using assms ta(4) entry_decoded [of env "au_time env (ha_timestamp e)" "ha_timestamp e" e ta ?v]
    by (simp add: entry_tree_def decode_any_def storable_def)
  with tr ok print_json_printable [of ?t 0] print_json_nonempty [of ?t False 0]
  show "\<exists>b. json_marshal (au_ff env) (entry_value env e) = Some b \<and> b \<noteq> '''' \<and> printable b \<and>
      unmarshal_entry env b = Some (reread env e)"
    by (simp add: json_marshal_def)
  have "tree_of (au_ff env) (hash_payload env (reread env e)) = Some (payload_tree env (reread env e) ta)"
    using ta(5) rr by (intro hash_payload_tree) auto
  moreover have "tree_of (au_ff env) (hash_payload env e) = Some (payload_tree env e ta)"
    using ta(1) by (intro hash_payload_tree) simp
  moreover have "payload_tree env (reread env e) ta = payload_tree env e ta"
    using nil by (simp add: rr payload_tree_def fields_tree_def)
  ultimately show "payload_text env (reread env e) = payload_text env e"
    by (simp add: payload_text_def json_marshal_def)
qed

section \<open>The chain of a file\<close>

fun chain :: "audit_env \<Rightarrow> string \<Rightarrow> HITLAuditEntry list \<Rightarrow> bool" where
  "chain env h [] = True"
| "chain env h (e # es) =
     (ha_prev_hash e = h \<and> ha_hash e = computeHITLAuditHash env e \<and> chain env (ha_hash e) es)"

definition last_hash :: "HITLAuditEntry list \<Rightarrow> string" where
  "last_hash es = (if es = [] then '''' else ha_hash (last es))"

lemma hash_chain_append: "chain env h (xs @ ys) = (chain env h xs \<and> chain env (if xs = [] then h else ha_hash (last xs)) ys)"
  by (induction xs arbitrary: h) auto

text \<open>What strict verification asks of an entry by itself.\<close>

definition complete :: "HITLAuditEntry \<Rightarrow> bool" where
  "complete e \<longleftrightarrow>
     ha_event e \<noteq> '''' \<and> ha_timestamp e \<noteq> 0 \<and>
     (if ha_event e = ''hitl_request'' \<or> ha_event e = ''hitl_decision''
      then '''' \<notin> {ha_tool e, ha_call_id e, ha_thread e, ha_request e} \<and> 0 < ha_iteration e else True) \<and>
     (if ha_event e = ''hitl_decision'' then ha_decision e \<noteq> '''' else True)"

lemma validate_strict:
  "validateHITLAuditEntryStrict e ts = None \<longleftrightarrow> complete e \<and> (ts = 0 \<or> ts \<le> ha_timestamp e)"
  by (auto simp: validateHITLAuditEntryStrict_def complete_def Let_def)

definition read_entries :: "audit_env \<Rightarrow> string list \<Rightarrow> HITLAuditEntry list option" where
  "read_entries env ls = those (map (unmarshal_entry env) (filter (\<lambda>l. l \<noteq> '''') ls))"

definition strictly :: "int \<Rightarrow> HITLAuditEntry list \<Rightarrow> bool" where
  "strictly ts es \<longleftrightarrow> list_all complete es \<and> sorted ((if ts = 0 then [] else [ts]) @ map ha_timestamp es)"

lemma strictly_Cons:
  "strictly ts (e # es) \<longleftrightarrow> complete e \<and> (ts = 0 \<or> ts \<le> ha_timestamp e) \<and> strictly (ha_timestamp e) es"
  by (auto simp: strictly_def complete_def)

lemma payload_unhashed [simp]: "payload_text env (e\<lparr>ha_hash := h\<rparr>) = payload_text env e"
  by (simp add: payload_text_def hash_payload_def entry_fields_def)

lemma hash_unhashed [simp]: "computeHITLAuditHash env (e\<lparr>ha_hash := h\<rparr>) = computeHITLAuditHash env e"
  by (simp add: computeHITLAuditHash_def)

lemma sealed_simps [simp]:
  "ha_prev_hash (sealed_entry env now h e) = h"
  "ha_hash (sealed_entry env now h e) = computeHITLAuditHash env (sealed_entry env now h e)"
  by (simp_all add: sealed_entry_def Let_def)

lemma verify_lines_step:
  assumes "l \<noteq> ''''" "unmarshal_entry env l = Some e"
  shows "verify_lines env strict n h ts (l # ls) = None \<longleftrightarrow>
    ha_prev_hash e = h \<and> ha_hash e = computeHITLAuditHash env e \<and>
    (if strict then complete e \<and> (ts = 0 \<or> ts \<le> ha_timestamp e) else True) \<and>
    verify_lines env strict (Suc n) (ha_hash e) (ha_timestamp e) ls = None"
  using assms by (auto simp: Let_def validate_strict [symmetric] split: option.splits)

lemma verify_lines_iff:
  "verify_lines env strict n h ts ls = None \<longleftrightarrow>
     (case read_entries env ls of
        None \<Rightarrow> False | Some es \<Rightarrow> chain env h es \<and> (if strict then strictly ts es else True))"
proof (induction ls arbitrary: n h ts)
  case Nil
  show ?case by (simp add: read_entries_def strictly_def)
next
  case (Cons l ls)
  show ?case
  proof (cases "l = ''''")
    case True
    with Cons show ?thesis by (simp add: read_entries_def)
  next
    case False
    show ?thesis
    proof (cases "unmarshal_entry env l")
      case None
      with False show ?thesis by (simp add: read_entries_def)
    next
      case (Some e)
      note verify_lines_step [OF False Some, of strict n h ts ls]
      with Cons [of "Suc n" "ha_hash e" "ha_timestamp e"] False Some show ?thesis
        by (auto simp: read_entries_def strictly_Cons simp del: verify_lines.simps split: option.splits)
    qed
  qed
qed

section \<open>Appending\<close>

definition event_ok :: "audit_env \<Rightarrow> int \<Rightarrow> HITLAuditEntry \<Rightarrow> bool" where
  "event_ok env now e \<longleftrightarrow>
     (\<forall>h \<in> insert '''' (range (au_hash env)).
        storable env (sealed_entry env now h e) \<and>
        (case json_marshal (au_ff env) (entry_value env (sealed_entry env now h e)) of
           None \<Rightarrow> False | Some b \<Rightarrow> int (length b) < max_token))"

text \<open>The file of a logger: lines of entries that form a chain, which the logger continues.\<close>

definition log_holds :: "audit_env \<Rightarrow> audit_logger \<times> os_state \<Rightarrow> HITLAuditEntry list \<Rightarrow> bool" where
  "log_holds env st es = (case st of (lg, s) \<Rightarrow>
     \<exists>ls. (os_read_file (al_path lg) s = Inr (file_of ls) \<or> (ls = [] \<and> (\<exists>e. os_read_file (al_path lg) s = Inl e))) \<and>
       list_all line_ok ls \<and> read_entries env ls = Some es \<and> chain env '''' es \<and>
       al_last_hash lg = (if al_loaded lg then last_hash es else ''''))"

lemma log_holdsI:
  assumes "os_read_file (al_path lg) s = Inr (file_of ls)" "list_all line_ok ls"
    "read_entries env ls = Some es" "chain env '''' es"
    "al_last_hash lg = (if al_loaded lg then last_hash es else '''')"
  shows "log_holds env (lg, s) es"
  using assms unfolding log_holds_def by blast

lemma read_entries_snoc:
  assumes "l \<noteq> ''''" "unmarshal_entry env l = Some e" "read_entries env ls = Some es"
  shows "read_entries env (ls @ [l]) = Some (es @ [e])"
  using assms by (simp add: read_entries_def those_append)

lemma last_hash_range: "chain env '''' es \<Longrightarrow> last_hash es \<in> insert '''' (range (au_hash env))"
proof (cases es rule: rev_cases)
  case (snoc ys y)
  assume "chain env '''' es"
  with snoc show ?thesis by (simp add: hash_chain_append last_hash_def computeHITLAuditHash_def)
qed (simp add: last_hash_def)

lemma load_log_holds:
  assumes "log_holds env (lg, s) es" "loadLastHashLocked env lg s = (r, lg1)"
  shows "log_holds env (lg1, s) es" "al_loaded lg1" "al_path lg1 = al_path lg"
proof -
  from assms(1) obtain ls where st: "os_read_file (al_path lg) s = Inr (file_of ls) \<or>
      (ls = [] \<and> (\<exists>e. os_read_file (al_path lg) s = Inl e))"
    and ls: "list_all line_ok ls" and es: "read_entries env ls = Some es" "chain env '''' es"
    and lh: "al_last_hash lg = (if al_loaded lg then last_hash es else '''')" by (auto simp: log_holds_def)
  show "al_loaded lg1" "al_path lg1 = al_path lg"
    using assms(2) by (auto simp: loadLastHashLocked_def Let_def split: if_splits sum.splits option.splits)
  show "log_holds env (lg1, s) es"
  proof (cases "al_loaded lg")
    case True
    with assms show ?thesis by (simp add: loadLastHashLocked_def)
  next
    case new: False
    show ?thesis
    proof (cases ls rule: rev_cases)
      case Nil
      then have "es = []" using es by (simp add: read_entries_def)
      then have "al_last_hash lg1 = ''''" "al_path lg1 = al_path lg" "al_loaded lg1"
        using assms(2) st ls new lh Nil
        by (auto simp: loadLastHashLocked_def Let_def file_of_def scan_lines_def raw_lines_def
            split: if_splits sum.splits option.splits)
      with st ls es Nil \<open>es = []\<close> show ?thesis by (auto simp: log_holds_def last_hash_def)
    next
      case (snoc ms l)
      with st have rd: "os_read_file (al_path lg) s = Inr (file_of ls)" by simp
      note sc = scan_file_of [OF ls [unfolded list_all_iff]]
      from snoc ls have l: "l \<noteq> ''''" by (simp add: line_ok_def)
      obtain e where e: "unmarshal_entry env l = Some e" "last es = e" "es \<noteq> []"
        using es(1) snoc l
        by (cases "unmarshal_entry env l") (auto simp: read_entries_def those_append split: option.splits)
      have "lg1 = lg\<lparr>al_loaded := True, al_last_hash := ha_hash e\<rparr>"
        using assms(2) rd sc snoc l e new by (simp add: loadLastHashLocked_def Let_def)
      with rd ls es e show ?thesis by (auto simp: log_holds_def last_hash_def)
    qed
  qed
qed

lemma LogHITLEvent_ok:
  assumes "log_holds env (lg, s) es" "event_ok env now e"
  shows "if fst (LogHITLEvent env now e (lg, s)) = None
    then \<exists>h. log_holds env (snd (LogHITLEvent env now e (lg, s))) (es @ [reread env (sealed_entry env now h e)])
    else log_holds env (snd (LogHITLEvent env now e (lg, s))) es"
proof -
  obtain r lg1 where ld: "loadLastHashLocked env lg s = (r, lg1)" by fastforce
  show ?thesis
  proof (cases r)
    case (Some err)
    with ld load_log_holds [OF assms(1) ld] show ?thesis by (simp add: LogHITLEvent_def)
  next
    case None
    note lg1 = load_log_holds [OF assms(1) ld]
    from lg1 obtain ls where st: "os_read_file (al_path lg1) s = Inr (file_of ls) \<or>
        (ls = [] \<and> (\<exists>e. os_read_file (al_path lg1) s = Inl e))"
      and ls: "list_all line_ok ls" and es: "read_entries env ls = Some es" "chain env '''' es"
      and lh: "al_last_hash lg1 = last_hash es" by (auto simp: log_holds_def)
    define x where "x = sealed_entry env now (al_last_hash lg1) e"
    have "storable env x \<and> (case json_marshal (au_ff env) (entry_value env x) of
        None \<Rightarrow> False | Some b \<Rightarrow> int (length b) < max_token)"
      using assms(2) last_hash_range [OF es(2)] unfolding event_ok_def x_def lh by blast
    then have ok: "storable env x" "\<And>b. json_marshal (au_ff env) (entry_value env x) = Some b \<Longrightarrow> int (length b) < max_token"
      by auto
    from storable_line(1) [OF ok(1)] obtain b where b: "json_marshal (au_ff env) (entry_value env x) = Some b"
      "b \<noteq> ''''" "printable b" "unmarshal_entry env b = Some (reread env x)" by blast
    obtain r t where ap: "os_append_file (al_path lg1) (b @ [CHR 0x0A]) s = (r, t)" by fastforce
    have res: "LogHITLEvent env now e (lg, s) =
        (case r of Inl err \<Rightarrow> (Some err, (lg1, t)) | Inr _ \<Rightarrow> (None, (lg1\<lparr>al_last_hash := ha_hash x\<rparr>, t)))"
      using ld None b(1) ap by (simp add: LogHITLEvent_def x_def Let_def split: sum.splits)
    show ?thesis
    proof (cases r)
      case (Inl err)
      with ap os_append_file_err have "t = s" by blast
      with Inl res lg1(1) show ?thesis by simp
    next
      case (Inr u)
      have rr: "ha_prev_hash (reread env y) = ha_prev_hash y" "ha_hash (reread env y) = ha_hash y" for y
        by (simp_all add: reread_def)
      have "os_read_file (al_path lg1) t = Inr (file_of (ls @ [b]))"
        using os_append_read [OF ap [unfolded Inr]] st by (auto simp: file_of_def)
      moreover have "list_all line_ok (ls @ [b])" using ls b ok(2) by (simp add: line_ok_def)
      moreover have "read_entries env (ls @ [b]) = Some (es @ [reread env x])"
        by (rule read_entries_snoc [OF b(2,4) es(1)])
      moreover have "chain env '''' (es @ [reread env x])"
        using es(2) lh storable_line(2) [OF ok(1)] rr
        by (simp add: hash_chain_append last_hash_def x_def computeHITLAuditHash_def)
      ultimately have "log_holds env (lg1\<lparr>al_last_hash := ha_hash x\<rparr>, t) (es @ [reread env x])"
        using lg1(2) rr(2) by (intro log_holdsI) (simp_all add: last_hash_def)
      with Inr res show ?thesis by (auto simp: x_def)
    qed
  qed
qed

end
