(* ===== verification/Audit_Runs.thy ===== *)
theory Audit_Runs
  imports Audit_Chain
begin

text \<open>
  Sequences of events on one logger: what they leave in the file, and that such a file
  verifies; at the end a small logger environment and two files for the witnesses.
\<close>

section \<open>Sequences of events\<close>

text \<open>The events that were logged without an error, and the state after all.\<close>

fun log_all ::
  "audit_env \<Rightarrow> (int \<times> HITLAuditEntry) list \<Rightarrow> audit_logger \<times> os_state \<Rightarrow>
     HITLAuditEntry list \<times> (audit_logger \<times> os_state)" where
  "log_all env [] st = ([], st)"
| "log_all env ((now, e) # evs) st =
     (case LogHITLEvent env now e st of
        (err, st1) \<Rightarrow> (case log_all env evs st1 of
           (es, st2) \<Rightarrow> ((if err = None then e # es else es), st2)))"

text \<open>What an event says, apart from its place in the chain and the form of its arguments.\<close>

definition facts :: "HITLAuditEntry \<Rightarrow> HITLAuditEntry" where
  "facts e = e\<lparr>ha_timestamp := 0, ha_arguments := GNil, ha_prev_hash := '''', ha_hash := ''''\<rparr>"

lemma facts_sealed [simp]: "facts (reread env (sealed_entry env now h e)) = facts e"
  by (simp add: facts_def reread_def sealed_entry_def Let_def)

definition fresh_logger :: "string \<Rightarrow> audit_logger" where
  "fresh_logger path = \<lparr>al_path = path, al_loaded = False, al_last_hash = ''''\<rparr>"

lemma LogHITLEvent_path: "al_path (fst (snd (LogHITLEvent env now e (lg, s)))) = al_path lg"
proof -
  obtain r lg1 where ld: "loadLastHashLocked env lg s = (r, lg1)" by fastforce
  then have "al_path lg1 = al_path lg"
    by (auto simp: loadLastHashLocked_def Let_def split: if_splits sum.splits option.splits)
  with ld show ?thesis by (auto simp: LogHITLEvent_def Let_def split: option.splits sum.splits prod.splits)
qed

lemma log_all_holds:
  assumes "log_holds env (lg, s) es" "\<forall>(now, e) \<in> set evs. event_ok env now e"
    and "log_all env evs (lg, s) = (fs, (lg1, s1))"
  shows "al_path lg1 = al_path lg \<and> (\<exists>es1. log_holds env (lg1, s1) (es @ es1) \<and> map facts es1 = map facts fs)"
  using assms
proof (induction evs arbitrary: lg s es fs)
  case Nil
  then show ?case by (auto intro!: exI [of _ "[]"])
next
  case (Cons ev evs)
  obtain now e where ev: "ev = (now, e)" by fastforce
  obtain err lg2 s2 where l: "LogHITLEvent env now e (lg, s) = (err, (lg2, s2))" by (metis prod.exhaust)
  obtain gs where g: "log_all env evs (lg2, s2) = (gs, (lg1, s1))" "fs = (if err = None then e # gs else gs)"
    using Cons.prems(3) by (auto simp: ev l split: prod.splits)
  have p: "al_path lg2 = al_path lg" using LogHITLEvent_path [of env now e lg s] l by simp
  from LogHITLEvent_ok [OF Cons.prems(1), of now e] Cons.prems(2) ev l
  have ok: "if err = None then \<exists>h. log_holds env (lg2, s2) (es @ [reread env (sealed_entry env now h e)])
      else log_holds env (lg2, s2) es" by auto
  show ?case
  proof (cases "err = None")
    case True
    with ok obtain h where "log_holds env (lg2, s2) (es @ [reread env (sealed_entry env now h e)])" by auto
    from Cons.IH [OF this _ g(1)] Cons.prems(2) obtain es1 where
      "al_path lg1 = al_path lg2" "log_holds env (lg1, s1) (es @ reread env (sealed_entry env now h e) # es1)"
      "map facts es1 = map facts gs" by auto
    with True g(2) p show ?thesis
      by (intro conjI exI [of _ "reread env (sealed_entry env now h e) # es1"]) auto
  next
    case False
    with ok Cons.IH [OF _ _ g(1), of es] Cons.prems(2) g(2) p show ?thesis by auto
  qed
qed

lemma log_holds_reopened: "log_holds env (lg, s) es \<Longrightarrow> al_path lg = p \<Longrightarrow> log_holds env (fresh_logger p, s) es"
  by (auto simp: log_holds_def fresh_logger_def)

lemma verify_data_iff:
  "verify_data env strict data = None \<longleftrightarrow>
     verify_lines env strict 0 '''' 0 (scan_lines data) = None \<and> scan_error data = None"
  by (auto simp: verify_data_def split: option.splits)

lemma log_holds_verifies:
  assumes "log_holds env (lg, s) es" "os_read_file (al_path lg) s = Inr data"
  shows "scan_error data = None" "read_entries env (scan_lines data) = Some es" "chain env '''' es"
    "verifyHITLAuditFileChain env False (al_path lg) s = None"
proof -
  from assms obtain ls where d: "data = file_of ls" and ls: "list_all line_ok ls"
    and es: "read_entries env ls = Some es" "chain env '''' es" by (auto simp: log_holds_def)
  note sc = scan_file_of [OF ls [unfolded list_all_iff]]
  show "scan_error data = None" "read_entries env (scan_lines data) = Some es" "chain env '''' es"
    using es sc d by simp_all
  with sc d es assms(2) show "verifyHITLAuditFileChain env False (al_path lg) s = None"
    by (simp add: verifyHITLAuditFileChain_def verify_data_iff verify_lines_iff)
qed

text \<open>Appending with a hash in memory that is not the file's last one breaks the chain.\<close>

lemma stale_append:
  assumes "os_read_file path t = Inr (file_of ls)" "list_all line_ok ls"
    and "read_entries env ls = Some es" "chain env [] es"
    and "al_path lg = path" "al_loaded lg"
    and "al_last_hash lg \<noteq> last_hash es" "al_last_hash lg \<in> insert [] (range (au_hash env))"
    and "event_ok env now e"
    and "LogHITLEvent env now e (lg, t) = (None, (lg', t'))"
  shows "VerifyHITLAuditFileChain env path t' \<noteq> None"
proof -
  define x where "x = sealed_entry env now (al_last_hash lg) e"
  have "storable env x \<and> (case json_marshal (au_ff env) (entry_value env x) of
      None \<Rightarrow> False | Some b \<Rightarrow> int (length b) < max_token)"
    using assms(8,9) unfolding event_ok_def x_def by blast
  then have ok: "storable env x" "\<And>b. json_marshal (au_ff env) (entry_value env x) = Some b \<Longrightarrow> int (length b) < max_token"
    by auto
  from storable_line(1) [OF ok(1)] obtain b where b: "json_marshal (au_ff env) (entry_value env x) = Some b"
    "b \<noteq> []" "printable b" "unmarshal_entry env b = Some (reread env x)" by blast
  have "os_append_file path (b @ [CHR 0x0A]) t = (Inr (), t')"
    using assms(5,6,10) b(1)
    by (auto simp: LogHITLEvent_def loadLastHashLocked_def x_def Let_def split: sum.splits prod.splits)
  from os_append_read [OF this] assms(1) have rd: "os_read_file path t' = Inr (file_of (ls @ [b]))"
    by (simp add: file_of_def)
  have "list_all line_ok (ls @ [b])" using assms(2) b ok(2) by (simp add: line_ok_def)
  note sc = scan_file_of [OF this [unfolded list_all_iff]]
  have re: "read_entries env (ls @ [b]) = Some (es @ [reread env x])" by (rule read_entries_snoc [OF b(2,4) assms(3)])
  have "\<not> chain env [] (es @ [reread env x])"
    using assms(4,7) by (auto simp: hash_chain_append reread_def x_def last_hash_def split: if_splits)
  with rd sc re show ?thesis
    by (simp add: VerifyHITLAuditFileChain_def verifyHITLAuditFileChain_def verify_data_iff verify_lines_iff)
qed

lemma LogHITLEvent_loaded: "al_loaded (fst (snd (LogHITLEvent env now e (lg, s))))"
proof -
  obtain r lg1 where ld: "loadLastHashLocked env lg s = (r, lg1)" by fastforce
  then have "al_loaded lg1"
    by (auto simp: loadLastHashLocked_def Let_def split: if_splits sum.splits option.splits)
  with ld show ?thesis by (auto simp: LogHITLEvent_def Let_def split: option.splits sum.splits prod.splits)
qed

lemma log_all_loaded: "al_loaded (fst st) \<or> evs \<noteq> [] \<Longrightarrow> al_loaded (fst (snd (log_all env evs st)))"
proof (induction evs arbitrary: st)
  case (Cons ev evs)
  obtain now e where ev: "ev = (now, e)" by fastforce
  obtain err st1 where l: "LogHITLEvent env now e st = (err, st1)" by (metis surj_pair)
  have "al_loaded (fst st1)" using LogHITLEvent_loaded [of env now e "fst st" "snd st"] l by simp
  with Cons.IH [of st1] ev l show ?case by (cases "log_all env evs st1") auto
qed simp

section \<open>A small environment\<close>

definition demo_audit :: audit_env where
  "demo_audit = \<lparr>au_hash = (\<lambda>s. if even (length s) then ''e'' else ''d''), au_utc = (\<lambda>_. ''t''), au_time = (\<lambda>_. ''t''),
     au_parse_time = (\<lambda>_. Some 5), au_ff = (\<lambda>_. None), au_pf = (\<lambda>_. None), au_ul = id\<rparr>"

definition demo_entry :: HITLAuditEntry where
  "demo_entry = blank_entry\<lparr>ha_event := ''x''\<rparr>"

definition demo_text :: "string \<Rightarrow> string" where
  "demo_text s = map (\<lambda>c. if c = CHR ''~'' then CHR 0x22 else c) s"

definition demo_files :: os_state where
  "demo_files =
     \<lparr>nodes = [(''/l'', File (demo_text ''{~timestamp~:~t~,~event~:~x~,~hash~:~d~}'' @ [CHR 0x0A])),
               (''/m'', File (demo_text '' {~event~: ~x~, ~hash~: ~d~, ~timestamp~: ~t~}''))],
      faulty = (\<lambda>_. False)\<rparr>"

lemma event_okI:
  assumes "ha_arguments e = GNil"
    and "\<And>h. h \<in> insert '''' (range (au_hash env)) \<Longrightarrow> storable env (sealed_entry env now h e)"
    and "\<And>h. h \<in> insert '''' (range (au_hash env)) \<Longrightarrow>
      int (json_bound (entry_tree env (sealed_entry env now h e) JNull)) < max_token"
  shows "event_ok env now e"
proof -
  have "ha_arguments (sealed_entry env now h e) = GNil" for h using assms(1) by (simp add: sealed_entry_def Let_def)
  then show ?thesis
    unfolding event_ok_def using assms(2,3) marshal_short [OF entry_value_tree] by blast
qed

lemma sealed_demo:
  assumes "ha_timestamp en = 0"
  shows "\<exists>x \<in> {''e'', ''d''}. sealed_entry demo_audit 5 h en = en\<lparr>ha_timestamp := 5, ha_prev_hash := h, ha_hash := x\<rparr>"
proof -
  have "computeHITLAuditHash demo_audit e \<in> {''e'', ''d''}" for e
    by (simp add: computeHITLAuditHash_def demo_audit_def)
  then show ?thesis
    by (rule bexI [rotated, where x = "computeHITLAuditHash demo_audit (en\<lparr>ha_timestamp := 5, ha_prev_hash := h\<rparr>)"])
      (simp add: sealed_entry_def Let_def assms)
qed

lemma demo_range: "insert '''' (range (au_hash demo_audit)) \<subseteq> {'''', ''e'', ''d''}"
  by (auto simp: demo_audit_def)

text \<open>Short entries without arguments can be logged in the small environment.\<close>

lemma demo_event_okI:
  assumes "ha_timestamp en = 0" "ha_arguments en = GNil" "0 \<le> ha_iteration en" "ha_iteration en < 10"
    and "list_all (\<lambda>s. list_all is_ascii s \<and> length s \<le> 100)
      [ha_event en, ha_tool en, ha_call_id en, ha_thread en, ha_request en, ha_args_hash en, ha_decision en, ha_error en]"
  shows "event_ok demo_audit 5 en"
proof (rule event_okI [OF assms(2)])
  fix h assume "h \<in> insert '''' (range (au_hash demo_audit))"
  with demo_range have h: "list_all is_ascii h" "length h \<le> 1" by (auto simp: is_ascii_def)
  obtain x where x: "x \<in> {''e'', ''d''}" and
    se: "sealed_entry demo_audit 5 h en = en\<lparr>ha_timestamp := 5, ha_prev_hash := h, ha_hash := x\<rparr>"
    using sealed_demo [OF assms(1)] by blast
  have xa: "list_all is_ascii x" "length x = 1" using x by (auto simp: is_ascii_def)
  have e: "au_time demo_audit = (\<lambda>_. ''t'')" "au_parse_time demo_audit = (\<lambda>_. Some 5)"
    "au_ff demo_audit = (\<lambda>_. None)" "au_pf demo_audit = (\<lambda>_. None)" by (simp_all add: demo_audit_def)
  show "storable demo_audit (sealed_entry demo_audit 5 h en)"
    unfolding storable_def se using assms(2-5) h(1) xa(1)
    by (simp add: e settled_def valid_utf8_ascii is_ascii_def)
  have i: "length (itoa_int (ha_iteration en)) \<le> 1"
    using assms(3,4) by (simp add: itoa_int_def) (subst itoa.simps, simp)
  define W where "W fs = sum_list (map (\<lambda>(k, v). 6 * length k + json_bound v + 4) fs)" for fs :: "(string \<times> json) list"
  have W: "W (a @ b) = W a + W b" "W ((k, v) # a) = 6 * length k + json_bound v + 4 + W a" "W [] = 0" for a b k v
    by (simp_all add: W_def)
  have str: "W (str_field k s) \<le> 6 * length k + 606" if "length s \<le> 100" for k s
    using that by (simp add: str_field_def W)
  have "json_bound (entry_tree demo_audit (en\<lparr>ha_timestamp := 5, ha_prev_hash := h, ha_hash := x\<rparr>) JNull) =
      2 + W ([(''timestamp'', JStr ''t'')] @ fields_tree (en\<lparr>ha_timestamp := 5, ha_prev_hash := h, ha_hash := x\<rparr>) JNull
        @ str_field ''hash'' x)"
    by (simp add: entry_tree_def e W_def)
  also have "\<dots> < 10000"
    using assms(2-5) h(2) xa(2) i
      str [of "ha_tool en" "''tool''"] str [of "ha_call_id en" "''tool_call_id''"] str [of "ha_thread en" "''thread_id''"]
      str [of "ha_request en" "''request_id''"] str [of "ha_args_hash en" "''args_hash''"]
      str [of "ha_decision en" "''decision''"] str [of "ha_error en" "''error''"] str [of h "''prev_hash''"] str [of x "''hash''"]
    by (simp add: fields_tree_def W)
  finally show "int (json_bound (entry_tree demo_audit (sealed_entry demo_audit 5 h en) JNull)) < max_token"
    by (simp add: se max_token_def)
qed

lemma demo_event_ok: "event_ok demo_audit 5 demo_entry"
  by (rule demo_event_okI) (simp_all add: demo_entry_def blank_entry_def is_ascii_def)

end
