(* ===== verification/Graph_World.thy ===== *)
theory Graph_World
  imports Graph
begin

text \<open>
  What a run does to the world: the locale \<open>run_world\<close> lifts a property of the trace so
  far and the world from the calls on the graph's interfaces to whole runs. Its instance in
  \<open>Agent_Audit\<close> is the audit file of an agent.
\<close>

locale run_world =
  fixes g :: "'w graph" and I :: "effect list \<Rightarrow> 'w \<Rightarrow> bool"
  assumes silent: "I tr w \<Longrightarrow> (\<And>en. e \<noteq> Audited en) \<Longrightarrow> I (tr @ [e]) w"
    and llm: "I tr w \<Longrightarrow> I tr (snd (g_llm g ms ts w))"
    and tool: "I tr w \<Longrightarrow> map_of (g_tools g) n = Some t \<Longrightarrow> I tr (snd (t_call t as w))"
    and approver: "I tr w \<Longrightarrow> I tr (snd (g_approver g meta n x w))"
    and load: "I tr w \<Longrightarrow> I tr (snd (g_load g tid w))"
    and save: "I tr w \<Longrightarrow> I tr (snd (g_save g tid st w))"
    and put: "I tr w \<Longrightarrow> I tr (snd (g_put g ns k v w))"
    and audit: "g_audit g = Some lg \<Longrightarrow> I tr w \<Longrightarrow> I (tr @ [Audited en]) (snd (lg en w))"
begin

abbreviation inv :: "'w run \<Rightarrow> bool" where
  "inv r \<equiv> I (r_trace r) (r_world r)"

lemma record_inv: "inv r \<Longrightarrow> (\<And>en. e \<noteq> Audited en) \<Longrightarrow> inv (record_effect e r)"
  by (simp add: silent)

lemma emit_inv: "inv r \<Longrightarrow> inv (emit g ev r)"
  by (simp add: silent)

lemma log_inv: "inv r \<Longrightarrow> inv (logHITLAudit g en r)"
  by (auto simp: logHITLAudit_def audit split: option.split)

lemma save_inv: "inv r \<Longrightarrow> inv (save_checkpoint g tid r)"
  by (simp add: silent save)

lemma ask_inv:
  assumes "inv r" shows "inv (snd (ask_approval g tid rid tc r))"
proof -
  let ?it = "st_iteration (r_state r)"
  let ?meta = "\<lparr>am_thread = tid, am_request = rid, am_call = tc_id tc, am_iteration = ?it\<rparr>"
  define r2 where "r2 = logHITLAudit g (request_entry g tid rid ?it tc) (emit g (EvHitlRequest (tc_name tc) (tc_id tc) ?it) r)"
  have r2: "inv r2" unfolding r2_def using assms by (intro log_inv emit_inv)
  obtain a w1 where a: "g_approver g ?meta (tc_name tc) (tc_arguments tc) (r_world r2) = (a, w1)" by fastforce
  define r3 where "r3 = record_effect (Approval ?meta (tc_name tc) (tc_arguments tc) a) (r2\<lparr>r_world := w1\<rparr>)"
  have r3: "inv r3" using approver [OF r2, of ?meta "tc_name tc" "tc_arguments tc"] a by (simp add: r3_def silent)
  show ?thesis
  proof (cases "snd a")
    case None
    with a r3 show ?thesis
      by (simp add: ask_approval_def Let_def r2_def [symmetric] r3_def [symmetric] log_inv emit_inv del: logHITLAudit_simps emit_simps)
  next
    case (Some e)
    have "inv (r3\<lparr>r_tool_errors := k\<rparr>)" for k using r3 by simp
    then have "inv (logHITLAudit g en (emit g ev (r3\<lparr>r_tool_errors := k\<rparr>)))" for en ev k by (intro log_inv emit_inv)
    with a Some show ?thesis
      by (simp add: ask_approval_def Let_def r2_def [symmetric] r3_def [symmetric] del: logHITLAudit_simps emit_simps)
  qed
qed

lemma run_tool_inv:
  assumes "inv r" "map_of (g_tools g) (tc_name tc) = Some t" shows "inv (run_tool g tid t tc r)"
proof -
  obtain res r1 where v: "validated_call g t tc r = (res, r1)" by fastforce
  have r1: "inv r1"
    using v assms(1) tool [OF _ assms(2), of "r_trace r" "r_world r" "call_args g tc"]
    by (auto simp: validated_call_def Let_def silent split: option.splits prod.splits)
  have e: "inv (record_effect (MemoryPut ns k x) (q\<lparr>r_world := snd (g_put g ns k x (r_world q))\<rparr>))"
    if "inv q" for q ns k x using that by (simp add: silent put)
  have l: "inv (emit g ev (record_effect (ToolLogged n as res) (r1\<lparr>r_tool_calls := i, r_tool_errors := j\<rparr>)))" for ev n as i j
    by (rule emit_inv) (simp add: silent r1)
  have "inv (add_message ro c q)" if "inv q" for ro c q using that by simp
  from this [OF l] show ?thesis unfolding run_tool_def v prod.case Let_def
    by (intro e) (simp del: emit_simps)
qed

lemma tool_step_inv:
  assumes "inv r" shows "inv (tool_step g tid rid tc r)"
proof (cases "map_of (g_tools g) (tc_name tc)")
  case None
  with assms show ?thesis by (simp add: tool_step_def)
next
  case (Some t)
  define r1 where "r1 = emit g (EvToolCall (tc_name tc) (tc_arguments tc) (st_iteration (r_state r))) r"
  have r1: "inv r1" unfolding r1_def using assms by (rule emit_inv)
  obtain ok r2 where a: "ask_approval g tid rid tc r1 = (ok, r2)" by fastforce
  with ask_inv [OF r1, of tid rid tc] have "inv r2" by simp
  with r1 run_tool_inv Some a show ?thesis by (simp add: tool_step_def Let_def r1_def [symmetric])
qed

lemma tool_steps_inv: "inv r \<Longrightarrow> inv (tool_steps g tid rid tcs r)"
  by (induction tcs arbitrary: r) (simp_all add: tool_step_inv)

lemma run_round_inv:
  assumes "inv r" "run_round g tid rid r = (out, s)" shows "inv s"
proof -
  obtain res r1 where m: "model_call g (next_iteration r) = (res, r1)" by fastforce
  have n: "inv (next_iteration r)" using assms(1) by simp
  obtain w1 where w1: "g_llm g (st_messages (r_state (next_iteration r))) (convertToolsToLLMFormat (g_tools g))
      (r_world (next_iteration r)) = (res, w1)"
    using m by (auto simp: model_call_def Let_def split: prod.splits)
  have q: "inv ((next_iteration r)\<lparr>r_world := w1, r_model_calls := k, r_model_errors := l\<rparr>)" for k l
    using llm [OF n, of "st_messages (r_state (next_iteration r))" "convertToolsToLLMFormat (g_tools g)"] w1
    by simp
  have r1: "inv r1"
    using m w1 emit_inv [OF record_inv [OF q]]
    by (auto simp: model_call_def Let_def simp del: emit_simps record_effect_simps next_iteration_simps)
  have msg: "inv (add_message ro c q)" if "inv q" for ro c q using that by simp
  have fin: "inv (q\<lparr>r_state := st\<rparr>)" if "inv q" for q st using that by simp
  show ?thesis
  proof (cases res)
    case (Inl e)
    with assms m r1 show ?thesis by (auto simp: run_round_def)
  next
    case (Inr ct)
    obtain content tcs where ct: "ct = (content, tcs)" by fastforce
    show ?thesis
    proof (cases "tcs = [] \<and> content \<noteq> ''''")
      case True
      have "inv (snd (final_answer g tid rid content r1))"
        unfolding final_answer_def Let_def snd_conv by (intro emit_inv save_inv fin msg r1)
      with True assms(2) m Inr ct show ?thesis by (auto simp: run_round_def split: prod.splits)
    next
      case False
      define r3 where "r3 = (let r2 = add_message ''assistant'' content r1 in
        if content \<noteq> '''' then emit g (EvMessage content (st_iteration (r_state r2))) r2 else r2)"
      have "inv r3" unfolding r3_def Let_def using emit_inv msg [OF r1] by auto
      then have "inv (save_checkpoint g tid (tool_steps g tid rid tcs r3))" by (intro save_inv tool_steps_inv)
      with False assms(2) m Inr ct show ?thesis by (auto simp: run_round_def r3_def Let_def)
    qed
  qed
qed

lemma run_loop_inv: "inv r \<Longrightarrow> inv (snd (run_loop g tid rid r))"
proof (induction "nat (20 - st_iteration (r_state r))" arbitrary: r rule: less_induct)
  case less
  obtain out s where rr: "run_round g tid rid r = (out, s)" by fastforce
  note s = run_round_inv [OF less.prems rr]
  have "inv (snd (run_loop g tid rid s))" if "out = None" "st_iteration (r_state r) < 20"
    by (rule less.hyps [OF _ s]) (use that rr run_round_iteration [of g tid rid r s] in simp)
  with s rr less.prems show ?case
    by (cases out) (simp_all add: run_loop.simps [of g tid rid r])
qed

lemma run_inv:
  assumes "I [] w" shows "inv (snd (Run g nano input w))"
proof -
  let ?tid = "in_thread input" and ?rid = "newRequestID (in_thread input) nano"
  have fin: "inv (finish_run g ?tid ?rid res r)" if "inv r" for res r
    using that by (cases res) (simp_all add: finish_run_def Let_def silent emit_inv del: emit_simps)
  obtain ld w1 where ld: "g_load g ?tid w = (ld, w1)" by fastforce
  have "I [Loaded ?tid] w1" using silent [OF load [OF assms, of ?tid], of "Loaded ?tid"] ld by simp
  then have start: "inv (start_run st w1 [Loaded ?tid])" for st by (simp add: start_run_def)
  show ?thesis
  proof (cases ld)
    case (Inl e)
    with ld fin [OF start] show ?thesis by (simp add: Run_def Let_def)
  next
    case (Inr loaded)
    obtain res r where lp: "run_loop g ?tid ?rid (start_run (initial_state g input loaded) w1 [Loaded ?tid]) = (res, r)"
      by fastforce
    with run_loop_inv [OF start] have "inv r" by (metis snd_conv)
    with ld Inr lp fin show ?thesis by (simp add: Run_def Let_def)
  qed
qed

end

end
