(* ===== verification/Agent_Audit.thy ===== *)
theory Agent_Audit
  imports Agent Audit_Runs Graph_World
begin

text \<open>
  The executor together with the audit logger: what a run leaves in the audit file of its
  agent (\<open>agent/graph.go\<close>, \<open>agent/hitl_audit.go\<close>).
\<close>

section \<open>The log of a run\<close>

definition audited_entries :: "effect list \<Rightarrow> HITLAuditEntry list" where
  "audited_entries tr = List.map_filter (\<lambda>e. case e of Audited en \<Rightarrow> Some en | _ \<Rightarrow> None) tr"

lemma audited_entries_simps [simp]:
  "audited_entries [] = []"
  "audited_entries (a @ b) = audited_entries a @ audited_entries b"
  "audited_entries [Audited en] = [en]"
  by (simp_all add: audited_entries_def map_filter_def)














section \<open>The property\<close>


section \<open>A concrete run\<close>

text \<open>The model calls the tool \<open>e\<close>, which needs an approval, and then answers.\<close>

type_synonym replies = "(string \<times> ToolCall list) list"

definition replying_llm :: "replies world llm" where
  "replying_llm ms ts w =
     (case w_rest w of [] \<Rightarrow> (Inl ''no reply'', w) | x # xs \<Rightarrow> (Inr x, w\<lparr>w_rest := xs\<rparr>))"

definition audited_graph :: "replies world graph" where
  "audited_graph = \<lparr>
     g_llm = replying_llm,
     g_tools = [(''e'', NewTool ''e'' '''' (\<lambda>as w. (Inr (GBool True), w)))], g_prompt = ''p'',
     g_load = (\<lambda>t w. (Inr None, w)), g_save = (\<lambda>t s w. (None, w)), g_put = (\<lambda>t k v w. (None, w)),
     g_hitl = [(''e'', True)], g_approver = (\<lambda>m n x w. ((''y'', None), w)),
     g_audit = Some (log_event id demo_audit (\<lambda>_. 5) 0), g_include_args = False,
     g_sink = False, g_hash = (\<lambda>s. ''f''), g_quote = id, g_fmt = (\<lambda>_. None), g_parse = (\<lambda>_. None),
     g_marshal_error = (\<lambda>_. '''')\<rparr>"





lemma log_event_rest [simp]: "w_rest (snd (log_event q env clock i en w)) = w_rest w"
  by (simp add: log_event_def split: prod.split)

lemma audited_graph_simps [simp]:
  "g_llm audited_graph = replying_llm" "g_sink audited_graph = False" "g_prompt audited_graph = ''p''"
  "g_tools audited_graph = [(''e'', NewTool ''e'' '''' (\<lambda>as w. (Inr (GBool True), w)))]"
  "g_load audited_graph = (\<lambda>t w. (Inr None, w))" "g_save audited_graph = (\<lambda>t s w. (None, w))"
  "g_put audited_graph = (\<lambda>t k v w. (None, w))" "g_hitl audited_graph = [(''e'', True)]"
  "g_approver audited_graph = (\<lambda>m n x w. ((''y'', None), w))"
  "g_audit audited_graph = Some (log_event id demo_audit (\<lambda>_. 5) 0)"
  by (simp_all add: audited_graph_def)

lemma no_sink [simp]: "emit audited_graph ev r = r"
  by (simp add: emit_def)






end
