(* ===== verification/Audit_Tamper.thy ===== *)
theory Audit_Tamper
  imports Audit_Chain
begin

text \<open>
  Entries read from a file can be written again, and the text that is hashed determines the
  hash of the entry before: so a chain is determined backwards by its last hash.
\<close>

text \<open>What \<open>strconv\<close> does: a float that was read is formatted, as a JSON number.\<close>

definition floats_ok :: "audit_env \<Rightarrow> bool" where
  "floats_ok env \<longleftrightarrow> fmt_ok (au_ff env) \<and> (\<forall>s w. au_pf env s = Some w \<longrightarrow> au_ff env w \<noteq> None)"

text \<open>A digest is a nonempty ASCII text.\<close>

definition digest_ok :: "audit_env \<Rightarrow> bool" where
  "digest_ok env \<longleftrightarrow> (\<forall>x. au_hash env x \<noteq> '''' \<and> list_all is_ascii (au_hash env x))"

lemma update_values: "set (AList.update k v m) \<subseteq> insert (k, v) (set m)"
  by (induction m) auto

lemma foldl_update_values: "set (foldl (\<lambda>m (k, v). AList.update k v m) m kvs) \<subseteq> set m \<union> set kvs"
proof (induction kvs arbitrary: m)
  case (Cons kv kvs)
  then show ?case using update_values [of "fst kv" "snd kv" m] by (fastforce split: prod.splits)
qed simp

lemma those_defined: "\<forall>x \<in> set xs. f x \<noteq> None \<Longrightarrow> those (map f xs) \<noteq> None"
  by (induction xs) auto

lemma any_of_tree:
  assumes "\<forall>s w. pf s = Some w \<longrightarrow> ff w \<noteq> None"
  shows "tree_of ff (any_of pf t) \<noteq> None"
proof (induction t)
  case (JArr xs)
  then have "those (map (tree_of ff \<circ> any_of pf) xs) \<noteq> None" by (intro those_defined) simp
  then show ?case by (simp add: comp_def)
next
  case (JObj kvs)
  let ?m = "foldl (\<lambda>m (k, v). AList.update k v m) [] (map (\<lambda>(k, v). (k, any_of pf v)) kvs)"
  have "\<forall>kv \<in> set ?m. (case kv of (k, v) \<Rightarrow> map_option (Pair k) (tree_of ff v)) \<noteq> None"
  proof
    fix kv assume "kv \<in> set ?m"
    then obtain k t where "(k, t) \<in> set kvs" "kv = (k, any_of pf t)"
      using foldl_update_values [of "[]" "map (\<lambda>(k, v). (k, any_of pf v)) kvs"] by auto
    with JObj show "(case kv of (k, v) \<Rightarrow> map_option (Pair k) (tree_of ff v)) \<noteq> None" by fastforce
  qed
  then have "those (map (\<lambda>(k, v). map_option (Pair k) (tree_of ff v)) ?m) \<noteq> None" by (rule those_defined)
  then show ?case by (simp only: any_of.simps tree_of.simps option.map_disc_iff not_False_eq_True)
next
  case (JNum s)
  with assms show ?case by (auto split: option.splits)
qed auto

lemma set_field_arguments:
  assumes "set_field env k v e = Some e'"
  shows "ha_arguments e' = ha_arguments e \<or> ha_arguments e' = any_of (au_pf env) v"
  using assms by (auto simp: set_field_def Let_def decode_any_def split: if_splits)

lemma read_arguments:
  assumes "floats_ok env" "unmarshal_entry env l = Some e"
  shows "\<exists>ta. tree_of (au_ff env) (ha_arguments e) = Some ta"
proof -
  have "decode_fields (set_field env) kvs x = Some e \<Longrightarrow> tree_of (au_ff env) (ha_arguments x) \<noteq> None \<Longrightarrow>
      tree_of (au_ff env) (ha_arguments e) \<noteq> None" for kvs x
  proof (induction kvs arbitrary: x)
    case (Cons kv kvs)
    then obtain y where y: "set_field env (fst kv) (snd kv) x = Some y" "decode_fields (set_field env) kvs y = Some e"
      by (cases kv) (auto split: bind_splits)
    have "tree_of (au_ff env) (any_of (au_pf env) (snd kv)) \<noteq> None"
      using any_of_tree assms(1) by (auto simp: floats_ok_def)
    with set_field_arguments [OF y(1)] Cons.prems(2) have "tree_of (au_ff env) (ha_arguments y) \<noteq> None" by auto
    with Cons.IH [OF y(2)] show ?case .
  qed simp
  from this [of _ blank_entry] assms(2) show ?thesis
    by (fastforce simp: unmarshal_entry_def blank_entry_def split: option.splits json.splits)
qed

text \<open>The hashed text determines the previous hash.\<close>

lemma map_of_field [simp]:
  "map_of (map (\<lambda>(k, v). (utf8_clean k, json_clean v)) (str_field k s)) n =
     (if s \<noteq> '''' \<and> n = utf8_clean k then Some (JStr (utf8_clean s)) else None)"
  by (simp add: str_field_def)

lemma clean_ascii: "list_all is_ascii s \<Longrightarrow> utf8_clean s = s"
  by (rule utf8_clean_valid [OF valid_utf8_ascii])

lemma clean_fields_prev:
  assumes "list_all is_ascii (ha_prev_hash e)"
  shows "map_of (map (\<lambda>(k, v). (utf8_clean k, json_clean v)) (fields_tree e ta)) ''prev_hash'' =
    (if ha_prev_hash e = '''' then None else Some (JStr (ha_prev_hash e)))"
  using assms by (simp add: fields_tree_def map_add_def clean_ascii is_ascii_def)

lemma payload_prev:
  assumes "floats_ok env" "payload_text env e = payload_text env f"
    and "tree_of (au_ff env) (ha_arguments e) = Some te" "tree_of (au_ff env) (ha_arguments f) = Some tf"
    and "list_all is_ascii (ha_prev_hash e)" "list_all is_ascii (ha_prev_hash f)"
  shows "ha_prev_hash e = ha_prev_hash f"
proof -
  have tr: "tree_of (au_ff env) (hash_payload env e) = Some (payload_tree env e te)"
    "tree_of (au_ff env) (hash_payload env f) = Some (payload_tree env f tf)"
    using assms(3,4) by (simp_all add: hash_payload_tree)
  have fmt: "fmt_ok (au_ff env)" using assms(1) by (simp add: floats_ok_def)
  from assms(2) tr have "print_json False 0 (payload_tree env e te) = print_json False 0 (payload_tree env f tf)"
    by (simp add: payload_text_def json_marshal_def)
  then have "json_clean (payload_tree env e te) = json_clean (payload_tree env f tf)"
    using parse_print_clean [OF tree_of_ok [OF fmt tr(1)], of False 0]
      parse_print_clean [OF tree_of_ok [OF fmt tr(2)], of False 0] by simp
  then have "map (\<lambda>(k, v). (utf8_clean k, json_clean v)) (fields_tree e te) =
      map (\<lambda>(k, v). (utf8_clean k, json_clean v)) (fields_tree f tf)" by (simp add: payload_tree_def)
  then show ?thesis
    using clean_fields_prev [OF assms(5), of te] clean_fields_prev [OF assms(6), of tf] by (auto split: if_splits)
qed

lemma read_entries_each:
  assumes "read_entries env ls = Some es" "e \<in> set es" shows "\<exists>l. unmarshal_entry env l = Some e"
proof -
  from those_ok [OF assms(1) [unfolded read_entries_def]] assms(2)
  have "Some e \<in> set (map (unmarshal_entry env) (filter (\<lambda>l. l \<noteq> '''') ls))" by simp
  then show ?thesis by force
qed

lemma chain_prev_ascii:
  assumes "chain env h es" "e \<in> set es" "digest_ok env" "list_all is_ascii h"
  shows "list_all is_ascii (ha_prev_hash e)"
  using assms
proof (induction es arbitrary: h)
  case (Cons x es)
  from Cons.prems(1,3) have "list_all is_ascii (ha_hash x)"
    by (simp add: digest_ok_def computeHITLAuditHash_def)
  with Cons show ?case by auto
qed simp

text \<open>Two chains with one last hash have the same hashed texts, backwards to the start.\<close>

lemma chains_agree:
  assumes "chain env '''' es" "chain env '''' fs" "last_hash es = last_hash fs"
    and "floats_ok env" "digest_ok env" "inj_on (au_hash env) (payload_text env ` (set es \<union> set fs))"
    and "\<forall>e \<in> set es \<union> set fs. \<exists>l. unmarshal_entry env l = Some e"
  shows "map (payload_text env) es = map (payload_text env) fs"
  using assms(1-3,6,7)
proof (induction es arbitrary: fs rule: rev_induct)
  case Nil
  then have "last_hash fs = ''''" by (simp add: last_hash_def)
  then show ?case
    using Nil.prems(2) assms(5)
    by (cases fs rule: rev_cases) (auto simp: last_hash_def hash_chain_append computeHITLAuditHash_def digest_ok_def dest: sym)
next
  case (snoc e es)
  have ne: "ha_hash e \<noteq> ''''" and he: "ha_hash e = computeHITLAuditHash env e" and ce: "chain env '''' es"
    "ha_prev_hash e = last_hash es"
    using snoc.prems(1) assms(5) by (simp_all add: hash_chain_append computeHITLAuditHash_def digest_ok_def last_hash_def)
  from ne snoc.prems(3) have "fs \<noteq> []" by (auto simp: last_hash_def)
  then obtain gs f where fs: "fs = gs @ [f]" by (cases fs rule: rev_cases) simp_all
  have hf: "ha_hash f = computeHITLAuditHash env f" and cf: "chain env '''' gs" "ha_prev_hash f = last_hash gs"
    using snoc.prems(2) fs by (simp_all add: hash_chain_append last_hash_def)
  from snoc.prems(3) fs have "ha_hash e = ha_hash f" by (simp add: last_hash_def)
  with he hf have "au_hash env (payload_text env e) = au_hash env (payload_text env f)"
    unfolding computeHITLAuditHash_def by metis
  then have pt: "payload_text env e = payload_text env f"
    by (rule inj_onD [OF snoc.prems(4)]) (simp_all add: fs)
  obtain te tf where "tree_of (au_ff env) (ha_arguments e) = Some te" "tree_of (au_ff env) (ha_arguments f) = Some tf"
    using read_arguments [OF assms(4)] snoc.prems(5) fs by (metis UnCI in_set_conv_decomp)
  moreover have "list_all is_ascii (ha_prev_hash e)" "list_all is_ascii (ha_prev_hash f)"
    using chain_prev_ascii [OF snoc.prems(1) _ assms(5)] chain_prev_ascii [OF snoc.prems(2) _ assms(5)] fs by simp_all
  ultimately have "last_hash es = last_hash gs"
    using payload_prev [OF assms(4) pt] ce(2) cf(2) by simp
  moreover have "inj_on (au_hash env) (payload_text env ` (set es \<union> set gs))"
    using snoc.prems(4) fs by (auto intro: inj_on_subset)
  ultimately show ?case
    using snoc.IH [OF ce(1) cf(1)] snoc.prems(5) fs pt by auto
qed

end
