(* ===== verification/Audit_Claims.thy ===== *)
theory Audit_Claims
  imports Audit_Tamper Audit_Runs
begin

text \<open>
  The properties of \<open>agent/hitl_audit.go\<close>: what verification accepts, that the logger's
  files are accepted across restarts, that an accepted file is determined by its last hash,
  and where the chain fails.
\<close>

section \<open>Properties\<close>

text \<open>
  C29: verification accepts a file exactly when its lines are short enough to scan, each
  nonempty one decodes to an entry, every entry has the hash of its own content and the hash
  of the entry before it; strict verification also asks that timestamps never go back and
  that every entry carries the fields its event needs.
\<close>

theorem verification_accepts_iff:
  "verifyHITLAuditFileChain env strict path s = None \<longleftrightarrow>
     (\<exists>data es. os_read_file path s = Inr data \<and> scan_error data = None \<and>
        read_entries env (scan_lines data) = Some es \<and> chain env '''' es \<and>
        (if strict then list_all complete es \<and> sorted (map ha_timestamp es) else True))"
  by (cases "os_read_file path s")
    (auto simp: verifyHITLAuditFileChain_def verify_data_iff verify_lines_iff strictly_def split: option.splits)



text \<open>
  C31: the chain is tamper evident up to its last hash: if no two of the texts hashed in two
  accepted files collide, and the files end in the same hash, then they hold the same hashed
  texts in the same order. (Cutting entries off the end changes the last hash and nothing
  else, so only a copy of that hash kept elsewhere shows it.)
\<close>

theorem audit_chain_tamper_evident:
  assumes "floats_ok env" "digest_ok env"
    and "verifyHITLAuditFileChain env b1 path1 s1 = None" "verifyHITLAuditFileChain env b2 path2 s2 = None"
    and "os_read_file path1 s1 = Inr data1" "read_entries env (scan_lines data1) = Some es1"
    and "os_read_file path2 s2 = Inr data2" "read_entries env (scan_lines data2) = Some es2"
    and "inj_on (au_hash env) (payload_text env ` (set es1 \<union> set es2))"
    and "last_hash es1 = last_hash es2"
  shows "map (payload_text env) es1 = map (payload_text env) es2"
proof (rule chains_agree [OF _ _ assms(10) assms(1,2,9)])
  show "chain env '''' es1" "chain env '''' es2"
    using assms(3-8) by (auto simp: verifyHITLAuditFileChain_def verify_data_iff verify_lines_iff)
  show "\<forall>e \<in> set es1 \<union> set es2. \<exists>l. unmarshal_entry env l = Some e"
    using read_entries_each assms(6,8) by blast
qed

definition file_entries :: "string \<Rightarrow> HITLAuditEntry list option" where
  "file_entries p =
     (case os_read_file p demo_files of Inl _ \<Rightarrow> None | Inr data \<Rightarrow> read_entries demo_audit (scan_lines data))"

lemma demo_env_ok: "floats_ok demo_audit" "digest_ok demo_audit"
  by (simp_all add: floats_ok_def fmt_ok_def digest_ok_def demo_audit_def is_ascii_def)

lemma audit_chain_tamper_evident_witness:
  "\<exists>es fs. file_entries ''/l'' = Some es \<and> file_entries ''/m'' = Some fs \<and>
     map (payload_text demo_audit) es = map (payload_text demo_audit) fs"
proof -
  have v: "verifyHITLAuditFileChain demo_audit False ''/l'' demo_files = None"
    "verifyHITLAuditFileChain demo_audit True ''/m'' demo_files = None" by code_simp+
  then obtain d1 es d2 fs where
    rd: "os_read_file ''/l'' demo_files = Inr d1" "read_entries demo_audit (scan_lines d1) = Some es"
      "os_read_file ''/m'' demo_files = Inr d2" "read_entries demo_audit (scan_lines d2) = Some fs"
    unfolding verification_accepts_iff by blast
  then have es: "file_entries ''/l'' = Some es" "file_entries ''/m'' = Some fs" by (simp_all add: file_entries_def)
  have "(case (file_entries ''/l'', file_entries ''/m'') of
      (Some es, Some fs) \<Rightarrow> last_hash es = last_hash fs \<and> length (remdups (map (payload_text demo_audit) (es @ fs))) = 1
    | _ \<Rightarrow> False)" by code_simp
  with es have lh: "last_hash es = last_hash fs"
    and one: "length (remdups (map (payload_text demo_audit) (es @ fs))) = 1" by simp_all
  have "card (payload_text demo_audit ` (set es \<union> set fs)) = 1"
    using one by (simp add: length_remdups_card_conv image_Un)
  then have "inj_on (au_hash demo_audit) (payload_text demo_audit ` (set es \<union> set fs))"
    by (auto simp: card_1_singleton_iff)
  from audit_chain_tamper_evident [OF demo_env_ok v rd this lh] es show ?thesis by blast
qed

text \<open>
  C33: a read that fails once breaks the chain for good: the logger marks itself loaded
  before it has read the last hash, so when the file is readable again the next event is
  appended with an empty previous hash, and the file is not accepted any more.
\<close>

theorem failed_load_breaks_chain:
  assumes "digest_ok env"
    and "os_read_file path s = Inl err" "\<not> is_not_exist err"
    and "LogHITLEvent env now0 e0 (fresh_logger path, s) = (r0, (lg, s'))"
    and "os_read_file path t = Inr (file_of ls)" "list_all line_ok ls"
    and "read_entries env ls = Some es" "chain env '''' es" "es \<noteq> []"
    and "event_ok env now e"
    and "LogHITLEvent env now e (lg, t) = (None, (lg', t'))"
  shows "r0 = Some err \<and> VerifyHITLAuditFileChain env path t' \<noteq> None"
proof -
  have lg: "lg = (fresh_logger path)\<lparr>al_loaded := True\<rparr>" "r0 = Some err"
    using assms(2-4) by (auto simp: LogHITLEvent_def loadLastHashLocked_def fresh_logger_def)
  have "last_hash es \<noteq> []"
    using assms(1,8,9) by (cases es rule: rev_cases)
      (auto simp: last_hash_def hash_chain_append computeHITLAuditHash_def digest_ok_def dest: sym)
  with stale_append [OF assms(5-8) _ _ _ _ assms(10,11)] lg show ?thesis by (simp add: fresh_logger_def)
qed

lemma failed_load_breaks_chain_witness:
  "\<exists>t'. VerifyHITLAuditFileChain demo_audit ''/l'' t' \<noteq> None"
proof -
  let ?f = "fresh_logger ''/l''" and ?e = "(ErrOs ''open'' ''/l'' EIO)"
  let ?s = "demo_files\<lparr>faulty := (\<lambda>_. True)\<rparr>" and ?l = "demo_text ''{~timestamp~:~t~,~event~:~x~,~hash~:~d~}''"
  have s: "os_read_file ''/l'' ?s = Inl ?e" "\<not> is_not_exist ?e" by code_simp+
  let ?R = "LogHITLEvent demo_audit 5 demo_entry (?f, ?s)"
  obtain r lg s' where R: "?R = (r, (lg, s'))" by (metis prod.exhaust)
  have t: "os_read_file ''/l'' demo_files = Inr (file_of [?l])" "list_all line_ok [?l]" by code_simp+
  have "(case read_entries demo_audit [?l] of None \<Rightarrow> False | Some es \<Rightarrow> chain demo_audit '''' es \<and> es \<noteq> [])"
    by code_simp
  then obtain es where es: "read_entries demo_audit [?l] = Some es" "chain demo_audit '''' es" "es \<noteq> []"
    by (auto split: option.splits)
  have lg: "lg = ?f\<lparr>al_loaded := True\<rparr>"
    using R s by (auto simp: LogHITLEvent_def loadLastHashLocked_def fresh_logger_def)
  let ?T = "LogHITLEvent demo_audit 5 demo_entry (?f\<lparr>al_loaded := True\<rparr>, demo_files)"
  have "fst ?T = None" by code_simp
  then obtain lg' t' where T: "LogHITLEvent demo_audit 5 demo_entry (lg, demo_files) = (None, (lg', t'))"
    unfolding lg by (metis prod.exhaust fst_conv)
  from failed_load_breaks_chain [OF demo_env_ok(2) s R t es demo_event_ok T] show ?thesis by blast
qed

text \<open>
  C32: two loggers on one file break its chain: each remembers the last hash it has written
  and reads the file only once, so when a second logger has added events of its own, the next
  event of the first one makes the file invalid, although it was valid up to there. (The hashes
  the two remember differ unless SHA-256 collides.)
\<close>

theorem two_loggers_break_chain:
  assumes "os_read_file path s = Inl err"
    and "\<forall>(now, e) \<in> set (evs1 @ evs2). event_ok env now e" "event_ok env now3 e3"
    and "evs1 \<noteq> []" "log_all env evs1 (fresh_logger path, s) = (fs1, (lg1, s1))"
    and "evs2 \<noteq> []" "log_all env evs2 (fresh_logger path, s1) = (fs2, (lg2, s2))"
    and "al_last_hash lg1 \<noteq> al_last_hash lg2"
    and "LogHITLEvent env now3 e3 (lg1, s2) = (None, (lg3, s3))"
  shows "VerifyHITLAuditFileChain env path s2 = None \<and> VerifyHITLAuditFileChain env path s3 \<noteq> None"
proof -
  have "log_holds env (fresh_logger path, s) []"
    using assms(1) by (simp add: log_holds_def fresh_logger_def read_entries_def)
  from log_all_holds [OF this _ assms(5)] assms(2) obtain es1 where
    p1: "al_path lg1 = path" and h1: "log_holds env (lg1, s1) es1" by (auto simp: fresh_logger_def)
  from log_all_holds [OF log_holds_reopened [OF h1 p1] _ assms(7)] assms(2) obtain es2 where
    p2: "al_path lg2 = path" and h2: "log_holds env (lg2, s2) (es1 @ es2)" by (auto simp: fresh_logger_def)
  have ld: "al_loaded lg1" "al_loaded lg2"
    using log_all_loaded [of "(fresh_logger path, s)" evs1 env] log_all_loaded [of "(fresh_logger path, s1)" evs2 env]
      assms(4-7) by simp_all
  have lh: "al_last_hash lg1 = last_hash es1" "chain env '''' es1" "al_last_hash lg2 = last_hash (es1 @ es2)"
    using h1 h2 ld by (auto simp: log_holds_def)
  obtain ls where ls: "os_read_file path s2 = Inr (file_of ls) \<or> ls = []" "list_all line_ok ls"
    "read_entries env ls = Some (es1 @ es2)" "chain env '''' (es1 @ es2)"
    using h2 p2 by (auto simp: log_holds_def)
  have "ls \<noteq> []" using ls(3) assms(8) lh by (auto simp: read_entries_def)
  with ls(1) have rd: "os_read_file path s2 = Inr (file_of ls)" by simp
  have "VerifyHITLAuditFileChain env path s2 = None"
    using log_holds_verifies(4) [OF h2, unfolded p2, OF rd] by (simp add: VerifyHITLAuditFileChain_def)
  moreover have "VerifyHITLAuditFileChain env path s3 \<noteq> None"
    using stale_append [OF rd ls(2-4) p1 ld(1) _ _ assms(3,9)] assms(8) lh last_hash_range [OF lh(2)] by simp
  ultimately show ?thesis by simp
qed

lemma two_loggers_break_chain_witness:
  "\<exists>s3. VerifyHITLAuditFileChain demo_audit ''/l'' s3 \<noteq> None"
proof -
  let ?s = "\<lparr>nodes = [], faulty = (\<lambda>_. False)\<rparr>" and ?f = "fresh_logger ''/l''"
  let ?e = "demo_entry\<lparr>ha_event := ''xx''\<rparr>"
  let ?A = "log_all demo_audit [(5, demo_entry)] (?f, ?s)"
  obtain fs1 lg1 s1 where A: "?A = (fs1, (lg1, s1))" by (metis prod.exhaust)
  obtain fs2 lg2 s2 where B: "log_all demo_audit [(5, ?e)] (?f, s1) = (fs2, (lg2, s2))" by (metis prod.exhaust)
  obtain r lg3 s3 where C: "LogHITLEvent demo_audit 5 demo_entry (lg1, s2) = (r, (lg3, s3))" by (metis prod.exhaust)
  have "(let A = ?A; B = log_all demo_audit [(5, ?e)] (?f, snd (snd A))
      in al_last_hash (fst (snd A)) \<noteq> al_last_hash (fst (snd B)) \<and>
         fst (LogHITLEvent demo_audit 5 demo_entry (fst (snd A), snd (snd B))) = None)" by code_simp
  then have n: "al_last_hash lg1 \<noteq> al_last_hash lg2" "r = None"
    unfolding Let_def A fst_conv snd_conv B C by blast+
  have m: "os_read_file ''/l'' ?s = Inl (ErrOs ''open'' ''/l'' ENOENT)" by code_simp
  have "event_ok demo_audit 5 ?e"
    by (rule demo_event_okI) (simp_all add: demo_entry_def blank_entry_def is_ascii_def)
  then have ev: "\<forall>(now, e) \<in> set ([(5, demo_entry)] @ [(5, ?e)]). event_ok demo_audit now e"
    using demo_event_ok by simp
  from two_loggers_break_chain [OF m ev demo_event_ok _ A _ B n(1) C [unfolded n(2)]] show ?thesis by blast
qed

end
