(* ===== verification/Loggers.thy ===== *)
theory Loggers
  imports Graph Audit_Lines
begin

text \<open>
  \<open>agent/logging.go\<close>, \<open>agent/json_logger.go\<close> and the metrics collector: the events
  a run logs and what the loggers do with them. The interface \<open>Logger\<close> is a record of
  functions over the logger's state; an event is a pointer, so it can be nil.

  Parameters (\<open>log_env\<close>): the formats of times and durations, \<open>%v\<close> of a value,
  the text of a marshal error, the float conversions. Output that cannot be written is lost
  without an error, as in the program, so standard output is the text written to it.
\<close>

section \<open>Events\<close>

record ToolCallEvent =
  te_tool :: string
  te_args :: "args option"
  te_result :: gval
  te_error :: "string option"
  te_duration :: int
  te_timestamp :: int
  te_thread :: string
  te_request :: string

record ModelCallEvent =
  me_model :: string
  me_messages :: nat
  me_tools :: nat
  me_duration :: int
  me_timestamp :: int
  me_thread :: string
  me_request :: string
  me_error :: "string option"

record RunSummaryEvent =
  se_thread :: string
  se_request :: string
  se_duration :: int
  se_iterations :: int
  se_model_calls :: nat
  se_model_errors :: nat
  se_tool_calls :: nat
  se_tool_errors :: nat
  se_error_rate :: "64 word"
  se_error :: string

record 's logger =
  LogToolCall :: "ToolCallEvent option \<Rightarrow> 's \<Rightarrow> 's"
  LogModelCall :: "ModelCallEvent option \<Rightarrow> 's \<Rightarrow> 's"
  LogRunSummary :: "RunSummaryEvent option \<Rightarrow> 's \<Rightarrow> 's"

record log_env =
  le_second :: "int \<Rightarrow> string"        \<comment> \<open>\<open>Format("2006-01-02T15:04:05")\<close>\<close>
  le_nano :: "int \<Rightarrow> string"          \<comment> \<open>\<open>Format(time.RFC3339Nano)\<close>\<close>
  le_duration :: "int \<Rightarrow> string"
  le_seconds :: "int \<Rightarrow> 64 word"
  le_value :: "gval \<Rightarrow> string"
  le_percent :: "64 word \<Rightarrow> string"   \<comment> \<open>\<open>%.2f\<close> of a hundred times the rate\<close>
  le_marshal_error :: "gval \<Rightarrow> string"
  le_ff :: fmt_float

section \<open>\<open>SimpleLogger\<close>\<close>

definition call_status :: "string option \<Rightarrow> string" where
  "call_status err = (if err = None then ''success'' else ''error'')"

definition out_line :: "string \<Rightarrow> string" where
  "out_line s = s @ [CHR 0x0A]"

definition error_line :: "string option \<Rightarrow> string" where
  "error_line err = (case err of None \<Rightarrow> '''' | Some e \<Rightarrow> out_line (''  Error: '' @ e))"

definition args_value :: "args option \<Rightarrow> gval" where
  "args_value as = GObj (case as of None \<Rightarrow> [] | Some kvs \<Rightarrow> kvs)"

definition simple_tool_call :: "log_env \<Rightarrow> ToolCallEvent \<Rightarrow> string" where
  "simple_tool_call le ev =
     out_line (''['' @ le_second le (te_timestamp ev) @ ''] TOOL CALL '' @ te_tool ev @ '': '' @ call_status (te_error ev)
       @ '' (took '' @ le_duration le (te_duration ev) @ '')'')
     @ error_line (te_error ev)
     @ out_line (''  Args: '' @ le_value le (args_value (te_args ev)))
     @ out_line (''  Result: '' @ le_value le (te_result ev))
     @ out_line (''  ThreadID: '' @ te_thread ev)
     @ out_line (''  RequestID: '' @ te_request ev)"

definition simple_model_call :: "log_env \<Rightarrow> ModelCallEvent \<Rightarrow> string" where
  "simple_model_call le ev =
     out_line (''['' @ le_second le (me_timestamp ev) @ ''] MODEL CALL '' @ me_model ev @ '': '' @ call_status (me_error ev)
       @ '' (messages='' @ itoa (me_messages ev) @ '' tools='' @ itoa (me_tools ev)
       @ '' took '' @ le_duration le (me_duration ev) @ '')'')
     @ error_line (me_error ev)
     @ out_line (''  ThreadID: '' @ me_thread ev)
     @ out_line (''  RequestID: '' @ me_request ev)"

definition simple_run_summary :: "log_env \<Rightarrow> RunSummaryEvent \<Rightarrow> string" where
  "simple_run_summary le ev =
     out_line (''[RUN SUMMARY] thread='' @ se_thread ev @ '' request='' @ se_request ev
       @ '' duration='' @ le_duration le (se_duration ev) @ '' iterations='' @ itoa_int (se_iterations ev)
       @ '' model_calls='' @ itoa (se_model_calls ev) @ '' model_errors='' @ itoa (se_model_errors ev)
       @ '' tool_calls='' @ itoa (se_tool_calls ev) @ '' tool_errors='' @ itoa (se_tool_errors ev)
       @ '' tool_error_rate='' @ le_percent le (se_error_rate ev) @ ''%'')
     @ error_line (if se_error ev = '''' then None else Some (se_error ev))"

definition SimpleLogger :: "log_env \<Rightarrow> string logger" where
  "SimpleLogger le =
     \<lparr>LogToolCall = (\<lambda>e out. case e of None \<Rightarrow> out | Some ev \<Rightarrow> out @ simple_tool_call le ev),
      LogModelCall = (\<lambda>e out. case e of None \<Rightarrow> out | Some ev \<Rightarrow> out @ simple_model_call le ev),
      LogRunSummary = (\<lambda>e out. case e of None \<Rightarrow> out | Some ev \<Rightarrow> out @ simple_run_summary le ev)\<rparr>"

section \<open>\<open>NoOpLogger\<close> and \<open>ContextLogger\<close>\<close>

definition NoOpLogger :: "'s logger" where
  "NoOpLogger = \<lparr>LogToolCall = (\<lambda>e s. s), LogModelCall = (\<lambda>e s. s), LogRunSummary = (\<lambda>e s. s)\<rparr>"

record context_log =
  ToolEvents :: "ToolCallEvent list"
  ModelEvents :: "ModelCallEvent list"
  RunSummaries :: "RunSummaryEvent list"

definition NewContextLogger :: context_log where
  "NewContextLogger = \<lparr>ToolEvents = [], ModelEvents = [], RunSummaries = []\<rparr>"

definition kept :: "'a option \<Rightarrow> 'a list" where
  "kept e = (case e of None \<Rightarrow> [] | Some ev \<Rightarrow> [ev])"

definition ContextLogger :: "context_log logger" where
  "ContextLogger =
     \<lparr>LogToolCall = (\<lambda>e s. s\<lparr>ToolEvents := ToolEvents s @ kept e\<rparr>),
      LogModelCall = (\<lambda>e s. s\<lparr>ModelEvents := ModelEvents s @ kept e\<rparr>),
      LogRunSummary = (\<lambda>e s. s\<lparr>RunSummaries := RunSummaries s @ kept e\<rparr>)\<rparr>"

text \<open>A context is a list of keys with values; \<open>context.WithValue\<close> puts one in front.\<close>

definition ContextWithLogger :: "(string \<times> 's logger) list \<Rightarrow> 's logger \<Rightarrow> (string \<times> 's logger) list" where
  "ContextWithLogger ctx lg = (''logger'', lg) # ctx"

definition LoggerFromContext :: "(string \<times> 's logger) list \<Rightarrow> 's logger" where
  "LoggerFromContext ctx = (case map_of ctx ''logger'' of Some lg \<Rightarrow> lg | None \<Rightarrow> NoOpLogger)"

section \<open>Metrics\<close>

record 'm collector =
  RecordToolCall :: "ToolCallEvent option \<Rightarrow> 'm \<Rightarrow> 'm"
  RecordModelCall :: "ModelCallEvent option \<Rightarrow> 'm \<Rightarrow> 'm"
  RecordRunSummary :: "RunSummaryEvent option \<Rightarrow> 'm \<Rightarrow> 'm"
  Metrics :: "string option option"   \<comment> \<open>none: not a \<open>MetricsProvider\<close>\<close>

text \<open>
  The Prometheus client is a parameter: a new registry, registering metrics with their labels
  (none is the panic of \<open>MustRegister\<close>), \<open>Inc\<close> and \<open>Observe\<close> of a metric
  for label values.
\<close>

record 'm prometheus =
  pr_new :: "'m \<Rightarrow> string \<times> 'm"
  pr_register :: "string \<Rightarrow> (string \<times> string list) list \<Rightarrow> 'm \<Rightarrow> 'm option"
  pr_inc :: "string \<Rightarrow> string list \<Rightarrow> 'm \<Rightarrow> 'm"
  pr_observe :: "string \<Rightarrow> string list \<Rightarrow> int \<Rightarrow> 'm \<Rightarrow> 'm"

definition prometheus_metrics :: "(string \<times> string list) list" where
  "prometheus_metrics =
     [(''deepagent_tool_calls_total'', [''tool'', ''result'']),
      (''deepagent_tool_call_duration_seconds'', [''tool'']),
      (''deepagent_model_calls_total'', [''model'', ''result'']),
      (''deepagent_model_call_duration_seconds'', [''model'']),
      (''deepagent_run_duration_seconds'', [])]"

definition result_label :: "string option \<Rightarrow> string" where
  "result_label err = (if err = None then ''ok'' else ''error'')"

definition record_tool_call :: "'m prometheus \<Rightarrow> ToolCallEvent option \<Rightarrow> 'm \<Rightarrow> 'm" where
  "record_tool_call pr e m =
     (case e of None \<Rightarrow> m
      | Some ev \<Rightarrow>
          pr_observe pr ''deepagent_tool_call_duration_seconds'' [te_tool ev] (te_duration ev)
            (pr_inc pr ''deepagent_tool_calls_total'' [te_tool ev, result_label (te_error ev)] m))"

definition record_model_call :: "'m prometheus \<Rightarrow> ModelCallEvent option \<Rightarrow> 'm \<Rightarrow> 'm" where
  "record_model_call pr e m =
     (case e of None \<Rightarrow> m
      | Some ev \<Rightarrow>
          pr_observe pr ''deepagent_model_call_duration_seconds'' [me_model ev] (me_duration ev)
            (pr_inc pr ''deepagent_model_calls_total'' [me_model ev, result_label (me_error ev)] m))"

definition record_run_summary :: "'m prometheus \<Rightarrow> RunSummaryEvent option \<Rightarrow> 'm \<Rightarrow> 'm" where
  "record_run_summary pr e m =
     (case e of None \<Rightarrow> m
      | Some ev \<Rightarrow> pr_observe pr ''deepagent_run_duration_seconds'' [] (se_duration ev) m)"

text \<open>A collector over a registry, a new one if none is given; none is the panic.\<close>

definition NewPrometheusCollector :: "'m prometheus \<Rightarrow> string option \<Rightarrow> 'm \<Rightarrow> ('m collector \<times> 'm) option" where
  "NewPrometheusCollector pr registry m =
     (case (case registry of None \<Rightarrow> pr_new pr m | Some r \<Rightarrow> (r, m)) of (reg, m1) \<Rightarrow>
        map_option (\<lambda>m2. (\<lparr>RecordToolCall = record_tool_call pr, RecordModelCall = record_model_call pr,
            RecordRunSummary = record_run_summary pr, Metrics = Some (Some reg)\<rparr>, m2))
          (pr_register pr reg prometheus_metrics m1))"

text \<open>Without the build tag there is no collector.\<close>

definition NewPrometheusCollector_stub :: "'m collector option" where
  "NewPrometheusCollector_stub = None"

definition GetPrometheusRegistry :: "'m collector option \<Rightarrow> string option" where
  "GetPrometheusRegistry metrics =
     (case metrics of None \<Rightarrow> None
      | Some c \<Rightarrow> (case Metrics c of Some r \<Rightarrow> r | None \<Rightarrow> None))"

text \<open>\<open>handler_for\<close> is the handler the client library makes for a registry.\<close>

definition GetPrometheusHTTPHandler :: "(string \<Rightarrow> 'h) \<Rightarrow> 'm collector option \<Rightarrow> 'h option" where
  "GetPrometheusHTTPHandler handler_for metrics = map_option handler_for (GetPrometheusRegistry metrics)"

definition GetPrometheusHTTPHandler_stub :: "'m collector option \<Rightarrow> 'h option" where
  "GetPrometheusHTTPHandler_stub metrics = None"

section \<open>\<open>JSONLogger\<close>\<close>

text \<open>The line of a value: on a marshal error a text that need not be JSON.\<close>

definition json_line :: "log_env \<Rightarrow> gval \<Rightarrow> string" where
  "json_line le v =
     (case json_marshal (le_ff le) v of
        Some b \<Rightarrow> b
      | None \<Rightarrow>
          let dq = CHR 0x22
          in ''{'' @ dq # ''level'' @ dq # '':'' @ dq # ''error'' @ dq # '','' @ dq # ''error'' @ dq # '':'' @ dq
             # ''json marshal failed: '' @ le_marshal_error le v @ dq # ''}'')"

definition with_error :: "string option \<Rightarrow> args \<Rightarrow> args" where
  "with_error err kvs =
     (case err of None \<Rightarrow> kvs
      | Some e \<Rightarrow> AList.update ''error'' (GStr e) (AList.update ''level'' (GStr ''error'') kvs))"

definition nullable_args :: "args option \<Rightarrow> gval" where
  "nullable_args as = (case as of None \<Rightarrow> GNil | Some kvs \<Rightarrow> GObj kvs)"

definition tool_call_fields :: "log_env \<Rightarrow> ToolCallEvent \<Rightarrow> args" where
  "tool_call_fields le ev = with_error (te_error ev)
     [(''ts'', GStr (le_nano le (te_timestamp ev))), (''level'', GStr ''info''), (''type'', GStr ''tool_call''),
      (''tool'', GStr (te_tool ev)), (''duration'', GFloat (le_seconds le (te_duration ev))),
      (''args'', nullable_args (te_args ev)), (''result'', te_result ev),
      (''thread'', GStr (te_thread ev)), (''request'', GStr (te_request ev))]"

definition model_call_fields :: "log_env \<Rightarrow> ModelCallEvent \<Rightarrow> args" where
  "model_call_fields le ev = with_error (me_error ev)
     [(''ts'', GStr (le_nano le (me_timestamp ev))), (''level'', GStr ''info''), (''type'', GStr ''model_call''),
      (''model'', GStr (me_model ev)), (''message_count'', GInt (int (me_messages ev))),
      (''tool_count'', GInt (int (me_tools ev))), (''duration'', GFloat (le_seconds le (me_duration ev))),
      (''thread'', GStr (me_thread ev)), (''request'', GStr (me_request ev))]"

text \<open>\<open>now\<close> is the clock when the summary is logged.\<close>

definition run_summary_fields :: "log_env \<Rightarrow> int \<Rightarrow> RunSummaryEvent \<Rightarrow> args" where
  "run_summary_fields le now ev = with_error (if se_error ev = '''' then None else Some (se_error ev))
     [(''ts'', GStr (le_nano le now)), (''level'', GStr ''info''), (''type'', GStr ''run_summary''),
      (''thread'', GStr (se_thread ev)), (''request'', GStr (se_request ev)),
      (''duration'', GFloat (le_seconds le (se_duration ev))), (''iterations'', GInt (se_iterations ev)),
      (''model_calls'', GInt (int (se_model_calls ev))), (''model_errors'', GInt (int (se_model_errors ev))),
      (''tool_calls'', GInt (int (se_tool_calls ev))), (''tool_errors'', GInt (int (se_tool_errors ev))),
      (''tool_error_rate'', GFloat (se_error_rate ev))]"

definition json_emit :: "log_env \<Rightarrow> gval \<Rightarrow> string \<Rightarrow> string" where
  "json_emit le v out = out @ json_line le v @ [CHR 0x0A]"

text \<open>The state: what was written, and the metrics.\<close>

definition NewJSONLogger :: "log_env \<Rightarrow> int \<Rightarrow> 'm collector option \<Rightarrow> (string \<times> 'm) logger" where
  "NewJSONLogger le now metrics =
     \<lparr>LogToolCall = (\<lambda>e (out, m). case e of None \<Rightarrow> (out, m)
        | Some ev \<Rightarrow> (json_emit le (GObj (tool_call_fields le ev)) out,
            case metrics of None \<Rightarrow> m | Some c \<Rightarrow> RecordToolCall c (Some ev) m)),
      LogModelCall = (\<lambda>e (out, m). case e of None \<Rightarrow> (out, m)
        | Some ev \<Rightarrow> (json_emit le (GObj (model_call_fields le ev)) out,
            case metrics of None \<Rightarrow> m | Some c \<Rightarrow> RecordModelCall c (Some ev) m)),
      LogRunSummary = (\<lambda>e (out, m). case e of None \<Rightarrow> (out, m)
        | Some ev \<Rightarrow> (json_emit le (GObj (run_summary_fields le now ev)) out,
            case metrics of None \<Rightarrow> m | Some c \<Rightarrow> RecordRunSummary c (Some ev) m))\<rparr>"

section \<open>The logger of a graph\<close>

datatype ('l, 'm) logger_choice = Given 'l | JSONOut "'m collector option" | SimpleOut

text \<open>\<open>prometheus\<close> is what \<open>NewPrometheusCollector(nil)\<close> returns.\<close>

definition graph_logger ::
  "(string \<Rightarrow> string) \<Rightarrow> 'm collector option \<Rightarrow> 'l option \<Rightarrow> ('l, 'm) logger_choice" where
  "graph_logger getenv prometheus given =
     (case given of
        Some lg \<Rightarrow> Given lg
      | None \<Rightarrow>
          if getenv ''DEEPAGENT_JSON_LOG'' = ''true''
          then JSONOut (if getenv ''DEEPAGENT_PROMETHEUS'' = ''true'' then prometheus else None)
          else SimpleOut)"

end
