(* ===== verification/Audit_Cli.thy ===== *)
theory Audit_Cli
  imports Audit_Log
begin

text \<open>
  \<open>cmd/deepagent-audit/main.go\<close>: the command that verifies an audit file. \<open>run\<close>
  returns the exit code and what it wrote to standard output and standard error; it changes
  nothing else. \<open>q\<close> is \<open>strconv.Quote\<close>.
\<close>

section \<open>The flags\<close>

text \<open>
  \<open>flag.FlagSet.Parse\<close> for the two flags of the command, \<open>-file\<close> with a value and
  the boolean \<open>-strict\<close>. Errors are texts.
\<close>

definition parse_bool :: "string \<Rightarrow> bool option" where
  "parse_bool v =
     (if v \<in> {''1'', ''t'', ''T'', ''TRUE'', ''true'', ''True''} then Some True
      else if v \<in> {''0'', ''f'', ''F'', ''FALSE'', ''false'', ''False''} then Some False
      else None)"

text \<open>A flag's name, and its value when it is given after an equals sign.\<close>

definition split_flag :: "string \<Rightarrow> string \<times> string option" where
  "split_flag s =
     (let name = hd s # takeWhile (\<lambda>c. c \<noteq> CHR ''='') (tl s);
          rest = dropWhile (\<lambda>c. c \<noteq> CHR ''='') (tl s)
      in (name, if rest = [] then None else Some (tl rest)))"

definition flag_body :: "string \<Rightarrow> string" where
  "flag_body s = (if prefix ''--'' s then drop 2 s else drop 1 s)"

function (sequential) parse_flags ::
  "(string \<Rightarrow> string) \<Rightarrow> string list \<Rightarrow> string \<times> bool \<Rightarrow> string + (string \<times> bool)" where
  "parse_flags q [] (file, strict) = Inr (file, strict)"
| "parse_flags q (s # args) (file, strict) =
     (let body = flag_body s in
      if length s < 2 \<or> hd s \<noteq> CHR ''-'' \<or> s = ''--'' then Inr (file, strict)
      else if body = [] \<or> hd body = CHR ''-'' \<or> hd body = CHR ''='' then Inl (''bad flag syntax: '' @ s)
      else case split_flag body of (name, val) \<Rightarrow>
        if name = ''strict'' then
          (case val of
             None \<Rightarrow> parse_flags q args (file, True)
           | Some v \<Rightarrow>
               (case parse_bool v of
                  Some b \<Rightarrow> parse_flags q args (file, b)
                | None \<Rightarrow> Inl (''invalid boolean value '' @ q v @ '' for -strict: parse error'')))
        else if name = ''file'' then
          (case val of
             Some v \<Rightarrow> parse_flags q args (v, strict)
           | None \<Rightarrow>
               (case args of
                  [] \<Rightarrow> Inl ''flag needs an argument: -file''
                | v # args' \<Rightarrow> parse_flags q args' (v, strict)))
        else if name = ''help'' \<or> name = ''h'' then Inl ''flag: help requested''
        else Inl (''flag provided but not defined: -'' @ name))"
  by pat_completeness auto
termination by (relation "measure (\<lambda>(q, args, acc). length args)") auto

section \<open>\<open>run\<close>\<close>

definition env_strict :: "(string \<Rightarrow> string) \<Rightarrow> bool" where
  "env_strict getenv = (map ascii_lower (trim_space (getenv ''DEEPAGENT_HITL_AUDIT_STRICT'')) = ''true'')"

definition chosen_file :: "(string \<Rightarrow> string) \<Rightarrow> string \<Rightarrow> string" where
  "chosen_file getenv file =
     (let f = trim_space file in if f = '''' then trim_space (getenv ''DEEPAGENT_HITL_AUDIT_FILE'') else f)"

definition run_command ::
  "(string \<Rightarrow> string) \<Rightarrow> audit_env \<Rightarrow> string list \<Rightarrow> (string \<Rightarrow> string) \<Rightarrow> os_state \<Rightarrow> int \<times> string \<times> string" where
  "run_command q env args getenv s =
     (case parse_flags q args ('''', False) of
        Inl e \<Rightarrow> (2, '''', ''error: '' @ e @ [CHR 0x0A])
      | Inr (file0, strict0) \<Rightarrow>
          let file = chosen_file getenv file0 in
          if file = ''''
          then (2, '''', ''error: audit file path is required (use -file or DEEPAGENT_HITL_AUDIT_FILE)'' @ [CHR 0x0A])
          else let strict = strict0 \<or> env_strict getenv;
                   verify = (if strict then VerifyHITLAuditFileChainStrict else VerifyHITLAuditFileChain)
            in case verify env file s of
                 Some e \<Rightarrow> (1, '''', ''audit chain verification failed: '' @ err_text q e @ [CHR 0x0A])
               | None \<Rightarrow> (0, ''audit chain verification passed: '' @ file @ [CHR 0x0A], ''''))"

section \<open>Lemmas\<close>

text \<open>What a command line asks for: a file and whether to be strict.\<close>

definition requested :: "(string \<Rightarrow> string) \<Rightarrow> string list \<Rightarrow> (string \<Rightarrow> string) \<Rightarrow> (string \<times> bool) option" where
  "requested q args getenv =
     (case parse_flags q args ('''', False) of
        Inl e \<Rightarrow> None
      | Inr (file, strict) \<Rightarrow>
          if chosen_file getenv file = '''' then None
          else Some (chosen_file getenv file, strict \<or> env_strict getenv))"

lemma run_command_result:
  "run_command q env args getenv s =
     (case requested q args getenv of
        None \<Rightarrow> (2, '''', snd (snd (run_command q env args getenv s)))
      | Some (file, strict) \<Rightarrow>
          (case verifyHITLAuditFileChain env strict file s of
             None \<Rightarrow> (0, ''audit chain verification passed: '' @ file @ [CHR 0x0A], '''')
           | Some e \<Rightarrow> (1, '''', ''audit chain verification failed: '' @ err_text q e @ [CHR 0x0A])))"
  by (auto simp: run_command_def requested_def Let_def VerifyHITLAuditFileChainStrict_def
      VerifyHITLAuditFileChain_def split: sum.split option.split)

lemma usage_message:
  "requested q args getenv = None \<Longrightarrow> snd (snd (run_command q env args getenv s)) \<noteq> ''''"
  by (auto simp: run_command_def requested_def Let_def split: sum.splits if_splits)

end
