(* ===== verification/Logger_Claims.thy ===== *)
theory Logger_Claims
  imports Loggers Audit_Cli
begin

text \<open>
  The properties of the loggers and of the audit command.
\<close>

section \<open>The JSON log\<close>

datatype log_event = ToolEv ToolCallEvent | ModelEv ModelCallEvent | SummaryEv RunSummaryEvent

fun log_one :: "'s logger \<Rightarrow> log_event \<Rightarrow> 's \<Rightarrow> 's" where
  "log_one lg (ToolEv e) = LogToolCall lg (Some e)"
| "log_one lg (ModelEv e) = LogModelCall lg (Some e)"
| "log_one lg (SummaryEv e) = LogRunSummary lg (Some e)"

fun log_events :: "'s logger \<Rightarrow> log_event list \<Rightarrow> 's \<Rightarrow> 's" where
  "log_events lg [] s = s"
| "log_events lg (e # es) s = log_events lg es (log_one lg e s)"

fun event_fields :: "log_env \<Rightarrow> int \<Rightarrow> log_event \<Rightarrow> args" where
  "event_fields le now (ToolEv e) = tool_call_fields le e"
| "event_fields le now (ModelEv e) = model_call_fields le e"
| "event_fields le now (SummaryEv e) = run_summary_fields le now e"

fun event_failed :: "log_event \<Rightarrow> bool" where
  "event_failed (ToolEv e) = (te_error e \<noteq> None)"
| "event_failed (ModelEv e) = (me_error e \<noteq> None)"
| "event_failed (SummaryEv e) = (se_error e \<noteq> '''')"

lemma json_log_one:
  "\<exists>m'. log_one (NewJSONLogger le now metrics) e (out, m) =
     (out @ json_line le (GObj (event_fields le now e)) @ [CHR 0x0A], m')"
  by (cases e) (simp_all add: NewJSONLogger_def json_emit_def)

lemma json_log_text:
  "fst (log_events (NewJSONLogger le now metrics) es (out, m)) =
     out @ file_of (map (\<lambda>e. json_line le (GObj (event_fields le now e))) es)"
proof (induction es arbitrary: out m)
  case (Cons e es)
  obtain m' where "log_one (NewJSONLogger le now metrics) e (out, m) =
      (out @ json_line le (GObj (event_fields le now e)) @ [CHR 0x0A], m')" 
    using json_log_one [of le now metrics e out m] by auto
  with Cons show ?case by (simp add: file_of_def)
qed (simp add: file_of_def)

lemma with_error_level:
  "map_of kvs ''level'' = Some (GStr ''info'') \<Longrightarrow>
   map_of (with_error err kvs) ''level'' = Some (GStr (if err = None then ''info'' else ''error''))"
  by (cases err) (simp_all add: with_error_def update_conv')

lemma event_level:
  "map_of (event_fields le now e) ''level'' = Some (GStr (if event_failed e then ''error'' else ''info''))"
  by (cases e) (simp_all add: tool_call_fields_def model_call_fields_def run_summary_fields_def with_error_level)

text \<open>
  C35: the JSON log is one line per event, in the order of the events, as long as the values
  in them can be written as JSON: whatever arguments, results and errors contain, no event
  breaks a line or runs into the next, each line parses as the object of its event (with
  invalid UTF-8 replaced), and its level says whether the event failed.
\<close>

theorem json_log_has_one_line_per_event:
  assumes "fmt_ok (le_ff le)"
    and "map (\<lambda>e. tree_of (le_ff le) (GObj (event_fields le now e))) es = map Some ts"
  shows "map parse_json (raw_lines (fst (log_events (NewJSONLogger le now metrics) es ('''', m)))) = map (\<lambda>t. Some (json_clean t)) ts
    \<and> (\<forall>e \<in> set es. map_of (event_fields le now e) ''level'' = Some (GStr (if event_failed e then ''error'' else ''info'')))"
proof
  let ?ls = "map (\<lambda>e. json_line le (GObj (event_fields le now e))) es"
  have ls: "?ls = map (print_json False 0) ts"
    using assms(2) by (induction es arbitrary: ts) (auto simp: json_line_def json_marshal_def map_eq_Cons_conv Cons_eq_map_conv)
  have ok: "\<forall>t \<in> set ts. json_ok t"
  proof
    fix t assume "t \<in> set ts"
    then have "Some t \<in> set (map (\<lambda>e. tree_of (le_ff le) (GObj (event_fields le now e))) es)"
      unfolding assms(2) by simp
    then obtain e where "Some t = tree_of (le_ff le) (GObj (event_fields le now e))"
      unfolding set_map by (rule imageE)
    from tree_of_ok [OF assms(1) this [symmetric]] show "json_ok t" .
  qed
  have nolf: "CHR 0x0A \<notin> set (print_json False 0 t)" if "json_ok t" for t
    using print_json_printable [OF that, of 0] by (auto simp: printable_def list_all_iff)
  then have "\<forall>l \<in> set ?ls. CHR 0x0A \<notin> set l" using ls ok by simp
  from split_file_of [OF this] have "raw_lines (file_of ?ls) = ?ls" by (simp add: raw_lines_def)
  then have "raw_lines (fst (log_events (NewJSONLogger le now metrics) es ('''', m))) = map (print_json False 0) ts"
    unfolding ls [symmetric] by (simp add: json_log_text)
  then show "map parse_json (raw_lines (fst (log_events (NewJSONLogger le now metrics) es ('''', m)))) =
      map (\<lambda>t. Some (json_clean t)) ts"
    using ok parse_print_clean by simp
qed (simp add: event_level)

definition plain_log :: log_env where
  "plain_log = \<lparr>le_second = (\<lambda>_. ''t''), le_nano = (\<lambda>_. ''t''), le_duration = (\<lambda>_. ''1s''), le_seconds = (\<lambda>_. 0),
     le_value = (\<lambda>_. ''v''), le_percent = (\<lambda>_. ''0.00''), le_marshal_error = (\<lambda>_. ''e''), le_ff = (\<lambda>_. Some ''0'')\<rparr>"

definition line_break_event :: log_event where
  "line_break_event = ToolEv \<lparr>te_tool = ''a'', te_args = None, te_result = GStr [CHR 0x0A, CHR 0x22],
     te_error = Some [CHR 0x0A], te_duration = 1, te_timestamp = 1, te_thread = ''t'', te_request = ''r''\<rparr>"

lemma json_log_has_one_line_per_event_witness:
  "length (raw_lines (fst (log_events (NewJSONLogger plain_log 1 None) [line_break_event, line_break_event] ('''', ())))) = 2"
proof -
  have f: "fmt_ok (le_ff plain_log)"
    by (auto simp: fmt_ok_def plain_log_def) (code_simp)
  obtain t where "tree_of (le_ff plain_log) (GObj (event_fields plain_log 1 line_break_event)) = Some t"
    by (simp add: plain_log_def line_break_event_def tool_call_fields_def with_error_def nullable_args_def)
  then have "map (\<lambda>e. tree_of (le_ff plain_log) (GObj (event_fields plain_log 1 e))) [line_break_event, line_break_event]
      = map Some [t, t]" by simp
  from json_log_has_one_line_per_event [OF f this, of None "()"]
  have "length (map parse_json (raw_lines (fst (log_events (NewJSONLogger plain_log 1 None)
      [line_break_event, line_break_event] ('''', ()))))) = 2" by simp
  then show ?thesis by simp
qed

section \<open>The audit command\<close>

text \<open>
  The exit code of the audit command: 0 exactly when the command line is well formed, a
  file is named by it or by the environment, and the file verifies (strictly, if asked for by
  a flag or the environment); 1 when it does not verify; 2 when the command line or the file
  name is missing. It writes to standard output only on success and to standard error only
  otherwise; the value of \<open>-file\<close> is the next argument, whatever it looks like.
\<close>

theorem audit_command_exit_code:
  "(case requested q args getenv of
      None \<Rightarrow> fst (run_command q env args getenv s) = 2
    | Some (file, strict) \<Rightarrow> fst (run_command q env args getenv s) =
        (if verifyHITLAuditFileChain env strict file s = None then 0 else 1)) \<and>
   (fst (run_command q env args getenv s) = 0 \<longleftrightarrow> fst (snd (run_command q env args getenv s)) \<noteq> '''') \<and>
   (fst (run_command q env args getenv s) = 0 \<longleftrightarrow> snd (snd (run_command q env args getenv s)) = '''') \<and>
   parse_flags q [''-file'', p, ''-strict''] ('''', False) = Inr (p, True)"
proof -
  have p: "parse_flags q [''-file'', p, ''-strict''] ('''', False) = Inr (p, True)"
    by (simp add: flag_body_def split_flag_def)
  show ?thesis
  proof (cases "requested q args getenv")
    case None
    with run_command_result [of q env args getenv s] usage_message [OF None, of env s] p
    show ?thesis by (cases "run_command q env args getenv s") simp
  next
    case (Some x)
    with run_command_result [of q env args getenv s] p show ?thesis
      by (cases x; cases "verifyHITLAuditFileChain env (snd x) (fst x) s") simp_all
  qed
qed

end
