(* ===== verification/Remote_Stores.thy ===== *)
theory Remote_Stores
  imports Memory Tools
begin

text \<open>
  What is only built with a tag: the rest of the Redis store (\<open>memory/redis_store.go\<close>),
  the SQLite store (\<open>memory/sqlite_store.go\<close>) and the full JSON Schema validator
  (\<open>tools/jsonschema_validator.go\<close>). The Redis server, the database and the schema
  compiler are parameters: records of the calls the code makes on them. \<open>Get\<close> and
  \<open>Put\<close> of the Redis store are in \<open>Memory\<close>.
\<close>

section \<open>The Redis store\<close>

text \<open>
  \<open>rs_scan\<close> is \<open>SCAN cursor MATCH pattern COUNT n\<close>: a batch of keys and the next
  cursor, 0 at the end. Nothing bounds the number of batches, so a listing that does not end is
  \<open>None\<close>.
\<close>

record 'w redis_server =
  rs_client :: "'w redis_client"
  rs_scan :: "64 word \<Rightarrow> string \<Rightarrow> int \<Rightarrow> 'w \<Rightarrow> (string list \<times> 64 word) res \<times> 'w"
  rs_parse_url :: "string \<Rightarrow> gerr option"
  rs_ping :: "string \<Rightarrow> 'w \<Rightarrow> gerr option \<times> 'w"
  rs_close :: "'w \<Rightarrow> gerr option \<times> 'w"

definition redis_dsn :: "string \<Rightarrow> string" where
  "redis_dsn dsn = (if trim_space dsn = '''' then ''redis://localhost:6379/0'' else dsn)"

text \<open>The address the store is connected to; a server that does not answer is closed again.\<close>

definition open_redis :: "'w redis_server \<Rightarrow> string \<Rightarrow> 'w \<Rightarrow> string res \<times> 'w" where
  "open_redis rs dsn0 w =
     (let dsn = redis_dsn dsn0 in
      case (if contains ''://'' dsn then rs_parse_url rs dsn else None) of
        Some e \<Rightarrow> (Inl e, w)
      | None \<Rightarrow>
          (case rs_ping rs dsn w of
             (None, w1) \<Rightarrow> (Inr dsn, w1)
           | (Some e, w1) \<Rightarrow> (Inl e, snd (rs_close rs w1))))"

text \<open>A store without a client has nothing to close.\<close>

definition redis_close :: "'w redis_server option \<Rightarrow> 'w \<Rightarrow> gerr option \<times> 'w" where
  "redis_close client w = (case client of None \<Rightarrow> (None, w) | Some rs \<Rightarrow> rs_close rs w)"







section \<open>The SQLite store\<close>

text \<open>
  The three statements of the store and opening the database; a query of the keys gives, row
  by row, a key or the error of scanning it, and the error that ended the rows early, if one did.
\<close>

record 'w sql_db =
  sq_open :: "string \<Rightarrow> 'w \<Rightarrow> gerr option \<times> 'w"
  sq_create :: "'w \<Rightarrow> gerr option \<times> 'w"
  sq_close :: "'w \<Rightarrow> gerr option \<times> 'w"
  sq_value :: "string \<Rightarrow> string \<Rightarrow> 'w \<Rightarrow> string option res"
  sq_upsert :: "string \<Rightarrow> string \<Rightarrow> string \<Rightarrow> 'w \<Rightarrow> unit res \<times> 'w"
  sq_keys :: "string \<Rightarrow> 'w \<Rightarrow> (string res list \<times> gerr option) res"

definition open_sqlite :: "'w sql_db \<Rightarrow> string \<Rightarrow> 'w \<Rightarrow> string res \<times> 'w" where
  "open_sqlite db dsn0 w =
     (let dsn = (if dsn0 = '''' then ''memory.db'' else dsn0) in
      case sq_open db dsn w of
        (Some e, w1) \<Rightarrow> (Inl e, w1)
      | (None, w1) \<Rightarrow>
          (case sq_create db w1 of
             (Some e, w2) \<Rightarrow> (Inl e, snd (sq_close db w2))
           | (None, w2) \<Rightarrow> (Inr dsn, w2)))"

definition sqlite_get :: "'w sql_db \<Rightarrow> parse_float \<Rightarrow> string \<Rightarrow> string \<Rightarrow> 'w \<Rightarrow> gval option res" where
  "sqlite_get db pf ns key w =
     (case sq_value db ns key w of
        Inl e \<Rightarrow> Inl e
      | Inr None \<Rightarrow> Inr None
      | Inr (Some data) \<Rightarrow>
          (case json_unmarshal pf data of None \<Rightarrow> Inl json_error | Some v \<Rightarrow> Inr (Some v)))"

definition sqlite_put :: "'w sql_db \<Rightarrow> fmt_float \<Rightarrow> string \<Rightarrow> string \<Rightarrow> gval \<Rightarrow> 'w \<Rightarrow> unit res \<times> 'w" where
  "sqlite_put db ff ns key v w =
     (case json_marshal ff v of
        None \<Rightarrow> (Inl json_error, w)
      | Some data \<Rightarrow> sq_upsert db ns key data w)"

fun read_rows :: "string res list \<Rightarrow> string list \<Rightarrow> string list res" where
  "read_rows [] keys = Inr keys"
| "read_rows (Inl e # rows) keys = Inl e"
| "read_rows (Inr k # rows) keys = read_rows rows (keys @ [k])"

text \<open>What ended the rows is not asked for.\<close>

definition sqlite_list :: "'w sql_db \<Rightarrow> string \<Rightarrow> 'w \<Rightarrow> string list option res" where
  "sqlite_list db ns w =
     (case sq_keys db ns w of
        Inl e \<Rightarrow> Inl e
      | Inr (rows, _) \<Rightarrow> map_sum id (\<lambda>ks. if ks = [] then None else Some ks) (read_rows rows []))"

definition sqlite_close :: "'w sql_db option \<Rightarrow> 'w \<Rightarrow> gerr option \<times> 'w" where
  "sqlite_close db w = (case db of None \<Rightarrow> (None, w) | Some d \<Rightarrow> sq_close d w)"

section \<open>The JSON Schema validator\<close>

record 'c schema_compiler =
  sc_add :: "string \<Rightarrow> string \<Rightarrow> 'c res"
  sc_compile :: "string \<Rightarrow> 'c \<Rightarrow> 'c res"
  sc_validate :: "'c \<Rightarrow> args option \<Rightarrow> gerr option"

definition full_json_schema ::
  "'c schema_compiler \<Rightarrow> fmt_float \<Rightarrow> args option \<Rightarrow> args option \<Rightarrow> gerr option" where
  "full_json_schema sc ff schema as =
     (case schema of
        None \<Rightarrow> None
      | Some kvs \<Rightarrow>
          (case json_marshal ff (GObj kvs) of
             None \<Rightarrow> Some (ErrWrap ''failed to marshal schema: %w'' json_error [])
           | Some b \<Rightarrow>
               (case sc_add sc ''__tool_schema.json'' b of
                  Inl e \<Rightarrow> Some (ErrWrap ''failed to add schema resource: %w'' e [])
                | Inr c \<Rightarrow>
                    (case sc_compile sc ''__tool_schema.json'' c of
                       Inl e \<Rightarrow> Some (ErrWrap ''failed to compile json schema: %w'' e [])
                     | Inr sch \<Rightarrow>
                         map_option (\<lambda>e. ErrWrap ''json schema validation error: %w'' e []) (sc_validate sc sch as)))))"

section \<open>Properties\<close>


text \<open>
  Over a server that returns what was set last, the Redis store returns what was put last
  under a namespace and a key; but only the text "namespace:key" counts, so the same value is
  found under every other namespace and key that give this text.
\<close>

theorem redis_put_get:
  assumes "\<forall>k d w w'. rc_set rc k d w = (Inr (), w') \<longrightarrow> rc_get rc k w' = Inr (Some d)"
    and "plain ff pf v" "redis_put rc ff ns k v w = (Inr (), w')"
    and "ns @ '':'' @ k = ns' @ '':'' @ k'"
  shows "redis_get rc pf ns k w' = Inr (Some v) \<and> redis_get rc pf ns' k' w' = Inr (Some v)"
proof -
  from marshal_roundtrip(1) [OF assms(2)] obtain data where
    d: "json_marshal ff v = Some data" "json_unmarshal pf data = Some v" by blast
  with assms(3) have "rc_set rc (redis_key ns k) data w = (Inr (), w')" by (simp add: redis_put_def)
  with assms(1) have "rc_get rc (redis_key ns k) w' = Inr (Some data)" by blast
  with d(2) assms(4) show ?thesis by (simp add: redis_get_def redis_key_def)
qed

definition map_client :: "(string \<times> string) list redis_client" where
  "map_client = \<lparr>rc_get = (\<lambda>k w. Inr (map_of w k)), rc_set = (\<lambda>k d w. (Inr (), AList.update k d w))\<rparr>"

lemma redis_put_get_witness:
  "\<exists>w'. redis_get map_client (\<lambda>_. None) ''a'' ''b:c'' w' = Inr (Some (GBool True)) \<and>
     redis_get map_client (\<lambda>_. None) ''a:b'' ''c'' w' = Inr (Some (GBool True))"
proof -
  have law: "\<forall>k d w w'. rc_set map_client k d w = (Inr (), w') \<longrightarrow> rc_get map_client k w' = Inr (Some d)"
    by (auto simp: map_client_def)
  have p: "redis_put map_client (\<lambda>_. None) ''a'' ''b:c'' (GBool True) [] = (Inr (), [(''a:b:c'', ''true'')])" by code_simp
  from redis_put_get [OF law _ p, where pf = "\<lambda>_. None" and ns' = "''a:b''" and k' = "''c''"] show ?thesis by auto
qed

end
