(* ===== verification/Graph_Protocol.thy ===== *)
theory Graph_Protocol
  imports Graph_Trace
begin

text \<open>
  The executor against an abstract machine of five phases that says in what order a run calls
  its interfaces: the trace of every run of \<open>agent/graph.go\<close> drives it from its first
  phase to its last.
\<close>

section \<open>The machine\<close>

datatype phase = Fresh | Ready | Acting | Failed | Over

text \<open>
  A fresh run loads its checkpoint. A model call that answers is acted on (events, approvals,
  tools), and the state is saved before the next one; a model call that fails ends the run, and
  its state is not saved. The summary is logged once; only an error event may follow it.
\<close>

fun acting_event :: "event \<Rightarrow> bool" where
  "acting_event (EvModelCall _ failed) = (\<not> failed)"
| "acting_event (EvFinal _) = False"
| "acting_event (EvError _) = False"
| "acting_event _ = True"

definition phase_step :: "phase \<Rightarrow> effect \<Rightarrow> phase option" where
  "phase_step p e =
     (case p of
        Fresh \<Rightarrow> (case e of Loaded _ \<Rightarrow> Some Ready | _ \<Rightarrow> None)
      | Ready \<Rightarrow> (case e of
            ModelCalled _ _ err \<Rightarrow> Some (if err = None then Acting else Failed)
          | Emitted ev \<Rightarrow> (case ev of EvFinal _ \<Rightarrow> Some Ready | _ \<Rightarrow> None)
          | Summary _ \<Rightarrow> Some Over
          | _ \<Rightarrow> None)
      | Acting \<Rightarrow> (case e of
            Saved _ _ _ \<Rightarrow> Some Ready
          | Emitted ev \<Rightarrow> if acting_event ev then Some Acting else None
          | Loaded _ \<Rightarrow> None | ModelCalled _ _ _ \<Rightarrow> None | Summary _ \<Rightarrow> None
          | _ \<Rightarrow> Some Acting)
      | Failed \<Rightarrow> (case e of
            Emitted ev \<Rightarrow> (case ev of EvModelCall _ failed \<Rightarrow> if failed then Some Failed else None | _ \<Rightarrow> None)
          | Summary _ \<Rightarrow> Some Over
          | _ \<Rightarrow> None)
      | Over \<Rightarrow> (case e of
            Emitted ev \<Rightarrow> (case ev of EvError _ \<Rightarrow> Some Over | _ \<Rightarrow> None)
          | _ \<Rightarrow> None))"

fun drive :: "phase \<Rightarrow> effect list \<Rightarrow> phase option" where
  "drive p [] = Some p"
| "drive p (e # es) = Option.bind (phase_step p e) (\<lambda>q. drive q es)"

lemma drive_append [simp]: "drive p (a @ b) = Option.bind (drive p a) (\<lambda>q. drive q b)"
  by (induction a arbitrary: p) (simp_all add: Option.bind_assoc)

lemma phase_step_audited [simp]: "drive Acting (audited g en) = Some Acting"
  by (simp add: audited_def phase_step_def)

interpretation dr: tool_trace g "\<lambda>d. drive Acting d = Some Acting" for g
proof (unfold_locales, goal_cases)
  case (3 tid rid tc d n m)
  then show ?case by (cases rule: tool_deltaE) (auto simp: ask_effects_def run_effects_def phase_step_def)
qed simp_all

section \<open>Runs\<close>

lemma model_call_drives:
  assumes "model_call g r = (res, s)"
  shows "\<exists>d. r_trace s = r_trace r @ d \<and> drive Ready d = Some (case res of Inl _ \<Rightarrow> Failed | Inr _ \<Rightarrow> Acting)"
proof -
  obtain w1 where m: "g_llm g (st_messages (r_state r)) (convertToolsToLLMFormat (g_tools g)) (r_world r) = (res, w1)"
    using assms by (auto simp: model_call_def Let_def split: prod.splits)
  show ?thesis using assms m by (cases res) (auto simp: model_call_def Let_def phase_step_def)
qed

lemma run_round_drives:
  assumes "run_round g tid rid r = (out, s)"
  shows "\<exists>d. r_trace s = r_trace r @ d \<and>
    drive Ready d = Some (case out of Some (Inl _) \<Rightarrow> Failed | _ \<Rightarrow> Ready)"
proof -
  obtain res r1 where m: "model_call g (next_iteration r) = (res, r1)" by fastforce
  then obtain d1 where d1: "r_trace r1 = r_trace r @ d1"
    "drive Ready d1 = Some (case res of Inl _ \<Rightarrow> Failed | Inr _ \<Rightarrow> Acting)"
    using model_call_drives by fastforce
  show ?thesis
  proof (cases res)
    case (Inl e)
    with assms m d1 show ?thesis by (auto simp: run_round_def)
  next
    case (Inr ct)
    obtain content tcs where ct: "ct = (content, tcs)" by fastforce
    show ?thesis
    proof (cases "tcs = [] \<and> content \<noteq> ''''")
      case True
      with assms m Inr ct d1 show ?thesis by (auto simp: run_round_def final_answer_def Let_def phase_step_def)
    next
      case False
      define r3 where "r3 = (let r2 = add_message ''assistant'' content r1 in
        if content \<noteq> '''' then emit g (EvMessage content (st_iteration (r_state r2))) r2 else r2)"
      have s: "out = None" "s = save_checkpoint g tid (tool_steps g tid rid tcs r3)"
        using assms m Inr ct False by (auto simp: run_round_def r3_def Let_def)
      obtain d2 where d2: "r_trace (tool_steps g tid rid tcs r3) = r_trace r3 @ d2" "drive Acting d2 = Some Acting"
        using dr.tool_steps_adds by blast
      have "\<exists>d. r_trace r3 = r_trace r1 @ d \<and> drive Acting d = Some Acting"
            by (simp add: r3_def Let_def phase_step_def)
      with d1 d2 s Inr show ?thesis by (auto simp: phase_step_def)
    qed
  qed
qed

lemma run_loop_drives:
  assumes "run_loop g tid rid r = (res, s)"
  shows "\<exists>d q. r_trace s = r_trace r @ d \<and> drive Ready d = Some q \<and> q \<in> {Ready, Failed}"
  using assms
proof (induction "nat (20 - st_iteration (r_state r))" arbitrary: r rule: less_induct)
  case less
  obtain out t where rr: "run_round g tid rid r = (out, t)" by fastforce
  from run_round_drives [OF this] obtain d where d: "r_trace t = r_trace r @ d"
    "drive Ready d = Some (case out of Some (Inl _) \<Rightarrow> Failed | _ \<Rightarrow> Ready)" by blast
  show ?case
  proof (cases "st_iteration (r_state r) < 20")
    case False
    with less.prems show ?thesis by (simp add: run_loop.simps [of g tid rid r])
  next
    case True
    show ?thesis
    proof (cases out)
      case (Some x)
      with True rr less.prems have "s = t" by (simp add: run_loop.simps [of g tid rid r])
      with d Some show ?thesis by (cases x) auto
    next
      case None
      with True rr less.prems have l: "run_loop g tid rid t = (res, s)" by (simp add: run_loop.simps [of g tid rid r])
      have "nat (20 - st_iteration (r_state t)) < nat (20 - st_iteration (r_state r))"
        using True None rr run_round_iteration [of g tid rid r t] by simp
      from less.hyps [OF this l] d None show ?thesis by fastforce
    qed
  qed
qed

lemma finish_drives:
  "q \<in> {Ready, Failed} \<Longrightarrow> drive p (r_trace r) = Some q \<Longrightarrow> drive p (r_trace (finish_run g tid rid res r)) = Some Over"
  by (auto simp: finish_run_def Let_def phase_step_def split: sum.split)

text \<open>
  C8: every run refines the abstract machine: its checkpoint is loaded first and once; every
  model call that answers is followed by exactly one save before the next call or the end, with
  all approvals, tools, audit entries and memory updates in between; a model call that fails
  ends the run unsaved; the summary is logged exactly once, at the end.
\<close>

theorem run_refines_phases: "drive Fresh (r_trace (snd (Run g nano input w))) = Some Over"
proof -
  let ?tid = "in_thread input" and ?rid = "newRequestID (in_thread input) nano"
  obtain ld w1 where ld: "g_load g ?tid w = (ld, w1)" by fastforce
  have start: "drive Fresh (r_trace (start_run st w1 [Loaded ?tid])) = Some Ready" for st
    by (simp add: start_run_def phase_step_def)
  show ?thesis
  proof (cases ld)
    case (Inl e)
    with ld finish_drives [OF _ start] show ?thesis by (simp add: Run_def Let_def)
  next
    case (Inr loaded)
    define r0 where "r0 = start_run (initial_state g input loaded) w1 [Loaded ?tid]"
    obtain res r where lp: "run_loop g ?tid ?rid r0 = (res, r)" by fastforce
    then obtain d q where d: "r_trace r = r_trace r0 @ d" "drive Ready d = Some q" "q \<in> {Ready, Failed}"
      using run_loop_drives by blast
    then have "drive Fresh (r_trace r) = Some q" using start by (simp add: r0_def)
    with d(3) finish_drives ld lp Inr show ?thesis by (simp add: Run_def Let_def r0_def)
  qed
qed

end
