(* ===== verification/Graph_Transcript.thy ===== *)
theory Graph_Transcript
  imports Graph_Claims
begin

text \<open>
  The shape of the conversation a run of \<open>agent/graph.go\<close> writes, as a typing judgement
  over message lists: one turn for every model call that answered, each an assistant message
  and the results of the calls it made.
\<close>

section \<open>The judgement\<close>

inductive turns :: "'w graph \<Rightarrow> nat \<Rightarrow> Message list \<Rightarrow> bool" for g where
  no_turn: "turns g 0 []"
| turn: "turns g n ms \<Longrightarrow> list_all (result_typed g) ts \<Longrightarrow>
    turns g (Suc n) (ms @ \<lparr>m_role = ''assistant'', m_content = c\<rparr> # map (tool_message g) ts)"

inductive_simps turns_0 [simp]: "turns g 0 ms"



section \<open>Rounds and runs\<close>







end
