(* ===== verification/Graph_Stream.thy ===== *)
theory Graph_Stream
  imports Graph_Claims
begin

text \<open>
  \<open>Stream\<close> of \<open>agent/deepagent.go\<close> as two processes: a goroutine runs the agent
  and sends its events on a channel of 32 places, which it closes at the end; a reader receives
  from the channel when it likes. A send on a full channel waits.
\<close>

section \<open>The two processes\<close>

record stream_state =
  ss_todo :: "effect list"   \<comment> \<open>what the run has still to do\<close>
  ss_done :: "effect list"
  ss_chan :: "event list"
  ss_read :: "event list"
  ss_closed :: bool
  ss_eof :: bool             \<comment> \<open>the reader has seen that the channel is closed\<close>

definition stream_cap :: nat where
  "stream_cap = 32"

definition stream_start :: "'w graph \<Rightarrow> nat \<Rightarrow> Input \<Rightarrow> 'w \<Rightarrow> stream_state" where
  "stream_start g nano input w =
     \<lparr>ss_todo = r_trace (snd (runWithEventSink g nano input w)), ss_done = [], ss_chan = [], ss_read = [],
      ss_closed = False, ss_eof = False\<rparr>"

text \<open>The goroutine: only the sink can make it wait, it does not look at the context.\<close>

inductive run_step :: "stream_state \<Rightarrow> stream_state \<Rightarrow> bool" where
  work: "ss_todo s = e # es \<Longrightarrow> not_emitted e \<Longrightarrow>
    run_step s (s\<lparr>ss_todo := es, ss_done := ss_done s @ [e]\<rparr>)"
| send: "ss_todo s = Emitted ev # es \<Longrightarrow> length (ss_chan s) < stream_cap \<Longrightarrow>
    run_step s (s\<lparr>ss_todo := es, ss_done := ss_done s @ [Emitted ev], ss_chan := ss_chan s @ [ev]\<rparr>)"
| close: "ss_todo s = [] \<Longrightarrow> \<not> ss_closed s \<Longrightarrow> run_step s (s\<lparr>ss_closed := True\<rparr>)"

inductive read_step :: "stream_state \<Rightarrow> stream_state \<Rightarrow> bool" where
  receive: "ss_chan s = ev # evs \<Longrightarrow> read_step s (s\<lparr>ss_chan := evs, ss_read := ss_read s @ [ev]\<rparr>)"
| eof: "ss_chan s = [] \<Longrightarrow> ss_closed s \<Longrightarrow> \<not> ss_eof s \<Longrightarrow> read_step s (s\<lparr>ss_eof := True\<rparr>)"

definition stream_step :: "stream_state \<Rightarrow> stream_state \<Rightarrow> bool" where
  "stream_step s t \<longleftrightarrow> run_step s t \<or> read_step s t"

lemma stream_stepI: "run_step s t \<Longrightarrow> stream_step s t" "read_step s t \<Longrightarrow> stream_step s t"
  by (simp_all add: stream_step_def)

section \<open>What both keep\<close>

definition stream_inv :: "effect list \<Rightarrow> stream_state \<Rightarrow> bool" where
  "stream_inv tr s \<longleftrightarrow>
     ss_done s @ ss_todo s = tr \<and> emitted (ss_done s) = ss_read s @ ss_chan s \<and>
     length (ss_chan s) \<le> stream_cap \<and> (ss_closed s \<longrightarrow> ss_todo s = []) \<and>
     (ss_eof s \<longrightarrow> ss_closed s \<and> ss_chan s = [])"

lemma emitted_not: "not_emitted e \<Longrightarrow> emitted [e] = []"
  by (cases e) (simp_all add: emitted_def)

lemma run_step_inv: "run_step s t \<Longrightarrow> stream_inv tr s \<Longrightarrow> stream_inv tr t"
  by (induction rule: run_step.induct) (auto simp: stream_inv_def emitted_not)

lemma read_step_inv: "read_step s t \<Longrightarrow> stream_inv tr s \<Longrightarrow> stream_inv tr t"
  by (induction rule: read_step.induct) (auto simp: stream_inv_def)

lemma stream_step_inv: "stream_step s t \<Longrightarrow> stream_inv tr s \<Longrightarrow> stream_inv tr t"
  unfolding stream_step_def using run_step_inv read_step_inv by blast

lemma reachable_inv: "rtranclp stream_step s t \<Longrightarrow> stream_inv tr s \<Longrightarrow> stream_inv tr t"
  by (induction rule: rtranclp_induct) (auto intro: stream_step_inv)

lemma stream_start_inv: "stream_inv (r_trace (snd (runWithEventSink g nano input w))) (stream_start g nano input w)"
  by (simp add: stream_inv_def stream_start_def)

lemmas stream_reaches = reachable_inv [OF _ stream_start_inv]

section \<open>Every execution ends\<close>

definition stream_left :: "stream_state \<Rightarrow> nat" where
  "stream_left s =
     2 * length (ss_todo s) + length (ss_chan s) + (if ss_closed s then 0 else 1) + (if ss_eof s then 0 else 1)"

lemma stream_step_less: "stream_step s t \<Longrightarrow> stream_left t < stream_left s"
  unfolding stream_step_def by (auto elim!: run_step.cases read_step.cases simp: stream_left_def)

lemma stream_terminates: "wfp (\<lambda>t s. stream_step s t)"
  by (rule wfp_if_convertible_to_nat [where f = stream_left]) (rule stream_step_less)

lemma stuck_run:
  assumes "\<And>t. \<not> run_step s t"
  shows "ss_todo s = [] \<and> ss_closed s \<or>
    (\<exists>ev es. ss_todo s = Emitted ev # es \<and> stream_cap \<le> length (ss_chan s))"
proof (cases "ss_todo s")
  case Nil
  with assms close [of s] show ?thesis by blast
next
  case (Cons e es)
  show ?thesis
  proof (cases e)
    case (Emitted ev)
    with assms send [of s ev es] Cons show ?thesis by fastforce
  qed (use assms work [of s e es] Cons in \<open>auto\<close>)
qed

lemma stuck_reader: "(\<And>t. \<not> read_step s t) \<Longrightarrow> ss_chan s = [] \<and> (ss_closed s \<longrightarrow> ss_eof s)"
  by (cases "ss_chan s") (use receive [of s] eof [of s] in blast)+

section \<open>Properties\<close>

lemma maximal_exists:
  assumes "wfp (\<lambda>t s. R s t)" shows "\<exists>t. rtranclp R s t \<and> (\<forall>u. \<not> R t u)"
  using assms
proof (induction s rule: wfp_induct_rule)
  case (less s)
  show ?case
  proof (cases "\<exists>u. R s u")
    case True
    then obtain u where u: "R s u" by blast
    with less obtain t where "rtranclp R u t" "\<forall>v. \<not> R t v" by blast
    with u show ?thesis by (meson converse_rtranclp_into_rtranclp)
  qed blast
qed

text \<open>
  A stream hands its events over in order and loses none: at any time what was received, what is
  in the channel and what the run will still emit are together the events of the run. The run is
  never more than 32 events ahead of the reader, and a reader that has seen the channel closed has
  them all.
\<close>

lemma stream_keeps_order:
  assumes "rtranclp stream_step (stream_start g nano input w) s"
  shows "ss_read s @ ss_chan s @ emitted (ss_todo s) = Stream g nano input w \<and>
     length (emitted (ss_done s)) \<le> length (ss_read s) + 32 \<and>
     (if ss_eof s then ss_read s = Stream g nano input w else True)"
proof -
  from stream_reaches [OF assms] have inv: "stream_inv (r_trace (snd (runWithEventSink g nano input w))) s" .
  then have "Stream g nano input w = emitted (ss_done s) @ emitted (ss_todo s)"
    unfolding stream_inv_def Stream_def by (metis emitted_simps(2))
  with inv show ?thesis by (auto simp: stream_inv_def stream_cap_def)
qed

text \<open>
  C12: every execution of a stream ends, and when it can go no further with a reader that keeps
  receiving, the reader has received every event of the run in order and seen the channel closed;
  exactly one of the events is terminal, the last: the final output of a run that succeeds, the
  payload of the error of a run that fails.
\<close>

theorem stream_completes:
  assumes "rtranclp stream_step (stream_start g nano input w) s" "\<And>t. \<not> stream_step s t"
  shows "wfp (\<lambda>t s. stream_step s t) \<and> ss_eof s \<and> ss_read s = Stream g nano input w \<and>
    (\<exists>evs. ss_read s = evs @ [case fst (runWithEventSink g nano input w) of
        Inr out \<Rightarrow> EvFinal out | Inl e \<Rightarrow> EvError (AgentError_Payload e)] \<and>
      list_all (\<lambda>ev. \<not> terminal ev) evs)"
proof -
  have r: "\<And>t. \<not> run_step s t" "\<And>t. \<not> read_step s t" using assms(2) by (simp_all add: stream_step_def)
  have "ss_eof s" using stuck_run [OF r(1)] stuck_reader [OF r(2)] by (auto simp: stream_cap_def)
  moreover from this stream_keeps_order [OF assms(1)] have "ss_read s = Stream g nano input w" by simp
  ultimately show ?thesis using stream_terminates stream_ends_once [of g nano input w] by simp
qed

lemma stream_completes_witness:
  "\<exists>s. rtranclp stream_step (stream_start (demo_graph (''approved'', None) 0) 7 demo_input demo_script) s \<and> ss_eof s"
proof -
  obtain s where s: "rtranclp stream_step (stream_start (demo_graph (''approved'', None) 0) 7 demo_input demo_script) s"
    "\<forall>t. \<not> stream_step s t"
    using maximal_exists [OF stream_terminates] by blast
  from s(2) have "\<And>t. \<not> stream_step s t" by blast
  from stream_completes [OF s(1) this] s(1) show ?thesis by blast
qed

text \<open>
  C13: a stream whose reader stops receiving stops the agent: if more than 32 events are left, the
  goroutine stays forever in the send of one of them, with the channel full and open, and nothing
  the run would have done after that send (tools, checkpoints, the summary) happens. Cancelling the
  context does not help, since the send does not wait for it.
\<close>

theorem abandoned_stream_blocks:
  assumes "rtranclp stream_step (stream_start g nano input w) s"
    and "rtranclp run_step s t" "\<And>u. \<not> run_step t u"
    and "length (ss_read s) + 32 < length (Stream g nano input w)"
  shows "\<not> ss_closed t \<and> length (ss_chan t) = 32 \<and>
    (\<exists>ev es. r_trace (snd (runWithEventSink g nano input w)) = ss_done t @ Emitted ev # es \<and>
      length (emitted (ss_done t)) = length (ss_read s) + 32)"
proof -
  have "rtranclp stream_step s t" using assms(2) by (rule rtranclp_mono [THEN predicate2D, rotated]) (auto intro: stream_stepI)
  with assms(1) have inv: "stream_inv (r_trace (snd (runWithEventSink g nano input w))) t"
    by (meson rtranclp_trans stream_reaches)
  have rd: "ss_read t = ss_read s" using assms(2)
    by (induction rule: rtranclp_induct) (auto elim!: run_step.cases)
  have "ss_todo t \<noteq> []" using inv assms(4) rd by (auto simp: stream_inv_def Stream_def stream_cap_def)
  with stuck_run [OF assms(3)] obtain ev es where "ss_todo t = Emitted ev # es" "32 \<le> length (ss_chan t)"
    by (auto simp: stream_cap_def)
  with inv rd have "r_trace (snd (runWithEventSink g nano input w)) = ss_done t @ Emitted ev # es"
    "\<not> ss_closed t" "length (ss_chan t) = 32" "length (emitted (ss_done t)) = length (ss_read s) + 32"
    by (auto simp: stream_inv_def stream_cap_def)
  then show ?thesis by blast
qed

definition chatty_script :: script where
  "chatty_script = replicate 20 (Inr (''a'', [echo_request\<lparr>tc_name := ''none''\<rparr>]))"

lemma run_steps_end: "\<exists>t. rtranclp run_step s t \<and> (\<forall>u. \<not> run_step t u)"
proof (rule maximal_exists)
  have "run_step s t \<Longrightarrow> stream_left t < stream_left s" for s t
    by (blast intro: stream_step_less stream_stepI)
  then show "wfp (\<lambda>t s. run_step s t)" by (rule wfp_if_convertible_to_nat [where f = stream_left])
qed

lemma abandoned_stream_blocks_witness:
  "\<exists>t. rtranclp run_step (stream_start (demo_graph (''approved'', None) 0) 7 demo_input chatty_script) t \<and>
     \<not> ss_closed t \<and> length (ss_chan t) = 32"
proof -
  let ?s = "stream_start (demo_graph (''approved'', None) 0) 7 demo_input chatty_script"
  obtain t where t: "rtranclp run_step ?s t" "\<forall>u. \<not> run_step t u" using run_steps_end by blast
  have "ss_read ?s = []" by (simp add: stream_start_def)
  moreover have "32 < length (Stream (demo_graph (''approved'', None) 0) 7 demo_input chatty_script)" by code_simp
  ultimately have "length (ss_read ?s) + 32 < length (Stream (demo_graph (''approved'', None) 0) 7 demo_input chatty_script)"
    by simp
  from abandoned_stream_blocks [OF rtranclp.rtrancl_refl t(1) _ this] t show ?thesis by blast
qed

end
