(* ===== verification/Hitl_Console.thy ===== *)
theory Hitl_Console
  imports Hitl
begin

text \<open>
  The console approver of \<open>agent/hitl.go\<close> over time. Every request starts a goroutine that
  reads one line from the console and puts it in the channel of its request; the request waits for
  the channel or for its context. A goroutine whose request was cancelled goes on waiting for a
  line, so several may wait at once, and any of them gets the next line.
\<close>

section \<open>Requests and readers\<close>

record console =
  co_asked :: nat                         \<comment> \<open>how many requests were made; they are numbered\<close>
  co_readers :: "nat list"                \<comment> \<open>the goroutines in \<open>Scanln\<close>, by their request\<close>
  co_channels :: "(nat \<times> string) list"    \<comment> \<open>the lines in the channels\<close>
  co_open :: "nat list"                   \<comment> \<open>the requests that have not returned\<close>
  co_answers :: "(nat \<times> approval) list"   \<comment> \<open>what the others returned\<close>
  co_read :: "(nat \<times> string) list"        \<comment> \<open>every line read, with the reader that got it\<close>

definition console_start :: console where
  "console_start = \<lparr>co_asked = 0, co_readers = [], co_channels = [], co_open = [], co_answers = [], co_read = []\<rparr>"

definition ask :: "console \<Rightarrow> console" where
  "ask s = s\<lparr>co_asked := Suc (co_asked s), co_readers := co_readers s @ [co_asked s],
     co_open := co_open s @ [co_asked s]\<rparr>"

definition scan :: "nat \<Rightarrow> string \<Rightarrow> console \<Rightarrow> console" where
  "scan n line s = s\<lparr>co_readers := remove1 n (co_readers s), co_channels := co_channels s @ [(n, line)],
     co_read := co_read s @ [(n, line)]\<rparr>"

definition give :: "nat \<Rightarrow> approval \<Rightarrow> console \<Rightarrow> console" where
  "give n a s = s\<lparr>co_open := remove1 n (co_open s), co_answers := co_answers s @ [(n, a)]\<rparr>"

inductive console_step :: "(string \<Rightarrow> string) \<Rightarrow> console \<Rightarrow> console \<Rightarrow> bool" for ul where
  asks: "console_step ul s (ask s)"
| scans: "n \<in> set (co_readers s) \<Longrightarrow> console_step ul s (scan n line s)"
| answers: "n \<in> set (co_open s) \<Longrightarrow> (n, line) \<in> set (co_channels s) \<Longrightarrow>
    console_step ul s (give n (consoleApprover ul (Response line)) (s\<lparr>co_channels := remove1 (n, line) (co_channels s)\<rparr>))"
| cancels: "n \<in> set (co_open s) \<Longrightarrow> console_step ul s (give n (consoleApprover ul (CtxDone err)) s)"

abbreviation console_run :: "(string \<Rightarrow> string) \<Rightarrow> console \<Rightarrow> console \<Rightarrow> bool" where
  "console_run ul \<equiv> rtranclp (console_step ul)"

section \<open>What every step keeps\<close>











section \<open>Properties\<close>



lemma console_runI: "console_run ul s t \<Longrightarrow> console_step ul t u \<Longrightarrow> console_run ul s u"
  by (rule rtranclp.rtrancl_into_rtrancl)

text \<open>
  But an answer can get lost: the reader of a cancelled request is still there and takes the
  line meant for the next one.
\<close>

lemma console_answer_lost:
  "\<exists>s. console_run ul console_start s \<and> co_answers s = [(0, (''cancelled'', Some err))] \<and>
     co_open s = [1] \<and> co_read s = [(0, ''y'')] \<and> co_readers s = [1]"
proof -
  define s1 where "s1 = ask console_start"
  define s2 where "s2 = give 0 (consoleApprover ul (CtxDone err)) s1"
  define s3 where "s3 = ask s2"
  define s4 where "s4 = scan 0 ''y'' s3"
  note d = s1_def s2_def s3_def s4_def ask_def give_def scan_def console_start_def consoleApprover_def
  have "console_run ul console_start s1" using asks unfolding s1_def by (rule r_into_rtranclp)
  moreover have "console_step ul s1 s2" unfolding s2_def by (rule cancels) (simp add: d)
  moreover have "console_step ul s2 s3" unfolding s3_def by (rule asks)
  moreover have "console_step ul s3 s4" unfolding s4_def by (rule scans) (simp add: d)
  ultimately have "console_run ul console_start s4" by (meson console_runI)
  moreover have "co_answers s4 = [(0, (''cancelled'', Some err))] \<and> co_open s4 = [1] \<and> co_read s4 = [(0, ''y'')] \<and>
    co_readers s4 = [1]" by (simp add: d)
  ultimately show ?thesis by blast
qed


end
