(* ===== verification/Spec2Isabelle.thy ===== *)
theory Spec2Isabelle
  imports Graph_Claims Hitl_Claims Fs_Claims Tool_Claims Sandbox_Claims Store_Claims Adapter_Claims
    Agent_Claims Agent_Audit Audit_Claims Logger_Claims Remote_Stores
    Graph_Protocol Graph_Transcript Graph_Stream Hitl_Console
begin

text \<open>
  \<^bold>\<open>A verification development for deepagent\<close>, a Go library for agents that call tools: an
  agent asks a model, runs the tools the model calls, with a human's approval where that is
  configured, and goes on until the model answers.

  \<^bold>\<open>The program and the theories.\<close>

  \<^item> \<open>agent/graph.go\<close>, \<open>agent/types.go\<close>: the executor. \<open>Graph\<close> has
    \<open>Run\<close> stage by stage (model call, approval, validated tool call, checkpoint, final
    answer) over a record \<open>graph\<close> of the interfaces it holds, functions of a world
    \<open>'w\<close>; a run also records every call it makes in a trace. \<open>Graph_Trace\<close>,
    \<open>Graph_Props\<close> and \<open>Graph_Result\<close> lift properties of the trace, the counters, the
    messages and the events to runs, \<open>Graph_World\<close> properties of the world;
    \<open>Graph_Protocol\<close> is the abstract machine a run refines, \<open>Graph_Transcript\<close> the
    typing of the conversation it writes. \<open>Graph_Stream\<close> is \<open>Stream\<close> as two processes,
    the goroutine of the run and the reader of its channel, a step relation with its reachable and
    its stuck states.
  \<^item> \<open>agent/hitl.go\<close>, \<open>agent/hitl_http.go\<close>: \<open>Hitl\<close>, which tools need an
    approval, the console approver and the HTTP approver; \<open>Hitl_Console\<close>, the goroutines of the
    console approver, of which several may wait for a line.
  \<^item> \<open>agent/hitl_audit.go\<close>: \<open>Audit_Log\<close>, the log of approvals, a file of JSON
    lines chained by hashes, and its verification; \<open>Audit_Lines\<close>, \<open>Audit_Chain\<close>,
    \<open>Audit_Runs\<close> and \<open>Audit_Tamper\<close> prove that entries survive their line, that
    files are chains, and what a chain determines. \<open>Audit_Cli\<close> is
    \<open>cmd/deepagent-audit/main.go\<close>.
  \<^item> \<open>agent/checkpointer.go\<close>: \<open>Checkpointer\<close>; \<open>memory/\<close>: \<open>Memory\<close>
    (the file store, the in-memory store, \<open>Get\<close> and \<open>Put\<close> of the Redis store, the
    factory) and \<open>Remote_Stores\<close> (the rest of the Redis store, the SQLite store, the full
    JSON Schema validator).
  \<^item> \<open>agent/deepagent.go\<close>, \<open>agent/options.go\<close>, \<open>agent/subagent.go\<close>:
    \<open>Agent\<close>, the choice of the model client, the defaults, the tools of an agent, and
    agents that run inside a tool call of another one. The world there holds the file system,
    the in-memory backends and the audit loggers, each object an index.
  \<^item> \<open>agent/logging.go\<close>, \<open>agent/json_logger.go\<close>, \<open>agent/metrics_*.go\<close>:
    \<open>Loggers\<close>.
  \<^item> \<open>llms/\<close>: \<open>Tool_Schema\<close> (parameter schemas) and \<open>Model_Adapters\<close>
    (Anthropic, OpenAI, Groq, Ollama).
  \<^item> \<open>tools/tool.go\<close>, \<open>tools/validation.go\<close>: \<open>Tools\<close>,
    \<open>Tool_Schema\<close>; \<open>tools/builtin/fs/\<close>: \<open>Fs_Backend\<close>, \<open>Fs_Tools\<close>;
    \<open>tools/builtin/sandbox.go\<close>, \<open>tools/builtin/execute.go\<close>: \<open>Sandbox\<close>;
    \<open>tools/builtin/skills.go\<close>, \<open>tools/builtin/write_todos.go\<close>:
    \<open>Builtin_Tools\<close>.

  \<^bold>\<open>Below them\<close>, what the code uses of Go and its library: \<open>Prelude\<close> (strings,
  numbers as text, errors), \<open>Utf8\<close>, \<open>Go_Values\<close> (the type \<open>any\<close>),
  \<open>Json\<close> (\<open>encoding/json\<close>: printing with the HTML escapes, parsing, decoding),
  \<open>Json_Roundtrip\<close>, \<open>Json_Values\<close>, \<open>Json_Structs\<close>, \<open>Paths\<close>
  (\<open>path/filepath\<close>) and \<open>Os_Files\<close> (a file system with directories and with nodes
  that fail to be read). A state is a record with the fields of the Go struct, an \<open>error\<close> a
  value of \<open>gerr\<close> (with wrapping), a method on a shared object a function from its state to
  its result and new state. Strings are lists of bytes.

  \<^bold>\<open>Contracts.\<close> The interfaces are locales, interpreted by the implementations of the
  program: \<open>memory_store\<close> by the file store and the in-memory store,
  \<open>checkpointer\<close> by the file checkpointer, the file backend's locale by the in-memory and
  the disk backend, the trace locales by the properties of the executor, \<open>run_world\<close> by the
  invariant that ties the audit file to the trace.

  \<^bold>\<open>What is shown.\<close> Of the executor: no tool that needs approval runs without one for this
  very call and these arguments, none runs on arguments its schema rejects; the audit log names
  every request and decision, without the arguments unless asked; a run makes at most 20 model
  calls and ends; the stream of events reaches a reader that keeps receiving in full and in order,
  ends with exactly one final or error event and does not change the run, and an abandoned stream
  blocks the run; tool calls are answered in order, and the messages a run adds are well typed
  turns; a successful run's answer, messages and
  checkpoint agree, and the next run of the thread goes on from it. Of the agent: which tools it
  has, that results of subagents go to new files, that all subagents share one conversation and
  run out of rounds together, that the audit file of any run verifies. Of the audit log: exactly
  what verification accepts, that logs survive restarts, that the last hash determines the
  entries, that a failed read or a second logger on the file breaks the chain. Of the rest: paths stay below the root of the
  disk backend, writes are atomic, only checked commands reach the system and containers keep
  their restrictions, the HTTP approver fails closed, on the console no request is approved by the
  answer to another, round trips of checkpoints, memories, tool
  results and JSON logs, termination of the Redis listing, the exit codes of the command.

  \<^bold>\<open>Bounds and fuel.\<close> The loop of \<open>Run\<close> terminates by the measure of the rounds left
  of 20, so it has no fuel. The JSON parser has fuel twice the length of the text and two: every
  value uses up a character and at most one level (\<open>parse_print\<close> holds for all texts).
  Listing a Redis namespace may never return and is a \<open>partial_function\<close>. The task tool of
  an agent runs agents without a bound on their depth: \<open>agents deep n\<close> unfolds \<open>n\<close>
  levels over an arbitrary \<open>deep\<close>, and statements hold for every behaviour of the levels
  below. A scanner line has at most 65535 bytes, as in \<open>bufio\<close>. Counters and sizes are
  unbounded integers; the code never brings them near the range of an \<open>int\<close>, and decoding
  checks that range.

  \<^bold>\<open>Parameters\<close>, since their code is not in the repository: the model's service, the HTTP
  client, the OpenAI library, Redis and SQLite, the Prometheus client, the JSON Schema compiler,
  SHA-256, time formats, conversions of floats, Unicode case tables, the running of commands.

  \<^bold>\<open>Not modelled.\<close> Concurrency, except in streams, on the console and between two loggers of one
  file: the locks of stores and loggers make their operations single steps here. Cancellation of
  contexts, except where it decides (console approver, timeout tool). Durations
  and clock readings in events of the executor. The order in which Go enumerates a map is that of
  an association list. A list field that occurs twice in one JSON object replaces the earlier one
  as a whole. \<open>examples/research.go\<close> builds one agent and prints its answer; the placeholder
  types of the Prometheus registry hold nothing.
\<close>

end
